(* ===== verification/Prelude.thy ===== *)
theory Prelude
  imports Complex_Main "HOL-Library.Word"
begin

text \<open>
  Generic material that the component theories share: the machine integers of Go, the
  result type of its fallible functions, and a few facts about lists and maps. Nothing
  here models a line of the program by itself.
\<close>

named_theorems frame_simps \<open>what an operation leaves unchanged\<close>
named_theorems error_simps \<open>the error values and when they differ\<close>

text \<open>
  Go's \<open>int\<close>, \<open>int64\<close> and \<open>time.Duration\<close> are 64-bit two's complement integers:
  \<open>+\<close>, \<open>-\<close>, \<open>*\<close> on the word type wrap as Go's do, \<^term>\<open>sint\<close> reads the value,
  and \<^term>\<open>word_sless\<close>, \<^term>\<open>word_sle\<close> are Go's \<open><\<close> and \<open><=\<close>.
\<close>

type_synonym int64 = "64 word"
type_synonym int32 = "32 word"
type_synonym byte = "8 word"

text \<open>A UUID is 16 bytes; \<open>uuid.Nil\<close> is the zero value.\<close>

type_synonym uuid = "128 word"

definition uuid_Nil :: uuid where
  "uuid_Nil = 0"

definition int64_range :: "int \<Rightarrow> bool" where
  "int64_range i \<longleftrightarrow> - (2 ^ 63) \<le> i \<and> i < 2 ^ 63"

lemma int64_range_sint [simp]: "int64_range (sint (w :: int64))"
  using sint_lt [of w] sint_ge [of w] by (simp add: int64_range_def)

lemma sint_of_int64: "int64_range i \<Longrightarrow> sint (of_int i :: int64) = i"
  by (simp add: int64_range_def sint_sbintrunc' signed_take_bit_int_eq_self signed_of_int)

lemma sint_add_int64:
  "int64_range (sint a + sint b) \<Longrightarrow> sint (a + b :: int64) = sint a + sint b"
  using sint_of_int64 [of "sint a + sint b"] by simp

lemma sint_diff_int64:
  "int64_range (sint a - sint b) \<Longrightarrow> sint (a - b :: int64) = sint a - sint b"
  using sint_of_int64 [of "sint a - sint b"] by simp

lemma sint_minus_int64:
  "int64_range (- sint a) \<Longrightarrow> sint (- a :: int64) = - sint a"
  using sint_of_int64 [of "- sint a"] by simp

lemma sint_mult_int64:
  "int64_range (sint a * sint b) \<Longrightarrow> sint (a * b :: int64) = sint a * sint b"
  using sint_of_int64 [of "sint a * sint b"] by simp

text \<open>A fallible Go function returns a value or an error.\<close>

definition is_ok :: "'e + 'a \<Rightarrow> bool" where
  "is_ok r \<longleftrightarrow> (case r of Inl _ \<Rightarrow> False | Inr _ \<Rightarrow> True)"

lemma is_ok_simps [simp]: "is_ok (Inr x)" "\<not> is_ok (Inl e)"
  by (simp_all add: is_ok_def)

text \<open>
  The order in which Go's \<open>range\<close> visits the keys of a map is not specified: it is an
  argument of the operations that iterate over one, and any enumeration of the keys
  without repetition is a possible order.
\<close>

definition range_order :: "('k \<rightharpoonup> 'v) \<Rightarrow> 'k list \<Rightarrow> bool" where
  "range_order m ks \<longleftrightarrow> distinct ks \<and> set ks = dom m"

lemma range_order_finite: "range_order m ks \<Longrightarrow> finite (dom m)"
  by (auto simp: range_order_def intro: finite_subset [of _ "set ks"])

lemma range_order_exists: "finite (dom m) \<Longrightarrow> \<exists>ks. range_order m ks"
  by (auto simp: range_order_def dest: finite_distinct_list)

text \<open>The values a loop over a map sees, in the order it visits the keys.\<close>

definition range_values :: "('k \<rightharpoonup> 'v) \<Rightarrow> 'k list \<Rightarrow> 'v list" where
  "range_values m ks = List.map_filter m ks"

lemma set_range_values: "range_order m ks \<Longrightarrow> set (range_values m ks) = ran m"
  by (force simp: range_values_def range_order_def List.map_filter_def ran_def)

lemma range_values_Nil [simp]: "range_values m [] = []"
  by (simp add: range_values_def List.map_filter_def)

lemma range_values_Cons [simp]:
  "range_values m (k # ks) = (case m k of None \<Rightarrow> range_values m ks | Some v \<Rightarrow> v # range_values m ks)"
  by (simp add: range_values_def List.map_filter_def split: option.split)

text \<open>The first element with a property, as an early-returning loop finds it.\<close>

lemma find_None_unique:
  "(\<forall>x\<in>set xs. \<not> P x) \<Longrightarrow> List.find P xs = None"
  by (induction xs) auto

lemma find_Some_unique:
  "x \<in> set xs \<Longrightarrow> P x \<Longrightarrow> \<forall>y\<in>set xs. P y \<longrightarrow> y = x \<Longrightarrow> List.find P xs = Some x"
  by (induction xs) (simp, fastforce)

lemma find_SomeD: "List.find P xs = Some x \<Longrightarrow> x \<in> set xs \<and> P x"
  by (induction xs) (auto split: if_splits)

lemma find_NoneD: "List.find P xs = None \<Longrightarrow> y \<in> set xs \<Longrightarrow> \<not> P y"
  by (induction xs) (auto split: if_splits)

lemma find_snoc:
  "List.find P (xs @ [y]) = (case List.find P xs of Some x \<Rightarrow> Some x | None \<Rightarrow> if P y then Some y else None)"
  by (induction xs) auto

end
