(* ===== verification/GoFloat.thy ===== *)
theory GoFloat
  imports Prelude
begin

text \<open>
  Go's \<open>float64\<close>: IEEE 754 binary64 with round to nearest, ties to even. A value is a NaN,
  an infinity, the negative zero or a rational; \<^term>\<open>f_round\<close> rounds an exact result to
  53 bits of precision (with gradual underflow and overflow to an infinity), and every
  arithmetic operation is the exact operation on rationals followed by that rounding.
  Comparisons with a NaN are false and the two zeros are equal, as in Go.
  The compiler may fuse a multiplication and an addition on some targets; the model is that
  of a target that does not (amd64).
\<close>

section \<open>Values and comparisons\<close>

datatype f64 = NaN | NegInf | PosInf | NegZero | Num rat

fun f_rank :: "f64 \<Rightarrow> int" where
  "f_rank NegInf = -1"
| "f_rank PosInf = 1"
| "f_rank _ = 0"

fun f_val :: "f64 \<Rightarrow> rat" where
  "f_val (Num q) = q"
| "f_val _ = 0"

fun f_neg_sign :: "f64 \<Rightarrow> bool" where
  "f_neg_sign NegInf = True"
| "f_neg_sign NegZero = True"
| "f_neg_sign (Num q) = (q < 0)"
| "f_neg_sign _ = False"

definition f_nan :: "f64 \<Rightarrow> bool" where
  "f_nan x \<longleftrightarrow> x = NaN"

definition f_finite :: "f64 \<Rightarrow> bool" where
  "f_finite x \<longleftrightarrow> x \<noteq> NaN \<and> x \<noteq> NegInf \<and> x \<noteq> PosInf"

definition f_lt :: "f64 \<Rightarrow> f64 \<Rightarrow> bool" where
  "f_lt a b \<longleftrightarrow> \<not> f_nan a \<and> \<not> f_nan b \<and>
     (f_rank a < f_rank b \<or> f_rank a = f_rank b \<and> f_val a < f_val b)"

definition f_eq :: "f64 \<Rightarrow> f64 \<Rightarrow> bool" where
  "f_eq a b \<longleftrightarrow> \<not> f_nan a \<and> \<not> f_nan b \<and> f_rank a = f_rank b \<and> f_val a = f_val b"

definition f_le :: "f64 \<Rightarrow> f64 \<Rightarrow> bool" where
  "f_le a b \<longleftrightarrow> f_lt a b \<or> f_eq a b"

lemma f_nan_simps [simp]:
  "f_nan NaN" "\<not> f_nan NegInf" "\<not> f_nan PosInf" "\<not> f_nan NegZero" "\<not> f_nan (Num q)"
  by (simp_all add: f_nan_def)

lemma f_finite_simps [simp]:
  "\<not> f_finite NaN" "\<not> f_finite NegInf" "\<not> f_finite PosInf" "f_finite NegZero" "f_finite (Num q)"
  by (simp_all add: f_finite_def)

lemma f_finite_not_nan: "f_finite a \<Longrightarrow> \<not> f_nan a"
  by (auto simp: f_finite_def f_nan_def)

lemma f_finite_rank: "f_finite a \<Longrightarrow> f_rank a = 0"
  by (cases a) auto

lemma f_lt_Num [simp]: "f_lt (Num p) (Num q) \<longleftrightarrow> p < q"
  by (simp add: f_lt_def)

lemma f_le_Num [simp]: "f_le (Num p) (Num q) \<longleftrightarrow> p \<le> q"
  by (auto simp: f_le_def f_eq_def)

lemma f_eq_Num [simp]: "f_eq (Num p) (Num q) \<longleftrightarrow> p = q"
  by (simp add: f_eq_def)

lemma f_lt_finite: "f_finite a \<Longrightarrow> f_finite b \<Longrightarrow> f_lt a b \<longleftrightarrow> f_val a < f_val b"
  by (simp add: f_lt_def f_finite_rank f_finite_not_nan)

lemma f_le_finite: "f_finite a \<Longrightarrow> f_finite b \<Longrightarrow> f_le a b \<longleftrightarrow> f_val a \<le> f_val b"
  by (auto simp: f_le_def f_lt_def f_eq_def f_finite_rank f_finite_not_nan)

lemma f_lt_nan [simp]: "\<not> f_lt NaN b" "\<not> f_lt a NaN"
  by (simp_all add: f_lt_def)

lemma f_le_nan [simp]: "\<not> f_le NaN b" "\<not> f_le a NaN"
  by (simp_all add: f_le_def f_eq_def)

lemma f_lt_irrefl [simp]: "\<not> f_lt a a"
  by (simp add: f_lt_def)

lemma f_lt_asym: "f_lt a b \<Longrightarrow> \<not> f_lt b a"
  by (auto simp: f_lt_def)

lemma f_lt_trans: "f_lt a b \<Longrightarrow> f_lt b c \<Longrightarrow> f_lt a c"
  by (auto simp: f_lt_def)

lemma f_le_refl: "\<not> f_nan a \<Longrightarrow> f_le a a"
  by (simp add: f_le_def f_eq_def)

lemma f_le_trans: "f_le a b \<Longrightarrow> f_le b c \<Longrightarrow> f_le a c"
  by (auto simp: f_le_def f_lt_def f_eq_def)

lemma f_le_lt_trans: "f_le a b \<Longrightarrow> f_lt b c \<Longrightarrow> f_lt a c"
  by (auto simp: f_le_def f_lt_def f_eq_def)

lemma f_lt_le_trans: "f_lt a b \<Longrightarrow> f_le b c \<Longrightarrow> f_lt a c"
  by (auto simp: f_le_def f_lt_def f_eq_def)

lemma f_not_lt: "\<not> f_nan a \<Longrightarrow> \<not> f_nan b \<Longrightarrow> \<not> f_lt a b \<longleftrightarrow> f_le b a"
  by (auto simp: f_le_def f_lt_def f_eq_def)

lemma f_not_le: "\<not> f_nan a \<Longrightarrow> \<not> f_nan b \<Longrightarrow> \<not> f_le a b \<longleftrightarrow> f_lt b a"
  by (auto simp: f_le_def f_lt_def f_eq_def)

section \<open>Rounding\<close>

text \<open>The number of bits of a positive integer, and the exponent of a positive rational.\<close>

fun blen :: "int \<Rightarrow> int" where
  "blen n = (if n \<le> 0 then 0 else 1 + blen (n div 2))"

declare blen.simps [simp del]

definition ilog2 :: "rat \<Rightarrow> int" where
  "ilog2 q = (let (n, d) = quotient_of q; k = blen n - blen d
              in if 2 powi k \<le> q then k else k - 1)"

definition round_half_even :: "rat \<Rightarrow> int" where
  "round_half_even q =
     (let f = \<lfloor>q\<rfloor>; r = q - of_int f
      in if r < 1 / 2 then f else if 1 / 2 < r then f + 1
         else if even f then f else f + 1)"

definition f_exp :: "rat \<Rightarrow> int" where
  "f_exp a = max (ilog2 a - 52) (- 1074)"

definition f_mant :: "rat \<Rightarrow> int" where
  "f_mant a = round_half_even (a / 2 powi f_exp a)"

definition f_zero :: "bool \<Rightarrow> f64" where
  "f_zero neg = (if neg then NegZero else Num 0)"

definition f_inf :: "bool \<Rightarrow> f64" where
  "f_inf neg = (if neg then NegInf else PosInf)"

definition f_round :: "bool \<Rightarrow> rat \<Rightarrow> f64" where
  "f_round neg a =
     (if a = 0 then f_zero neg
      else let e = f_exp a; m = f_mant a
           in if m = 0 then f_zero neg
              else if 971 < e \<or> e = 971 \<and> 2 ^ 53 \<le> m then f_inf neg
              else Num ((if neg then - 1 else 1) * of_int m * 2 powi e))"

section \<open>Arithmetic\<close>

fun f_neg :: "f64 \<Rightarrow> f64" where
  "f_neg NaN = NaN"
| "f_neg NegInf = PosInf"
| "f_neg PosInf = NegInf"
| "f_neg NegZero = Num 0"
| "f_neg (Num q) = (if q = 0 then NegZero else Num (- q))"

definition f_add :: "f64 \<Rightarrow> f64 \<Rightarrow> f64" where
  "f_add a b =
     (if f_nan a \<or> f_nan b then NaN
      else if f_rank a \<noteq> 0 then (if f_rank b \<noteq> 0 \<and> f_rank a \<noteq> f_rank b then NaN else a)
      else if f_rank b \<noteq> 0 then b
      else let q = f_val a + f_val b
           in if q = 0 then f_zero (a = NegZero \<and> b = NegZero) else f_round (q < 0) \<bar>q\<bar>)"

definition f_sub :: "f64 \<Rightarrow> f64 \<Rightarrow> f64" where
  "f_sub a b = f_add a (f_neg b)"

definition f_is_zero :: "f64 \<Rightarrow> bool" where
  "f_is_zero a \<longleftrightarrow> a = NegZero \<or> a = Num 0"

definition f_mul :: "f64 \<Rightarrow> f64 \<Rightarrow> f64" where
  "f_mul a b =
     (if f_nan a \<or> f_nan b then NaN
      else let s = (f_neg_sign a \<noteq> f_neg_sign b)
           in if f_rank a \<noteq> 0 \<or> f_rank b \<noteq> 0
              then (if f_is_zero a \<or> f_is_zero b then NaN else f_inf s)
              else f_round s \<bar>f_val a * f_val b\<bar>)"

definition f_div :: "f64 \<Rightarrow> f64 \<Rightarrow> f64" where
  "f_div a b =
     (if f_nan a \<or> f_nan b then NaN
      else let s = (f_neg_sign a \<noteq> f_neg_sign b)
           in if f_rank a \<noteq> 0 then (if f_rank b \<noteq> 0 then NaN else f_inf s)
              else if f_rank b \<noteq> 0 then f_zero s
              else if f_is_zero b then (if f_is_zero a then NaN else f_inf s)
              else f_round s \<bar>f_val a / f_val b\<bar>)"

text \<open>\<open>float64(i)\<close> of an integer, and an untyped constant converted to \<open>float64\<close>.\<close>

definition f_int :: "int \<Rightarrow> f64" where
  "f_int i = f_round (i < 0) (of_int \<bar>i\<bar>)"

definition f_const :: "rat \<Rightarrow> f64" where
  "f_const q = f_round (q < 0) \<bar>q\<bar>"

text \<open>\<open>math.Round\<close>: half away from zero.\<close>

fun f_Round :: "f64 \<Rightarrow> f64" where
  "f_Round (Num q) =
     (let m = \<lfloor>\<bar>q\<bar> + 1 / 2\<rfloor>
      in if m = 0 then f_zero (q < 0) else Num ((if q < 0 then - 1 else 1) * of_int m))"
| "f_Round x = x"

text \<open>
  \<open>int64(x)\<close> drops the fraction. When the truncated value does not fit, Go leaves the result
  to the implementation: it is the parameter \<open>oob\<close>.
\<close>

definition f_trunc :: "f64 \<Rightarrow> int" where
  "f_trunc x = (if f_val x < 0 then - \<lfloor>- f_val x\<rfloor> else \<lfloor>f_val x\<rfloor>)"

definition f_to_int64 :: "(f64 \<Rightarrow> int64) \<Rightarrow> f64 \<Rightarrow> int64" where
  "f_to_int64 oob x = (if f_finite x \<and> int64_range (f_trunc x) then of_int (f_trunc x) else oob x)"

section \<open>Facts about the rounding\<close>

lemma blen_nonneg [simp]: "0 \<le> blen n"
  by (induction n rule: blen.induct) (subst blen.simps, auto)

lemma blen_bounds: "0 < n \<Longrightarrow> 2 ^ nat (blen n - 1) \<le> n \<and> n < 2 ^ nat (blen n) \<and> 0 < blen n"
proof (induction n rule: blen.induct)
  case (1 n)
  show ?case
  proof (cases "n = 1")
    case True
    have "blen 1 = 1" by (simp add: blen.simps [of 1] blen.simps [of 0])
    with True show ?thesis by simp
  next
    case False
    with 1 have IH: "2 ^ nat (blen (n div 2) - 1) \<le> n div 2" "n div 2 < 2 ^ nat (blen (n div 2))"
        "0 < blen (n div 2)"
      by auto
    have b: "blen n = 1 + blen (n div 2)"
      using 1 by (subst blen.simps) simp
    have "nat (blen n - 1) = Suc (nat (blen (n div 2) - 1))" "nat (blen n) = Suc (nat (blen (n div 2)))"
      using IH(3) b by auto
    moreover have "2 * (n div 2) \<le> n" "n \<le> 2 * (n div 2) + 1" by presburger+
    ultimately show ?thesis using IH b by (auto simp del: power_Suc simp add: power_Suc)
  qed
qed

lemma powi_mono_rat: "i \<le> j \<Longrightarrow> (2 :: rat) powi i \<le> 2 powi j"
  by (rule power_int_increasing) auto

lemma powi_pos_rat [simp]: "(0 :: rat) < 2 powi i"
  by simp

lemma powi_scale_rat:
  "(2 :: rat) powi (53 + e) = of_int (2 ^ 53) * 2 powi e"
  "(2 :: rat) powi (52 + e) = of_int (2 ^ 52) * 2 powi e"
  by (simp_all add: power_int_add)

lemma powi_nat_rat: "0 \<le> k \<Longrightarrow> (2 :: rat) powi k = of_int (2 ^ nat k)"
  by (simp add: power_int_def)

lemma ilog2_bounds:
  assumes "0 < q"
  shows "2 powi ilog2 q \<le> q" and "q < 2 powi (ilog2 q + 1)"
proof -
  obtain n d where nd: "quotient_of q = (n, d)" by fastforce
  have d: "0 < d" using nd by (rule quotient_of_denom_pos)
  have q: "q = of_int n / of_int d" using nd by (rule quotient_of_div)
  have n: "0 < n" using assms d q by (simp add: zero_less_divide_iff)
  define k where "k = blen n - blen d"
  have bn: "2 ^ nat (blen n - 1) \<le> n" "n < 2 ^ nat (blen n)" "0 < blen n"
    using blen_bounds [OF n] by auto
  have bd: "2 ^ nat (blen d - 1) \<le> d" "d < 2 ^ nat (blen d)" "0 < blen d"
    using blen_bounds [OF d] by auto
  have n1: "2 powi (blen n - 1) \<le> (of_int n :: rat)" "(of_int n :: rat) < 2 powi blen n"
    using bn by (simp_all add: powi_nat_rat del: of_int_power)
  have d1: "2 powi (blen d - 1) \<le> (of_int d :: rat)" "(of_int d :: rat) < 2 powi blen d"
    using bd by (simp_all add: powi_nat_rat del: of_int_power)
  have lo: "2 powi (k - 1) < q"
  proof -
    have "(2 :: rat) powi (k - 1) * of_int d < 2 powi (k - 1) * 2 powi blen d"
      using d1(2) by (intro mult_strict_left_mono) simp_all
    also have "\<dots> = 2 powi (blen n - 1)"
      by (simp add: k_def flip: power_int_add)
    also have "\<dots> \<le> of_int n" by (rule n1(1))
    finally show ?thesis using d by (simp add: q pos_less_divide_eq)
  qed
  have hi: "q < 2 powi (k + 1)"
  proof -
    have "of_int n < (2 :: rat) powi blen n" by (rule n1(2))
    also have "\<dots> = 2 powi (k + 1) * 2 powi (blen d - 1)"
      by (simp add: k_def flip: power_int_add)
    also have "\<dots> \<le> 2 powi (k + 1) * of_int d"
      using d1(1) by simp
    finally show ?thesis using d by (simp add: q pos_divide_less_eq)
  qed
  have il: "ilog2 q = (if 2 powi k \<le> q then k else k - 1)"
    by (simp add: ilog2_def nd k_def Let_def)
  show "2 powi ilog2 q \<le> q" using lo by (auto simp: il)
  show "q < 2 powi (ilog2 q + 1)" using hi by (auto simp: il)
qed

lemma powi_less_rat_iff: "(2 :: rat) powi i < 2 powi j \<longleftrightarrow> i < j"
  by (metis linorder_not_less powi_mono_rat power_int_strict_increasing one_less_numeral_iff
      semiring_norm(76))

lemma ilog2_mono:
  assumes "0 < x" "x \<le> y"
  shows "ilog2 x \<le> ilog2 y"
proof -
  have "2 powi ilog2 x \<le> x" using assms ilog2_bounds by blast
  also have "x \<le> y" by fact
  also have "y < 2 powi (ilog2 y + 1)" using assms ilog2_bounds [of y] by simp
  finally show ?thesis by (simp add: powi_less_rat_iff)
qed

lemma ilog2_unique: "2 powi k \<le> q \<Longrightarrow> q < 2 powi (k + 1) \<Longrightarrow> ilog2 q = k"
proof -
  assume a: "2 powi k \<le> q" "q < 2 powi (k + 1)"
  then have q: "0 < q" using powi_pos_rat [of k] by linarith
  have "2 powi k < (2 :: rat) powi (ilog2 q + 1)" "(2 :: rat) powi ilog2 q < 2 powi (k + 1)"
    using a ilog2_bounds [OF q] by linarith+
  then show ?thesis by (simp add: powi_less_rat_iff)
qed

lemma round_half_even_of_int [simp]: "round_half_even (of_int i) = i"
  by (simp add: round_half_even_def)

lemma round_half_even_near: "\<bar>of_int (round_half_even q) - q\<bar> \<le> 1 / 2"
proof -
  have "of_int \<lfloor>q\<rfloor> \<le> q" "q < of_int \<lfloor>q\<rfloor> + 1" by linarith+
  then show ?thesis by (simp add: round_half_even_def Let_def abs_le_iff)
qed

lemma round_half_even_cases:
  "round_half_even q = \<lfloor>q\<rfloor> \<or> round_half_even q = \<lfloor>q\<rfloor> + 1"
  by (simp add: round_half_even_def Let_def)

lemma round_half_even_mono:
  assumes "x \<le> y"
  shows "round_half_even x \<le> round_half_even y"
proof (cases "\<lfloor>x\<rfloor> = \<lfloor>y\<rfloor>")
  case True
  with assms show ?thesis by (auto simp: round_half_even_def Let_def)
next
  case False
  with assms have "\<lfloor>x\<rfloor> + 1 \<le> \<lfloor>y\<rfloor>"
    by (meson floor_mono linorder_neqE_linordered_idom not_le zless_imp_add1_zle)
  then show ?thesis using round_half_even_cases [of x] round_half_even_cases [of y] by linarith
qed

text \<open>The rounded magnitude is an integer below \<open>2 ^ 53\<close>, or that power itself, scaled.\<close>

definition f_mag :: "rat \<Rightarrow> rat" where
  "f_mag a = of_int (f_mant a) * 2 powi f_exp a"

lemma f_exp_mono: "0 < a \<Longrightarrow> a \<le> b \<Longrightarrow> f_exp a \<le> f_exp b"
  using ilog2_mono [of a b] by (simp add: f_exp_def)

lemma f_mant_nonneg: "0 \<le> a \<Longrightarrow> 0 \<le> f_mant a"
  using round_half_even_mono [of 0 "a / 2 powi f_exp a"] round_half_even_of_int [of 0]
  by (simp add: f_mant_def)

lemma f_mant_upper:
  assumes "0 < a"
  shows "f_mant a \<le> 2 ^ 53"
proof -
  have "a < 2 powi (ilog2 a + 1)" using assms by (rule ilog2_bounds)
  also have "\<dots> \<le> 2 powi (53 + f_exp a)"
    by (rule powi_mono_rat) (simp add: f_exp_def)
  also have "\<dots> = 2 powi 53 * 2 powi f_exp a" by (simp add: power_int_add)
  finally have "a / 2 powi f_exp a \<le> of_int (2 ^ 53)"
    by (simp add: pos_divide_le_eq power_int_def)
  then have "round_half_even (a / 2 powi f_exp a) \<le> round_half_even (of_int (2 ^ 53))"
    by (rule round_half_even_mono)
  then show ?thesis by (simp only: f_mant_def round_half_even_of_int)
qed

lemma f_mant_lower:
  assumes "0 < a" and e: "- 1074 < f_exp a"
  shows "2 ^ 52 \<le> f_mant a"
proof -
  have "ilog2 a = 52 + f_exp a" using e by (simp add: f_exp_def)
  then have "2 powi (52 + f_exp a) \<le> a" using ilog2_bounds(1) [OF assms(1)] by simp
  then have "of_int (2 ^ 52) \<le> a / 2 powi f_exp a"
    by (simp only: pos_le_divide_eq [OF powi_pos_rat] powi_scale_rat)
  then have "round_half_even (of_int (2 ^ 52)) \<le> round_half_even (a / 2 powi f_exp a)"
    by (rule round_half_even_mono)
  then show ?thesis by (simp only: f_mant_def round_half_even_of_int)
qed

lemma f_mag_mono:
  assumes "0 < a" "a \<le> b"
  shows "f_mag a \<le> f_mag b"
proof (cases "f_exp a = f_exp b")
  case True
  have "f_mant a \<le> f_mant b"
    unfolding f_mant_def True using assms(2)
    by (intro round_half_even_mono divide_right_mono) auto
  then show ?thesis by (simp add: f_mag_def True)
next
  case False
  with f_exp_mono [OF assms] have lt: "f_exp a < f_exp b" by simp
  have e: "- 1074 < f_exp b" using lt by (simp add: f_exp_def)
  have b: "0 < b" using assms by simp
  have "f_mag a \<le> of_int (2 ^ 53) * 2 powi f_exp a"
    unfolding f_mag_def using f_mant_upper [OF assms(1)]
    by (intro mult_right_mono) (simp_all del: of_int_power only: of_int_le_iff, simp)
  also have "\<dots> = 2 powi (53 + f_exp a)" by (simp only: powi_scale_rat)
  also have "\<dots> \<le> 2 powi (52 + f_exp b)" using lt by (intro powi_mono_rat) simp
  also have "\<dots> = of_int (2 ^ 52) * 2 powi f_exp b" by (simp only: powi_scale_rat)
  also have "\<dots> \<le> f_mag b"
    unfolding f_mag_def using f_mant_lower [OF b e]
    by (intro mult_right_mono) (simp_all del: of_int_power only: of_int_le_iff, simp)
  finally show ?thesis .
qed

definition f_overflows :: "rat \<Rightarrow> bool" where
  "f_overflows a \<longleftrightarrow> 971 < f_exp a \<or> f_exp a = 971 \<and> 2 ^ 53 \<le> f_mant a"

lemma f_overflows_mono:
  assumes "0 < a" "a \<le> b" "f_overflows a"
  shows "f_overflows b"
proof (cases "f_exp b = f_exp a")
  case True
  have "f_mant a \<le> f_mant b"
    unfolding f_mant_def True using assms(2)
    by (intro round_half_even_mono divide_right_mono) auto
  with assms(3) True show ?thesis by (auto simp: f_overflows_def)
next
  case False
  with f_exp_mono [OF assms(1,2)] assms(3) show ?thesis by (auto simp: f_overflows_def)
qed

lemma f_round_zero [simp]: "f_round neg 0 = f_zero neg"
  by (simp add: f_round_def)

lemma f_round_overflow:
  assumes "0 < a" "f_overflows a"
  shows "f_round neg a = f_inf neg"
proof -
  have "- 1074 < f_exp a" using assms(2) by (auto simp: f_overflows_def)
  then have "f_mant a \<noteq> 0" using f_mant_lower [OF assms(1)] by auto
  then show ?thesis using assms by (auto simp: f_round_def f_overflows_def Let_def)
qed

lemma f_round_val:
  assumes "0 < a" "\<not> f_overflows a"
  shows "f_finite (f_round neg a) \<and> f_val (f_round neg a) = (if neg then - f_mag a else f_mag a)"
  using assms by (auto simp: f_round_def f_overflows_def f_mag_def f_zero_def Let_def)

lemma f_zero_val [simp]: "f_val (f_zero neg) = 0" "f_finite (f_zero neg)"
  by (simp_all add: f_zero_def)

lemma f_mag_nonneg: "0 \<le> a \<Longrightarrow> 0 \<le> f_mag a"
  by (simp add: f_mag_def f_mant_nonneg)

text \<open>Rounding is monotone: the arithmetic never reorders two exact results.\<close>

lemma f_round_mono:
  assumes "0 \<le> a" "a \<le> b"
  shows "f_le (f_round False a) (f_round False b)"
proof (cases "a = 0")
  case True
  show ?thesis
  proof (cases "b = 0 \<or> \<not> f_overflows b")
    case b: True
    have "0 \<le> b" using assms by simp
    with b have "f_finite (f_round False b) \<and> 0 \<le> f_val (f_round False b)"
      using f_round_val [of b False] f_mag_nonneg [of b] by (cases "b = 0") auto
    then show ?thesis using True by (simp add: f_le_finite)
  next
    case False
    with assms True have "f_round False b = PosInf"
      using f_round_overflow [of b False] by (simp add: f_inf_def)
    then show ?thesis using True by (simp add: f_le_def f_lt_def f_zero_def)
  qed
next
  case False
  then have a: "0 < a" and b: "0 < b" using assms by auto
  show ?thesis
  proof (cases "f_overflows b")
    case True
    then have "f_round False b = PosInf" using f_round_overflow [OF b] by (simp add: f_inf_def)
    moreover have "f_round False a = PosInf \<or> f_finite (f_round False a)"
      using f_round_overflow [OF a, of False] f_round_val [OF a, of False] by (auto simp: f_inf_def)
    ultimately show ?thesis
      by (auto simp: f_le_def f_lt_def f_eq_def f_finite_rank f_finite_not_nan)
  next
    case nb: False
    then have "\<not> f_overflows a" using f_overflows_mono [OF a assms(2)] by blast
    then show ?thesis
      using f_round_val [OF a, of False] f_round_val [OF b nb, of False] f_mag_mono [OF a assms(2)]
      by (simp add: f_le_finite)
  qed
qed

text \<open>Integers below \<open>2 ^ 53\<close> are represented exactly, and every \<open>int64\<close> is finite.\<close>

lemma f_mag_exact:
  assumes "0 < i" "i < 2 ^ 53"
  shows "f_mag (of_int i) = of_int i" and "f_exp (of_int i) \<le> 0"
proof -
  let ?a = "of_int i :: rat"
  have a: "0 < ?a" using assms by simp
  have "2 powi ilog2 ?a \<le> ?a" by (rule ilog2_bounds(1) [OF a])
  also have "?a < of_int (2 ^ 53)" using assms(2) by (simp only: of_int_less_iff)
  also have "\<dots> = 2 powi 53" by (simp add: power_int_def)
  finally have "ilog2 ?a < 53" by (simp only: powi_less_rat_iff)
  then show e: "f_exp ?a \<le> 0" by (simp add: f_exp_def)
  have "?a / 2 powi f_exp ?a = of_int (i * 2 ^ nat (- f_exp ?a))"
    using e by (cases "f_exp ?a = 0") (simp_all add: power_int_def field_simps)
  then have "f_mant ?a = i * 2 ^ nat (- f_exp ?a)"
    by (simp only: f_mant_def round_half_even_of_int)
  then show "f_mag ?a = ?a"
    using e by (cases "f_exp ?a = 0") (simp_all add: f_mag_def power_int_def flip: power_mult_distrib)
qed

lemma f_int_exact:
  assumes "\<bar>i\<bar> < 2 ^ 53"
  shows "f_int i = Num (of_int i)"
proof (cases "i = 0")
  case True
  then show ?thesis by (simp add: f_int_def f_zero_def)
next
  case False
  have "0 < \<bar>i\<bar>" using False by simp
  note ex = f_mag_exact [OF this assms]
  have "f_mant (of_int \<bar>i\<bar>) \<noteq> 0"
    using ex(1) False by (auto simp: f_mag_def)
  then show ?thesis
    using ex False by (auto simp: f_int_def f_round_def Let_def f_mag_def)
qed

lemma ilog2_int64_range:
  assumes "0 < i" "i \<le> 2 ^ 64"
  shows "ilog2 (of_int i) \<le> 64"
proof -
  let ?a = "of_int i :: rat"
  have a: "0 < ?a" using assms by simp
  have "2 powi ilog2 ?a \<le> ?a" by (rule ilog2_bounds(1) [OF a])
  also have "?a \<le> of_int (2 ^ 64)" using assms(2) by (simp only: of_int_le_iff)
  also have "\<dots> = 2 powi 64" by (simp add: power_int_def)
  also have "\<dots> < 2 powi 65" by (simp only: powi_less_rat_iff)
  finally have "ilog2 ?a < 65" by (simp only: powi_less_rat_iff)
  then show ?thesis by simp
qed

lemma not_overflows_int64:
  assumes "0 < i" "i \<le> 2 ^ 64"
  shows "\<not> f_overflows (of_int i)"
proof -
  have "f_exp (of_int i) \<le> 12" using ilog2_int64_range [OF assms] by (simp add: f_exp_def)
  then show ?thesis by (auto simp: f_overflows_def)
qed

lemma f_int_finite: "\<bar>i\<bar> \<le> 2 ^ 64 \<Longrightarrow> f_finite (f_int i)"
  by (cases "i = 0")
    (simp_all add: f_int_def f_round_val not_overflows_int64 flip: of_int_abs)

lemma f_int_val:
  assumes "\<bar>i\<bar> \<le> 2 ^ 64"
  shows "f_val (f_int i) = (if i = 0 then 0 else if i < 0 then - f_mag (of_int \<bar>i\<bar>) else f_mag (of_int \<bar>i\<bar>))"
  using assms f_round_val [of "of_int \<bar>i\<bar>" "i < 0"] not_overflows_int64 [of "\<bar>i\<bar>"]
  by (auto simp: f_int_def)

lemma f_int_mono:
  assumes "\<bar>i\<bar> \<le> 2 ^ 64" "\<bar>j\<bar> \<le> 2 ^ 64" "i \<le> j"
  shows "f_le (f_int i) (f_int j)"
proof -
  have "f_val (f_int i) \<le> f_val (f_int j)"
    using assms(3) f_mag_nonneg [of "of_int \<bar>i\<bar>"] f_mag_nonneg [of "of_int \<bar>j\<bar>"]
      f_mag_mono [of "of_int \<bar>i\<bar>" "of_int \<bar>j\<bar>"] f_mag_mono [of "of_int \<bar>j\<bar>" "of_int \<bar>i\<bar>"]
    by (auto simp: f_int_val [OF assms(1)] f_int_val [OF assms(2)] abs_if)
  then show ?thesis
    using f_int_finite [OF assms(1)] f_int_finite [OF assms(2)] by (simp add: f_le_finite)
qed

section \<open>Bounds on the arithmetic\<close>

definition f_upto :: "rat \<Rightarrow> f64 \<Rightarrow> bool" where
  "f_upto hi x \<longleftrightarrow> f_finite x \<and> 0 \<le> f_val x \<and> f_val x \<le> hi"

lemma f_round_upto:
  assumes "0 \<le> a" "a \<le> b" "f_round False b = Num q" "neg \<Longrightarrow> a = 0"
  shows "f_upto q (f_round neg a)"
proof (cases "a = 0")
  case True
  have "f_le (f_round False 0) (Num q)" using f_round_mono [of 0 b] assms by simp
  then show ?thesis using True by (simp add: f_upto_def f_le_finite)
next
  case False
  then have a: "0 < a" and neg: "\<not> neg" using assms by auto
  have le: "f_le (f_round False a) (Num q)" using f_round_mono [OF assms(1,2)] assms(3) by simp
  then have "\<not> f_overflows a"
    using f_round_overflow [OF a, of False] by (auto simp: f_inf_def f_le_def f_lt_def f_eq_def)
  then show ?thesis
    using f_round_val [OF a, of False] le neg f_mag_nonneg [OF assms(1)] by (simp add: f_upto_def f_le_finite)
qed

lemma f_upto_sign: "f_upto hi x \<Longrightarrow> f_neg_sign x \<Longrightarrow> f_val x = 0"
  by (cases x) (auto simp: f_upto_def)

lemma f_upto_mul:
  assumes "f_upto p a" "f_upto q b" "f_round False (p * q) = Num r"
  shows "f_upto r (f_mul a b)"
proof -
  have fin: "\<not> f_nan a" "\<not> f_nan b" "f_rank a = 0" "f_rank b = 0"
    using assms(1,2) by (auto simp: f_upto_def f_finite_not_nan f_finite_rank)
  have val: "0 \<le> f_val a * f_val b" "f_val a * f_val b \<le> p * q"
    using assms(1,2) by (auto simp: f_upto_def intro: mult_mono)
  show ?thesis
    using f_round_upto [OF val assms(3), of "f_neg_sign a \<noteq> f_neg_sign b"] fin val(1)
      f_upto_sign [OF assms(1)] f_upto_sign [OF assms(2)]
    by (auto simp: f_mul_def Let_def)
qed

lemma f_upto_div:
  assumes "f_upto p a" "0 < q" "f_round False (p / q) = Num r"
  shows "f_upto r (f_div a (Num q))"
proof -
  have fin: "\<not> f_nan a" "f_rank a = 0"
    using assms(1) by (auto simp: f_upto_def f_finite_not_nan f_finite_rank)
  have val: "0 \<le> f_val a / q" "f_val a / q \<le> p / q"
    using assms(1,2) by (auto simp: f_upto_def divide_right_mono)
  show ?thesis
    using f_round_upto [OF val assms(3), of "f_neg_sign a"] fin val(1) assms(2)
      f_upto_sign [OF assms(1)]
    by (auto simp: f_div_def f_is_zero_def Let_def zero_le_divide_iff)
qed

lemma f_upto_Round: "f_upto (of_int n) x \<Longrightarrow> f_upto (of_int n) (f_Round x) \<and> f_val (f_Round x) \<in> \<int>"
proof (cases x)
  case (Num v)
  assume u: "f_upto (of_int n) x"
  then have v: "0 \<le> v" "v \<le> of_int n" using Num by (auto simp: f_upto_def)
  have "0 \<le> \<lfloor>v + 1 / 2\<rfloor>" "\<lfloor>v + 1 / 2\<rfloor> \<le> n" using v by linarith+
  then show ?thesis using v by (auto simp: Num f_upto_def Let_def f_zero_def)
qed (auto simp: f_upto_def)

lemma f_upto_to_int64:
  assumes "f_upto (of_int n) x" "n < 2 ^ 63"
  shows "0 \<le> sint (f_to_int64 oob x) \<and> sint (f_to_int64 oob x) \<le> n"
proof -
  have t: "f_trunc x = \<lfloor>f_val x\<rfloor>" using assms(1) by (auto simp: f_upto_def f_trunc_def)
  then have b: "0 \<le> f_trunc x" "f_trunc x \<le> n" using assms(1) by (auto simp: f_upto_def floor_le_iff)
  then have "int64_range (f_trunc x)" using assms(2) by (simp add: int64_range_def)
  then show ?thesis
    using b assms(1) by (auto simp: f_to_int64_def sint_of_int64 f_upto_def)
qed

end
