(* ===== verification/GoRuntime.thy ===== *)
theory GoRuntime
  imports GoFloat
begin

text \<open>
  The parts of Go's standard library the program's logic leans on: error values, formatted
  messages, instants of time, JSON documents and the two byte encodings (hex and base32).
  A Go \<open>string\<close> and a \<open>[]byte\<close> are both byte sequences, here \<^typ>\<open>string\<close>.
\<close>

section \<open>Messages and errors\<close>

text \<open>
  A formatted message is kept as its format and its arguments. An error is a value of one of
  the dynamic types the program creates: \<open>errors.New\<close> and \<open>fmt.Errorf\<close> without \<open>%w\<close>
  (\<open>Errorf\<close>), \<open>fmt.Errorf\<close> with \<open>%w\<close> (\<open>Wrapf\<close>), the two error structs of the custody
  ledger, the three of the Bolt client, and an error handed over by code outside the program
  (\<open>External\<close>). A sentinel such as \<open>ports.ErrNotFound\<close> is the \<open>Errorf\<close> value with its
  message; the program's sentinels all have different messages.
\<close>

datatype fmtarg = FStr string | FInt int | FUuid uuid | FDuration int64 | FFloat f64

datatype goerror =
    Errorf string "fmtarg list"
  | Wrapf string "fmtarg list" goerror
  | ChainBrokenError nat string
  | TamperedError nat uuid
  | TransportError goerror
  | HttpError int string
  | WrappedErr goerror string
  | External string

definition errors_New :: "string \<Rightarrow> goerror" where
  "errors_New msg = Errorf msg []"

text \<open>\<open>errors.Is\<close>: the error or one it wraps is the target.\<close>

fun errors_Is :: "goerror \<Rightarrow> goerror \<Rightarrow> bool" where
  "errors_Is (Wrapf f as e) t = (Wrapf f as e = t \<or> errors_Is e t)"
| "errors_Is (TransportError e) t = (TransportError e = t \<or> errors_Is e t)"
| "errors_Is (WrappedErr e m) t = (WrappedErr e m = t \<or> errors_Is e t)"
| "errors_Is e t = (e = t)"

lemma errors_Is_refl [simp]: "errors_Is e e"
  by (cases e) simp_all

lemma errors_New_eq [error_simps]: "errors_New a = errors_New b \<longleftrightarrow> a = b"
  by (simp add: errors_New_def)

section \<open>Time\<close>

text \<open>
  A \<open>time.Time\<close> is an instant, in nanoseconds since the Unix epoch, and the offset in
  seconds of the zone it is shown in. The zero time is midnight of 1 January of year 1, UTC.
\<close>

record gotime =
  t_ns :: int
  t_off :: int

definition time_zero :: gotime where
  "time_zero = \<lparr>t_ns = - 62135596800000000000, t_off = 0\<rparr>"

definition time_IsZero :: "gotime \<Rightarrow> bool" where
  "time_IsZero t \<longleftrightarrow> t_ns t = - 62135596800000000000"

definition time_Before :: "gotime \<Rightarrow> gotime \<Rightarrow> bool" where
  "time_Before a b \<longleftrightarrow> t_ns a < t_ns b"

definition time_UTC :: "gotime \<Rightarrow> gotime" where
  "time_UTC t = t\<lparr>t_off := 0\<rparr>"

definition time_UnixMilli :: "gotime \<Rightarrow> int" where
  "time_UnixMilli t = t_ns t div 1000000"

definition time_secs :: "gotime \<Rightarrow> int" where
  "time_secs t = t_ns t div 1000000000 + t_off t"

definition time_Hour :: "gotime \<Rightarrow> int" where
  "time_Hour t = (time_secs t mod 86400) div 3600"

text \<open>
  The Gregorian year of a day counted from 1 January 1970: days are counted from 1 March of
  year 0 in eras of 400 years, so that the leap day is the last day of its year.
\<close>

definition civil_year :: "int \<Rightarrow> int" where
  "civil_year days =
     (let z = days + 719468;
          era = z div 146097;
          doe = z mod 146097;
          yoe = (doe - doe div 1460 + doe div 36524 - doe div 146096) div 365;
          doy = doe - (365 * yoe + yoe div 4 - yoe div 100);
          mp = (5 * doy + 2) div 153
      in yoe + era * 400 + (if mp < 10 then 0 else 1))"

definition time_Year :: "gotime \<Rightarrow> int" where
  "time_Year t = civil_year (time_secs t div 86400)"

lemma time_UTC_simps [simp]:
  "t_ns (time_UTC t) = t_ns t" "t_off (time_UTC t) = 0"
  by (simp_all add: time_UTC_def)

lemma time_Hour_bounds: "0 \<le> time_Hour t \<and> time_Hour t < 24"
  by (auto simp: time_Hour_def)

section \<open>JSON values\<close>

text \<open>What \<open>map[string]any\<close> and \<open>json.RawMessage\<close> hold.\<close>

datatype json =
    JNull
  | JBool bool
  | JNum f64
  | JStr string
  | JArr "json list"
  | JObj "(string \<times> json) list"

section \<open>Hexadecimal and base32\<close>

definition hex_digit :: "nat \<Rightarrow> char" where
  "hex_digit n = (if n < 10 then char_of (48 + n) else char_of (87 + n))"

fun hex_EncodeToString :: "string \<Rightarrow> string" where
  "hex_EncodeToString [] = []"
| "hex_EncodeToString (c # cs) =
     hex_digit (of_char c div 16) # hex_digit (of_char c mod 16) # hex_EncodeToString cs"

definition base32_digit :: "nat \<Rightarrow> char" where
  "base32_digit n = (if n < 26 then char_of (65 + n) else char_of (24 + n))"

text \<open>
  \<open>base32.StdEncoding\<close> of a full group of five bytes: eight digits of five bits, most
  significant first, no padding.
\<close>

definition base32_group :: "byte list \<Rightarrow> string" where
  "base32_group bs =
     (let n = foldl (\<lambda>a b. a * 256 + unat b) 0 bs
      in map (\<lambda>i. base32_digit (n div 32 ^ (7 - i) mod 32)) [0..<8])"

text \<open>The same on integers, which evaluate in binary.\<close>

lemma nat_div_mod: "nat (int m div int k mod int l) = m div k mod l"
  by (metis nat_int zdiv_int zmod_int)

lemma int_foldl_256: "int (foldl (\<lambda>a b. a * 256 + unat b) n bs) = foldl (\<lambda>a b. a * 256 + uint b) (int n) (bs :: byte list)"
  by (induction bs arbitrary: n) simp_all

lemma base32_group_code [code]:
  "base32_group bs =
     (let n = foldl (\<lambda>a b. a * 256 + uint b) 0 bs
      in map (\<lambda>i. base32_digit (nat (n div 32 ^ (7 - i) mod 32))) [0..<8])"
  using int_foldl_256 [of 0 bs] nat_div_mod [of _ "32 ^ k" 32 for k]
  by (simp add: base32_group_def Let_def flip: int_foldl_256 [of 0, simplified])

text \<open>\<open>strings.TrimRight(s, "=")\<close>.\<close>

definition trim_right_eq :: "string \<Rightarrow> string" where
  "trim_right_eq s = rev (dropWhile (\<lambda>c. c = CHR ''='') (rev s))"

text \<open>Decimal digits, as \<open>%d\<close> prints them.\<close>

fun dec_digits :: "nat \<Rightarrow> string" where
  "dec_digits n = (if n < 10 then [char_of (48 + n)] else dec_digits (n div 10) @ [char_of (48 + n mod 10)])"

declare dec_digits.simps [simp del]

definition fmt_d :: "int \<Rightarrow> string" where
  "fmt_d i = (if i < 0 then CHR ''-'' # dec_digits (nat (- i)) else dec_digits (nat i))"

lemma length_hex_EncodeToString [simp]: "length (hex_EncodeToString s) = 2 * length s"
  by (induction s) auto

lemma of_char_lt: "(of_char c :: nat) < 256"
  by (metis mod_less_divisor of_char_mod_256 zero_less_numeral)

lemma of_char_of_small: "n < 256 \<Longrightarrow> (of_char (char_of n) :: nat) = n"
  by (simp add: take_bit_nat_eq_self)

lemma hex_digit_code: "n < 16 \<Longrightarrow> (of_char (hex_digit n) :: nat) = (if n < 10 then 48 + n else 87 + n)"
  by (simp add: hex_digit_def of_char_of_small del: of_char_of)

lemma base32_digit_code: "n < 32 \<Longrightarrow> (of_char (base32_digit n) :: nat) = (if n < 26 then 65 + n else 24 + n)"
  by (simp add: base32_digit_def of_char_of_small del: of_char_of)

lemma hex_digit_inj:
  assumes "m < 16" "n < 16" "hex_digit m = hex_digit n"
  shows "m = n"
  using arg_cong [OF assms(3), of "of_char :: char \<Rightarrow> nat"] assms(1,2)
  by (auto simp: hex_digit_code split: if_splits)

lemma of_char_div_16: "(of_char c :: nat) div 16 < 16"
  using of_char_lt [of c] by (simp add: less_mult_imp_div_less)

lemma hex_EncodeToString_inj: "hex_EncodeToString a = hex_EncodeToString b \<Longrightarrow> a = b"
proof (induction a arbitrary: b)
  case Nil
  then show ?case by (cases b) auto
next
  case (Cons x xs)
  then obtain y ys where b: "b = y # ys" by (cases b) auto
  from Cons.prems b have d: "(of_char x :: nat) div 16 = of_char y div 16"
      "(of_char x :: nat) mod 16 = of_char y mod 16"
    by (auto dest!: hex_digit_inj [OF of_char_div_16 of_char_div_16] hex_digit_inj [rotated 2])
  then have "(of_char x :: nat) = of_char y"
    by (metis div_mult_mod_eq)
  with Cons b show ?case by simp
qed

lemma hex_digit_range: "n < 16 \<Longrightarrow> of_char (hex_digit n) \<in> {48..<58} \<union> {97..<103 :: nat}"
  by (auto simp: hex_digit_code)

lemma hex_EncodeToString_chars:
  "c \<in> set (hex_EncodeToString s) \<Longrightarrow> of_char c \<in> {48..<58} \<union> {97..<103 :: nat}"
proof (induction s)
  case (Cons x xs)
  from Cons.prems consider "c = hex_digit (of_char x div 16)" | "c = hex_digit (of_char x mod 16)"
    | "c \<in> set (hex_EncodeToString xs)" by auto
  then show ?case
    by cases (use Cons.IH hex_digit_range [OF of_char_div_16] hex_digit_range [of "of_char x mod 16"] in auto)
qed simp

lemma base32_digit_range:
  "n < 32 \<Longrightarrow> of_char (base32_digit n) \<in> {65..<91} \<union> {50..<56 :: nat}"
  by (auto simp: base32_digit_code)

lemma length_base32_group [simp]: "length (base32_group bs) = 8"
  by (simp add: base32_group_def Let_def)

lemma base32_group_chars:
  "c \<in> set (base32_group bs) \<Longrightarrow> of_char c \<in> {65..<91} \<union> {50..<56 :: nat}"
proof -
  assume "c \<in> set (base32_group bs)"
  then obtain n where "c = base32_digit (n mod 32)"
    by (auto simp: base32_group_def Let_def)
  then show ?thesis using base32_digit_range [of "n mod 32"] by simp
qed

lemma trim_right_eq_id: "CHR ''='' \<notin> set s \<Longrightarrow> trim_right_eq s = s"
  by (cases "rev s") (auto simp: trim_right_eq_def)

end
