(* ===== verification/Delivery.thy ===== *)
theory Delivery
  imports GoRuntime "HOL-Library.Sublist"
begin

text \<open>
  \<open>internal/core/delivery\<close>: one carrier moving one parcel over one leg. The record is the
  \<open>Delivery\<close> struct, \<^term>\<open>allowedTransitions\<close> the state graph of \<open>state.go\<close>, and the
  operations are the methods of \<open>delivery.go\<close>. A method that mutates its receiver returns
  the new record, and returns an error where the Go method leaves the receiver untouched.
  Every reading of the clock is an argument.
\<close>

section \<open>Data\<close>

text \<open>
  \<open>type State string\<close>: the ten declared states and, since any string inhabits the Go type,
  a constructor for the other strings.
\<close>

datatype dstate =
    StatePending
  | StateAssigned
  | StateEnRoutePickup
  | StatePickedUp
  | StateInTransit
  | StateEnRouteDrop
  | StateDelivered
  | StateFailed
  | StateCancelled
  | StateReturnedToOrigin
  | StateOther string

fun state_string :: "dstate \<Rightarrow> string" where
  "state_string StatePending = ''pending''"
| "state_string StateAssigned = ''assigned''"
| "state_string StateEnRoutePickup = ''en_route_pickup''"
| "state_string StatePickedUp = ''picked_up''"
| "state_string StateInTransit = ''in_transit''"
| "state_string StateEnRouteDrop = ''en_route_drop''"
| "state_string StateDelivered = ''delivered''"
| "state_string StateFailed = ''failed''"
| "state_string StateCancelled = ''cancelled''"
| "state_string StateReturnedToOrigin = ''returned_to_origin''"
| "state_string (StateOther s) = s"

datatype location_type = LocationAddress | LocationLocker | LocationHub | LocationOther string

fun declared_location :: "location_type \<Rightarrow> bool" where
  "declared_location (LocationOther _) = False"
| "declared_location _ = True"

record location =
  l_Type :: location_type
  l_Lat :: f64
  l_Lng :: f64
  l_Address :: string
  l_LockerID :: string
  l_HubID :: string
  l_Floor :: string
  l_Apartment :: string
  l_Instructions :: string

record rider =
  r_ID :: string
  r_Name :: string
  r_Phone :: string
  r_Vehicle :: string

record delivery =
  d_ID :: uuid
  d_AWBID :: uuid
  d_LegNumber :: int
  d_CarrierID :: string
  d_CarrierVersion :: string
  d_CarrierExternalID :: string
  d_Pickup :: location
  d_Drop :: location
  d_ScheduledWindowStart :: "gotime option"
  d_ScheduledWindowEnd :: "gotime option"
  d_State :: dstate
  d_StateReason :: string
  d_Rider :: "rider option"
  d_PriceQuotedMinor :: int64
  d_PriceChargedMinor :: int64
  d_PriceCurrency :: string
  d_EstimatedPickupAt :: "gotime option"
  d_EstimatedDropAt :: "gotime option"
  d_ActualPickupAt :: "gotime option"
  d_ActualDropAt :: "gotime option"
  d_IdempotencyKey :: string
  d_Metadata :: "(string \<times> json) list option"
  d_CreatedAt :: gotime
  d_UpdatedAt :: gotime

section \<open>The state graph\<close>

text \<open>
  The outer map's value for a state: the inner map, as the list of the states it maps to
  \<open>true\<close>, or \<open>None\<close> for a state that is not a key.
\<close>

fun allowedTransitions :: "dstate \<Rightarrow> dstate list option" where
  "allowedTransitions StatePending = Some [StateAssigned, StateCancelled]"
| "allowedTransitions StateAssigned = Some [StateEnRoutePickup, StateCancelled, StateFailed]"
| "allowedTransitions StateEnRoutePickup = Some [StatePickedUp, StateFailed, StateCancelled]"
| "allowedTransitions StatePickedUp =
     Some [StateInTransit, StateEnRouteDrop, StateFailed, StateReturnedToOrigin]"
| "allowedTransitions StateInTransit =
     Some [StateEnRouteDrop, StateFailed, StateReturnedToOrigin, StateDelivered]"
| "allowedTransitions StateEnRouteDrop = Some [StateDelivered, StateFailed, StateReturnedToOrigin]"
| "allowedTransitions StateFailed = Some [StateReturnedToOrigin, StateAssigned]"
| "allowedTransitions StateDelivered = Some []"
| "allowedTransitions StateCancelled = Some []"
| "allowedTransitions StateReturnedToOrigin = Some []"
| "allowedTransitions (StateOther _) = None"

definition IsTerminal :: "dstate \<Rightarrow> bool" where
  "IsTerminal s \<longleftrightarrow> s = StateDelivered \<or> s = StateCancelled \<or> s = StateReturnedToOrigin"

definition state_edge :: "dstate \<Rightarrow> dstate \<Rightarrow> bool" where
  "state_edge s to \<longleftrightarrow> (case allowedTransitions s of None \<Rightarrow> False | Some allowed \<Rightarrow> to \<in> set allowed)"

definition canTransitionTo :: "delivery \<Rightarrow> dstate \<Rightarrow> bool" where
  "canTransitionTo d to =
     (case allowedTransitions (d_State d) of None \<Rightarrow> False | Some allowed \<Rightarrow> to \<in> set allowed)"

section \<open>Operations\<close>

definition Transition :: "gotime \<Rightarrow> delivery \<Rightarrow> dstate \<Rightarrow> string \<Rightarrow> goerror + delivery" where
  "Transition now d to reason =
     (if \<not> canTransitionTo d to
      then Inl (Errorf ''delivery: invalid transition %s -> %s''
                  [FStr (state_string (d_State d)), FStr (state_string to)])
      else Inr (d\<lparr>d_State := to, d_StateReason := reason, d_UpdatedAt := time_UTC now\<rparr>))"

definition delivery_New ::
  "uuid \<Rightarrow> gotime \<Rightarrow> uuid \<Rightarrow> int \<Rightarrow> string \<Rightarrow> string \<Rightarrow> location \<Rightarrow> location \<Rightarrow> goerror + delivery" where
  "delivery_New newID now awbID leg carrierID version pickup dropLoc =
     (if leg < 1 then Inl (errors_New ''delivery: leg must be >= 1'')
      else if carrierID = [] \<or> version = []
      then Inl (errors_New ''delivery: carrier ID and version required'')
      else Inr \<lparr>d_ID = newID, d_AWBID = awbID, d_LegNumber = leg, d_CarrierID = carrierID,
                d_CarrierVersion = version, d_CarrierExternalID = [], d_Pickup = pickup, d_Drop = dropLoc,
                d_ScheduledWindowStart = None, d_ScheduledWindowEnd = None,
                d_State = StatePending, d_StateReason = [], d_Rider = None,
                d_PriceQuotedMinor = 0, d_PriceChargedMinor = 0, d_PriceCurrency = ''RON'',
                d_EstimatedPickupAt = None, d_EstimatedDropAt = None,
                d_ActualPickupAt = None, d_ActualDropAt = None,
                d_IdempotencyKey = [], d_Metadata = None,
                d_CreatedAt = time_UTC now, d_UpdatedAt = time_UTC now\<rparr>)"

text \<open>\<open>Schedule\<close> reads the clock twice: for the check and for the update.\<close>

definition Schedule :: "gotime \<Rightarrow> gotime \<Rightarrow> delivery \<Rightarrow> gotime \<Rightarrow> gotime \<Rightarrow> goerror + delivery" where
  "Schedule now1 now2 d start fin =
     (if \<not> time_Before start fin then Inl (errors_New ''delivery: schedule end must be after start'')
      else if time_Before start (time_UTC now1)
      then Inl (errors_New ''delivery: schedule cannot be in the past'')
      else Inr (d\<lparr>d_ScheduledWindowStart := Some start, d_ScheduledWindowEnd := Some fin,
                  d_UpdatedAt := time_UTC now2\<rparr>))"

definition AssignRider :: "gotime \<Rightarrow> delivery \<Rightarrow> rider \<Rightarrow> goerror + delivery" where
  "AssignRider now d r =
     (case Transition now d StateAssigned [] of
        Inl err \<Rightarrow> Inl err
      | Inr d' \<Rightarrow> Inr (d'\<lparr>d_Rider := Some r\<rparr>))"

definition MarkPickedUp :: "gotime \<Rightarrow> delivery \<Rightarrow> gotime \<Rightarrow> goerror + delivery" where
  "MarkPickedUp now d when =
     (case Transition now d StatePickedUp [] of
        Inl err \<Rightarrow> Inl err
      | Inr d' \<Rightarrow> Inr (d'\<lparr>d_ActualPickupAt := Some when\<rparr>))"

definition MarkDelivered :: "gotime \<Rightarrow> delivery \<Rightarrow> gotime \<Rightarrow> goerror + delivery" where
  "MarkDelivered now d when =
     (case Transition now d StateDelivered [] of
        Inl err \<Rightarrow> Inl err
      | Inr d' \<Rightarrow> Inr (d'\<lparr>d_ActualDropAt := Some when\<rparr>))"

definition MarkFailed :: "gotime \<Rightarrow> delivery \<Rightarrow> string \<Rightarrow> goerror + delivery" where
  "MarkFailed now d reason = Transition now d StateFailed reason"

definition Cancel :: "gotime \<Rightarrow> delivery \<Rightarrow> string \<Rightarrow> goerror + delivery" where
  "Cancel now d reason =
     (if d_State d = StatePickedUp \<or> d_State d = StateInTransit \<or>
         d_State d = StateEnRouteDrop \<or> d_State d = StateDelivered
      then Inl (Errorf ''delivery: cannot cancel from state %s'' [FStr (state_string (d_State d))])
      else Transition now d StateCancelled reason)"

section \<open>Facts about the graph\<close>

fun declared_state :: "dstate \<Rightarrow> bool" where
  "declared_state (StateOther _) = False"
| "declared_state _ = True"

lemma canTransitionTo_edge: "canTransitionTo d to \<longleftrightarrow> state_edge (d_State d) to"
  by (simp add: canTransitionTo_def state_edge_def)

lemma state_edge_simps [simp]:
  "state_edge StatePending t \<longleftrightarrow> t \<in> {StateAssigned, StateCancelled}"
  "state_edge StateAssigned t \<longleftrightarrow> t \<in> {StateEnRoutePickup, StateCancelled, StateFailed}"
  "state_edge StateEnRoutePickup t \<longleftrightarrow> t \<in> {StatePickedUp, StateFailed, StateCancelled}"
  "state_edge StatePickedUp t \<longleftrightarrow>
     t \<in> {StateInTransit, StateEnRouteDrop, StateFailed, StateReturnedToOrigin}"
  "state_edge StateInTransit t \<longleftrightarrow>
     t \<in> {StateEnRouteDrop, StateFailed, StateReturnedToOrigin, StateDelivered}"
  "state_edge StateEnRouteDrop t \<longleftrightarrow> t \<in> {StateDelivered, StateFailed, StateReturnedToOrigin}"
  "state_edge StateFailed t \<longleftrightarrow> t \<in> {StateReturnedToOrigin, StateAssigned}"
  "\<not> state_edge StateDelivered t" "\<not> state_edge StateCancelled t"
  "\<not> state_edge StateReturnedToOrigin t" "\<not> state_edge (StateOther s) t"
  by (auto simp: state_edge_def)

lemma state_edge_declared: "state_edge s t \<Longrightarrow> declared_state s \<and> declared_state t"
  by (cases s) auto

lemma Transition_cases:
  "Transition now d to reason = Inr d' \<longleftrightarrow>
     state_edge (d_State d) to \<and>
     d' = d\<lparr>d_State := to, d_StateReason := reason, d_UpdatedAt := time_UTC now\<rparr>"
  by (auto simp: Transition_def canTransitionTo_edge)

lemma Transition_is_ok: "is_ok (Transition now d to reason) \<longleftrightarrow> state_edge (d_State d) to"
  by (simp add: Transition_def canTransitionTo_edge)

lemmas delivery_op_defs =
  AssignRider_def MarkPickedUp_def MarkDelivered_def MarkFailed_def Cancel_def Schedule_def

lemma MarkPickedUp_cases:
  "MarkPickedUp now d t = Inr d' \<longleftrightarrow>
     state_edge (d_State d) StatePickedUp \<and>
     d' = d\<lparr>d_State := StatePickedUp, d_StateReason := [], d_UpdatedAt := time_UTC now,
            d_ActualPickupAt := Some t\<rparr>"
  by (auto simp: MarkPickedUp_def Transition_cases split: sum.splits)
     (auto simp: Transition_def canTransitionTo_edge split: if_splits)

lemma MarkDelivered_cases:
  "MarkDelivered now d t = Inr d' \<longleftrightarrow>
     state_edge (d_State d) StateDelivered \<and>
     d' = d\<lparr>d_State := StateDelivered, d_StateReason := [], d_UpdatedAt := time_UTC now,
            d_ActualDropAt := Some t\<rparr>"
  by (auto simp: MarkDelivered_def Transition_cases split: sum.splits)
     (auto simp: Transition_def canTransitionTo_edge split: if_splits)

lemma AssignRider_cases:
  "AssignRider now d r = Inr d' \<longleftrightarrow>
     state_edge (d_State d) StateAssigned \<and>
     d' = d\<lparr>d_State := StateAssigned, d_StateReason := [], d_UpdatedAt := time_UTC now,
            d_Rider := Some r\<rparr>"
  by (auto simp: AssignRider_def Transition_cases split: sum.splits)
     (auto simp: Transition_def canTransitionTo_edge split: if_splits)

text \<open>
  A path through the graph, from its first state: each state of the list is entered by an
  allowed transition. \<open>runs\<close> is what a sequence of calls of \<open>Transition\<close> does.
\<close>

fun state_path :: "dstate \<Rightarrow> dstate list \<Rightarrow> bool" where
  "state_path s [] \<longleftrightarrow> True"
| "state_path s (t # ts) \<longleftrightarrow> state_edge s t \<and> state_path t ts"

fun Transitions :: "delivery \<Rightarrow> (gotime \<times> dstate \<times> string) list \<Rightarrow> goerror + delivery" where
  "Transitions d [] = Inr d"
| "Transitions d ((now, to, reason) # cs) =
     (case Transition now d to reason of Inl err \<Rightarrow> Inl err | Inr d' \<Rightarrow> Transitions d' cs)"

lemma Transitions_path:
  "is_ok (Transitions d cs) \<longleftrightarrow> state_path (d_State d) (map (fst \<circ> snd) cs)"
proof (induction cs arbitrary: d)
  case (Cons c cs)
  obtain now to reason where c: "c = (now, to, reason)" by (cases c) auto
  show ?case
  proof (cases "state_edge (d_State d) to")
    case True
    then have "Transition now d to reason =
        Inr (d\<lparr>d_State := to, d_StateReason := reason, d_UpdatedAt := time_UTC now\<rparr>)"
      by (simp add: Transition_cases)
    with Cons True show ?thesis by (simp add: c)
  next
    case False
    then show ?thesis by (auto simp: c Transition_def canTransitionTo_edge)
  qed
qed simp

lemma Transitions_last:
  "Transitions d cs = Inr d' \<Longrightarrow> d_State d' = last (d_State d # map (fst \<circ> snd) cs)"
proof (induction cs arbitrary: d)
  case (Cons c cs)
  obtain now to reason where c: "c = (now, to, reason)" by (cases c) auto
  from Cons.prems obtain d1 where d1: "Transition now d to reason = Inr d1" "Transitions d1 cs = Inr d'"
    by (auto simp: c split: sum.splits)
  then show ?case using Cons.IH [OF d1(2)] by (auto simp: c Transition_cases)
qed simp

text \<open>The only way into a state, used to trace a path backwards.\<close>

lemma state_edge_into:
  "state_edge s StatePickedUp \<longleftrightarrow> s = StateEnRoutePickup"
  "state_edge s StateEnRoutePickup \<longleftrightarrow> s = StateAssigned"
  "state_edge s StateAssigned \<longleftrightarrow> s \<in> {StatePending, StateFailed}"
  "state_edge s StateDelivered \<longleftrightarrow> s \<in> {StateInTransit, StateEnRouteDrop}"
  "state_edge s StateInTransit \<longleftrightarrow> s = StatePickedUp"
  "state_edge s StateEnRouteDrop \<longleftrightarrow> s \<in> {StatePickedUp, StateInTransit}"
  "\<not> state_edge s StatePending"
  by (cases s; simp)+

section \<open>Properties\<close>

text \<open>What still has to be passed on the way to \<open>delivered\<close>.\<close>

fun milestones :: "dstate \<Rightarrow> dstate list" where
  "milestones StateAssigned = [StateEnRoutePickup, StatePickedUp, StateDelivered]"
| "milestones StateEnRoutePickup = [StatePickedUp, StateDelivered]"
| "milestones StateDelivered = []"
| "milestones StatePickedUp = [StateDelivered]"
| "milestones StateInTransit = [StateDelivered]"
| "milestones StateEnRouteDrop = [StateDelivered]"
| "milestones _ = [StateAssigned, StateEnRoutePickup, StatePickedUp, StateDelivered]"

lemma milestones_edge: "state_edge s t \<Longrightarrow> subseq (milestones s) (t # milestones t)"
  by (cases s) auto

lemma milestones_step:
  assumes "state_edge s t" "subseq (milestones t) ts"
  shows "subseq (milestones s) (t # ts)"
  using milestones_edge [OF assms(1)] assms(2)
  by (meson subseq_Cons2 subseq_order.order_trans)

lemma milestones_path:
  "state_path s ts \<Longrightarrow> last (s # ts) = StateDelivered \<Longrightarrow> subseq (milestones s) ts"
proof (induction ts arbitrary: s)
  case (Cons t ts)
  then show ?case using milestones_step by auto
qed auto

text \<open>
  C38: Any sequence of transitions from pending to delivered passes through assigned,
  en_route_pickup and picked_up, in that order.
\<close>

theorem delivered_only_after_pickup:
  assumes "Transitions d cs = Inr d'" "d_State d = StatePending" "d_State d' = StateDelivered"
  shows "subseq [StateAssigned, StateEnRoutePickup, StatePickedUp, StateDelivered]
           (map (fst \<circ> snd) cs)"
proof -
  have "is_ok (Transitions d cs)" using assms(1) by simp
  then have "state_path (d_State d) (map (fst \<circ> snd) cs)" by (simp only: Transitions_path)
  moreover have "last (d_State d # map (fst \<circ> snd) cs) = StateDelivered"
    using Transitions_last [OF assms(1)] assms(3) by simp
  ultimately show ?thesis using milestones_path assms(2) by fastforce
qed

fun completion :: "dstate \<Rightarrow> dstate list" where
  "completion StatePending = [StateAssigned, StateEnRoutePickup, StatePickedUp, StateInTransit, StateDelivered]"
| "completion StateAssigned = [StateEnRoutePickup, StatePickedUp, StateInTransit, StateDelivered]"
| "completion StateEnRoutePickup = [StatePickedUp, StateInTransit, StateDelivered]"
| "completion StatePickedUp = [StateInTransit, StateDelivered]"
| "completion StateFailed = [StateAssigned, StateEnRoutePickup, StatePickedUp, StateInTransit, StateDelivered]"
| "completion _ = [StateDelivered]"

theorem no_dead_end:
  assumes "declared_state (d_State d)" "\<not> IsTerminal (d_State d)"
  shows "\<exists>cs d'. Transitions d cs = Inr d' \<and> d_State d' = StateDelivered"
proof -
  let ?cs = "map (\<lambda>s. (time_zero, s, [])) (completion (d_State d))"
  have path: "state_path (d_State d) (completion (d_State d))"
      "last (d_State d # completion (d_State d)) = StateDelivered"
    using assms by (cases "d_State d"; simp add: IsTerminal_def)+
  then have "is_ok (Transitions d ?cs)"
    by (simp add: Transitions_path comp_def)
  then obtain d' where d': "Transitions d ?cs = Inr d'"
    by (cases "Transitions d ?cs") auto
  then have "d_State d' = StateDelivered"
    using Transitions_last [OF d'] path(2) by (simp add: comp_def)
  with d' show ?thesis by blast
qed

theorem terminal_iff_stuck:
  assumes "declared_state (d_State d)"
  shows "IsTerminal (d_State d) \<longleftrightarrow> (\<forall>now to reason. \<not> is_ok (Transition now d to reason))"
  using assms by (cases "d_State d") (auto simp: IsTerminal_def Transition_is_ok)

theorem Cancel_spec:
  "Cancel now d reason =
     (if d_State d \<in> {StatePending, StateAssigned, StateEnRoutePickup}
      then Inr (d\<lparr>d_State := StateCancelled, d_StateReason := reason, d_UpdatedAt := time_UTC now\<rparr>)
      else if d_State d \<in> {StatePickedUp, StateInTransit, StateEnRouteDrop, StateDelivered}
      then Inl (Errorf ''delivery: cannot cancel from state %s'' [FStr (state_string (d_State d))])
      else Inl (Errorf ''delivery: invalid transition %s -> %s''
                 [FStr (state_string (d_State d)), FStr ''cancelled'']))"
  by (cases "d_State d") (simp_all add: Cancel_def Transition_def canTransitionTo_edge)

theorem cancel_possible_after_pickup:
  assumes "d_State d = StateEnRoutePickup"
  shows "\<exists>d1 d2 d3 d4.
           MarkPickedUp now d t = Inr d1 \<and> MarkFailed now d1 why = Inr d2 \<and>
           Transition now d2 StateAssigned [] = Inr d3 \<and> Cancel now d3 reason = Inr d4 \<and>
           d_State d4 = StateCancelled \<and> d_ActualPickupAt d4 = Some t"
  using assms
  by (simp add: MarkPickedUp_def MarkFailed_def Cancel_def Transition_def canTransitionTo_edge)

end
