(* ===== verification/Awb.thy ===== *)
theory Awb
  imports GoRuntime
begin

text \<open>
  \<open>internal/core/awb\<close>: the parcel and the carriers' tracking numbers bound to it. The record
  is the \<open>AWB\<close> struct; the operations are the constructor and the methods of \<open>awb.go\<close>.
  \<open>rand.Read\<close>, \<open>uuid.New\<close> and \<open>time.Now\<close> are arguments.
\<close>

section \<open>Data\<close>

datatype awb_role = AwbRoleFirstMile | AwbRoleMidMile | AwbRoleLastMile | AwbRoleOther string

record external_ref =
  x_Carrier :: string
  x_AWB :: string
  x_Role :: awb_role

record awb_package =
  p_WeightKg :: f64
  p_LengthCm :: f64
  p_WidthCm :: f64
  p_HeightCm :: f64
  p_DeclaredValueMinor :: int64
  p_DeclaredValueCcy :: string
  p_Description :: string
  p_Fragile :: bool

datatype awb_state =
    AwbCreated
  | AwbAtLocker
  | AwbScheduled
  | AwbDispatched
  | AwbInTransit
  | AwbDelivered
  | AwbFailed
  | AwbCancelled
  | AwbReturned
  | AwbStateOther string

fun awb_state_string :: "awb_state \<Rightarrow> string" where
  "awb_state_string AwbCreated = ''created''"
| "awb_state_string AwbAtLocker = ''at_locker''"
| "awb_state_string AwbScheduled = ''scheduled''"
| "awb_state_string AwbDispatched = ''dispatched''"
| "awb_state_string AwbInTransit = ''in_transit''"
| "awb_state_string AwbDelivered = ''delivered''"
| "awb_state_string AwbFailed = ''failed''"
| "awb_state_string AwbCancelled = ''cancelled''"
| "awb_state_string AwbReturned = ''returned''"
| "awb_state_string (AwbStateOther s) = s"

fun declared_awb_state :: "awb_state \<Rightarrow> bool" where
  "declared_awb_state (AwbStateOther _) = False"
| "declared_awb_state _ = True"

record awb =
  a_ID :: uuid
  a_InternalAWB :: string
  a_RetailerID :: uuid
  a_CustomerID :: "uuid option"
  a_ExternalAWBs :: "external_ref list"
  a_Package :: awb_package
  a_State :: awb_state
  a_StateReason :: string
  a_CreatedAt :: gotime
  a_UpdatedAt :: gotime

definition ErrPackageTooHeavy :: goerror where
  "ErrPackageTooHeavy = errors_New ''awb: package weight exceeds limit (50kg)''"

definition ErrPackageZero :: goerror where
  "ErrPackageZero = errors_New ''awb: package weight must be > 0''"

definition ErrPackageDimension :: goerror where
  "ErrPackageDimension = errors_New ''awb: package dimension exceeds limit (100cm)''"

section \<open>Operations\<close>

definition validatePackage :: "awb_package \<Rightarrow> goerror option" where
  "validatePackage p =
     (if f_le (p_WeightKg p) (f_int 0) then Some ErrPackageZero
      else if f_lt (f_int 50) (p_WeightKg p) then Some ErrPackageTooHeavy
      else if \<exists>d \<in> set [p_LengthCm p, p_WidthCm p, p_HeightCm p]. f_lt (f_int 100) d
      then Some ErrPackageDimension
      else None)"

text \<open>\<open>rand.Read\<close> fills five bytes or fails.\<close>

definition generateInternalAWB :: "goerror + byte list \<Rightarrow> gotime \<Rightarrow> goerror + string" where
  "generateInternalAWB rand t =
     (case rand of
        Inl err \<Rightarrow> Inl err
      | Inr b \<Rightarrow> Inr (''DF-'' @ fmt_d (time_Year t) @ ''-'' @ trim_right_eq (base32_group b)))"

definition awb_New ::
  "gotime \<Rightarrow> goerror + byte list \<Rightarrow> uuid \<Rightarrow> uuid \<Rightarrow> awb_package \<Rightarrow> goerror + awb" where
  "awb_New now rand newID retailerID pkg =
     (case validatePackage pkg of
        Some err \<Rightarrow> Inl err
      | None \<Rightarrow>
          (case generateInternalAWB rand (time_UTC now) of
             Inl err \<Rightarrow> Inl err
           | Inr internal \<Rightarrow>
               Inr \<lparr>a_ID = newID, a_InternalAWB = internal, a_RetailerID = retailerID,
                    a_CustomerID = None, a_ExternalAWBs = [], a_Package = pkg,
                    a_State = AwbCreated, a_StateReason = [],
                    a_CreatedAt = time_UTC now, a_UpdatedAt = time_UTC now\<rparr>))"

definition AttachExternal :: "gotime \<Rightarrow> awb \<Rightarrow> string \<Rightarrow> string \<Rightarrow> awb_role \<Rightarrow> awb" where
  "AttachExternal now a carrier externalAWB role =
     (if \<exists>ref \<in> set (a_ExternalAWBs a). x_Carrier ref = carrier \<and> x_AWB ref = externalAWB then a
      else a\<lparr>a_ExternalAWBs := a_ExternalAWBs a @
               [\<lparr>x_Carrier = carrier, x_AWB = externalAWB, x_Role = role\<rparr>],
             a_UpdatedAt := time_UTC now\<rparr>)"

definition FindExternal :: "awb \<Rightarrow> string \<Rightarrow> external_ref option" where
  "FindExternal a carrier = List.find (\<lambda>ref. x_Carrier ref = carrier) (a_ExternalAWBs a)"

text \<open>
  The two-level map of the state graph, as the list of the states mapped to \<open>true\<close>; a state
  that is not a key has the nil map, which maps every state to \<open>false\<close>.
\<close>

fun awb_allowedTransitions :: "awb_state \<Rightarrow> awb_state list" where
  "awb_allowedTransitions AwbCreated = [AwbAtLocker, AwbDispatched, AwbCancelled]"
| "awb_allowedTransitions AwbAtLocker = [AwbScheduled, AwbCancelled, AwbReturned]"
| "awb_allowedTransitions AwbScheduled = [AwbDispatched, AwbCancelled, AwbAtLocker]"
| "awb_allowedTransitions AwbDispatched = [AwbInTransit, AwbFailed, AwbCancelled]"
| "awb_allowedTransitions AwbInTransit = [AwbDelivered, AwbFailed]"
| "awb_allowedTransitions AwbFailed = [AwbReturned, AwbDispatched, AwbCancelled]"
| "awb_allowedTransitions AwbDelivered = []"
| "awb_allowedTransitions AwbCancelled = []"
| "awb_allowedTransitions AwbReturned = [AwbScheduled, AwbCancelled]"
| "awb_allowedTransitions (AwbStateOther _) = []"

definition awb_Transition :: "gotime \<Rightarrow> awb \<Rightarrow> awb_state \<Rightarrow> string \<Rightarrow> goerror + awb" where
  "awb_Transition now a to reason =
     (if to \<notin> set (awb_allowedTransitions (a_State a))
      then Inl (Errorf ''awb: invalid transition %s -> %s''
                  [FStr (awb_state_string (a_State a)), FStr (awb_state_string to)])
      else Inr (a\<lparr>a_State := to, a_StateReason := reason, a_UpdatedAt := time_UTC now\<rparr>))"

section \<open>Lemmas\<close>

lemma f_int_small [simp]: "f_int 0 = Num 0" "f_int 50 = Num 50" "f_int 100 = Num 100"
  by (simp_all add: f_int_exact)

lemma validatePackage_finite:
  assumes "f_finite (p_WeightKg p)" "f_finite (p_LengthCm p)" "f_finite (p_WidthCm p)"
    "f_finite (p_HeightCm p)"
  shows "validatePackage p = None \<longleftrightarrow>
     0 < f_val (p_WeightKg p) \<and> f_val (p_WeightKg p) \<le> 50 \<and>
     f_val (p_LengthCm p) \<le> 100 \<and> f_val (p_WidthCm p) \<le> 100 \<and> f_val (p_HeightCm p) \<le> 100"
  using assms by (auto simp: validatePackage_def f_le_finite f_lt_finite)

definition awb_tracking :: "awb \<Rightarrow> (string \<times> string) list" where
  "awb_tracking a = map (\<lambda>r. (x_Carrier r, x_AWB r)) (a_ExternalAWBs a)"

lemma awb_tracking_attach:
  "awb_tracking (AttachExternal now a c x r) =
     (if (c, x) \<in> set (awb_tracking a) then awb_tracking a else awb_tracking a @ [(c, x)])"
  by (force simp: AttachExternal_def awb_tracking_def)

lemma awb_Transition_cases:
  "awb_Transition now a to reason = Inr a' \<longleftrightarrow>
     to \<in> set (awb_allowedTransitions (a_State a)) \<and>
     a' = a\<lparr>a_State := to, a_StateReason := reason, a_UpdatedAt := time_UTC now\<rparr>"
  by (auto simp: awb_Transition_def)

lemma awb_New_cases:
  "awb_New now rand newID retailerID pkg = Inr a \<Longrightarrow>
     a_ID a = newID \<and> a_RetailerID a = retailerID \<and> a_Package a = pkg \<and> a_State a = AwbCreated \<and>
     a_ExternalAWBs a = [] \<and> validatePackage pkg = None \<and>
     generateInternalAWB rand (time_UTC now) = Inr (a_InternalAWB a)"
  by (auto simp: awb_New_def split: option.splits sum.splits)

section \<open>Properties\<close>

lemma AttachExternal_idempotent:
  "AttachExternal now2 (AttachExternal now1 a c x r) c x r' = AttachExternal now1 a c x r"
  by (auto simp: AttachExternal_def)

theorem AttachExternal_distinct:
  assumes "distinct (awb_tracking a)"
  shows "distinct (awb_tracking (AttachExternal now a c x r)) \<and>
    set (awb_tracking (AttachExternal now a c x r)) = insert (c, x) (set (awb_tracking a))"
  using assms by (auto simp: awb_tracking_attach)

lemma FindExternal_after_attach:
  "FindExternal (AttachExternal now a c x r) c =
     (case FindExternal a c of Some ref \<Rightarrow> Some ref
      | None \<Rightarrow> Some \<lparr>x_Carrier = c, x_AWB = x, x_Role = r\<rparr>)"
proof (cases "FindExternal a c")
  case None
  then have "\<forall>ref \<in> set (a_ExternalAWBs a). x_Carrier ref \<noteq> c"
    by (auto simp: FindExternal_def dest: find_NoneD)
  then show ?thesis
    using None by (auto simp: AttachExternal_def FindExternal_def find_snoc)
next
  case (Some ref)
  then show ?thesis by (auto simp: AttachExternal_def FindExternal_def find_snoc)
qed

lemma base32_group_no_padding: "CHR ''='' \<notin> set (base32_group bs)"
  using base32_group_chars [of "CHR ''=''" bs] by auto

lemma base32_digit_inj:
  assumes "m < 32" "n < 32" "base32_digit m = base32_digit n"
  shows "m = n"
  using arg_cong [OF assms(3), of "of_char :: char \<Rightarrow> nat"] assms(1,2)
  by (auto simp: base32_digit_code split: if_splits)

lemma digits32_inj:
  "\<forall>k<m. n div 32 ^ k mod 32 = n' div 32 ^ k mod (32 :: nat) \<Longrightarrow> n mod 32 ^ m = n' mod 32 ^ m"
proof (induction m)
  case (Suc m)
  have "n mod 32 ^ m = n' mod 32 ^ m" using Suc by simp
  moreover have "n div 32 ^ m mod 32 = n' div 32 ^ m mod 32" using Suc.prems by simp
  ultimately show ?case
    using mod_mult2_eq [of n "32 ^ m" 32] mod_mult2_eq [of n' "32 ^ m" 32]
    by (simp add: mult.commute)
qed simp

lemma bytes_value_inj:
  "length a = length b \<Longrightarrow>
   foldl (\<lambda>n (b :: byte). n * 256 + unat b) x a = foldl (\<lambda>n b. n * 256 + unat b) y b \<Longrightarrow> x = y \<and> a = b"
proof (induction a b arbitrary: x y rule: list_induct2)
  case (Cons p ps q qs)
  then have e: "x * 256 + unat p = y * 256 + unat q" "ps = qs" by auto
  have "unat p < 256" "unat q < 256" using unsigned_less [of p] unsigned_less [of q] by simp_all
  with e(1) have "x = y" by linarith
  with e have "x = y" "p = q" by (simp_all add: word_unat_eq_iff)
  with e show ?case by simp
qed simp

lemma bytes_value_bound: "foldl (\<lambda>n (b :: byte). n * 256 + unat b) x bs < (x + 1) * 256 ^ length bs"
proof (induction bs arbitrary: x)
  case (Cons b bs)
  have "unat b < 256" using unsigned_less [of b] by simp
  then have "x * 256 + unat b + 1 \<le> (x + 1) * 256" by simp
  then have "(x * 256 + unat b + 1) * 256 ^ length bs \<le> (x + 1) * 256 * 256 ^ length bs"
    by (rule mult_right_mono) simp
  then have "(x * 256 + unat b + 1) * 256 ^ length bs \<le> (x + 1) * 256 ^ length (b # bs)"
    by (simp only: length_Cons power_Suc mult.assoc)
  with Cons.IH [of "x * 256 + unat b"] show ?case by (simp only: foldl_Cons)
qed simp

lemma base32_group_inj:
  assumes "length a = 5" "length b = 5" "base32_group a = base32_group b"
  shows "a = b"
proof -
  define n where "n = foldl (\<lambda>a b. a * 256 + unat b) 0 a"
  define n' where "n' = foldl (\<lambda>a b. a * 256 + unat b) 0 b"
  have same: "n div 32 ^ (7 - i) mod 32 = n' div 32 ^ (7 - i) mod 32" if "i < 8" for i
  proof (rule base32_digit_inj)
    have "base32_group a ! i = base32_group b ! i" by (simp only: assms(3))
    with that show "base32_digit (n div 32 ^ (7 - i) mod 32) = base32_digit (n' div 32 ^ (7 - i) mod 32)"
      by (simp add: base32_group_def Let_def n_def n'_def del: upt_Suc)
  qed simp_all
  then have "\<forall>k<8. n div 32 ^ k mod 32 = n' div 32 ^ k mod 32"
  proof (intro allI impI)
    fix k :: nat
    assume "k < 8"
    then have "7 - k < 8" "7 - (7 - k) = k" by auto
    with same show "n div 32 ^ k mod 32 = n' div 32 ^ k mod 32" by metis
  qed
  then have "n mod 32 ^ 8 = n' mod 32 ^ 8" by (rule digits32_inj)
  moreover have "n < 32 ^ 8" "n' < 32 ^ 8"
    using bytes_value_bound [of 0 a] bytes_value_bound [of 0 b] assms(1,2)
    by (simp_all add: n_def n'_def)
  ultimately have "n = n'" by simp
  then show ?thesis using bytes_value_inj [of a b 0 0] assms(1,2) by (simp add: n_def n'_def)
qed

lemma generateInternalAWB_format:
  "generateInternalAWB (Inr b) t = Inr s \<Longrightarrow>
     s = ''DF-'' @ fmt_d (time_Year t) @ ''-'' @ base32_group b \<and>
     length (base32_group b) = 8 \<and>
     (\<forall>c \<in> set (base32_group b). of_char c \<in> {65..<91} \<union> {50..<56 :: nat})"
  using base32_group_chars
  by (auto simp: generateInternalAWB_def trim_right_eq_id base32_group_no_padding)

theorem generateInternalAWB_inj:
  assumes "length a = 5" "length b = 5"
    and "generateInternalAWB (Inr a) t = generateInternalAWB (Inr b) t"
  shows "a = b"
  using assms
  by (auto simp: generateInternalAWB_def trim_right_eq_id base32_group_no_padding
      intro: base32_group_inj)

end
