(* ===== verification/Ports.thy ===== *)
theory Ports
  imports Delivery Awb
begin

text \<open>
  \<open>internal/ports\<close> and \<open>internal/core/retailer\<close>: the carrier interface with its data, the
  domain events, the retailer, and the repository and event-bus interfaces. An interface is a
  record of functions. The functions of a carrier that reach its remote API take and return a
  state \<open>'w\<close> of the outside world; the functions of a repository take the storage state, and
  those that write return the new one.
\<close>

section \<open>Errors\<close>

definition ErrNotFound :: goerror where
  "ErrNotFound = errors_New ''not found''"

definition ErrInvalidRequest :: goerror where
  "ErrInvalidRequest = errors_New ''carrier: invalid request''"

definition ErrInvalidSignature :: goerror where
  "ErrInvalidSignature = errors_New ''carrier: invalid webhook signature''"

definition ErrCarrierUnavailable :: goerror where
  "ErrCarrierUnavailable = errors_New ''carrier: unavailable''"

section \<open>Carrier capabilities\<close>

type_synonym carrier_id = string

datatype carrier_role = RoleFirstMile | RoleMidMile | RoleLastMile | RoleOther string

datatype delivery_mode = DeliveryInstant | DeliveryScheduled | DeliveryModeOther string

datatype pickup_mode = PickupAddress | PickupLocker | PickupHub | PickupOther string

datatype proof_type = ProofPhoto | ProofGPS | ProofSignature | ProofOther string

datatype auth_scheme = AuthBearerToken | AuthAPIKey | AuthOAuth2 | AuthHMAC | AuthOther string

record sla =
  sl_AvgPickupTime :: int64
  sl_AvgDeliveryTime :: int64
  sl_MaxDelay :: int64

record rate_limit =
  rl_Requests :: int64
  rl_PerSecond :: f64

record geo_zone =
  z_Name :: string
  z_Coordinates :: "f64 list list"

record capabilities =
  c_ID :: carrier_id
  c_Name :: string
  c_Roles :: "carrier_role list"
  c_MaxWeightKg :: f64
  c_MaxDimensionsCm :: "f64 \<times> f64 \<times> f64"
  c_Zones :: "geo_zone list"
  c_DeliveryModes :: "delivery_mode list"
  c_PickupModes :: "pickup_mode list"
  c_POD :: "proof_type list"
  c_SLA :: sla
  c_SupportsLocker :: bool
  c_AuthScheme :: auth_scheme
  c_APIRateLimit :: rate_limit
  c_Quirks :: "string list"

section \<open>Shipments\<close>

record money =
  mo_Currency :: string
  mo_Minor :: int64

record geo_point =
  g_Lat :: f64
  g_Lng :: f64
  g_AccuracyM :: f64

record address =
  ad_Street :: string
  ad_City :: string
  ad_PostalCode :: string
  ad_Country :: string
  ad_Floor :: string
  ad_Apartment :: string
  ad_Instructions :: string

definition address_zero :: address where
  "address_zero = \<lparr>ad_Street = [], ad_City = [], ad_PostalCode = [], ad_Country = [],
                   ad_Floor = [], ad_Apartment = [], ad_Instructions = []\<rparr>"

record port_location =
  pl_Type :: pickup_mode
  pl_Point :: geo_point
  pl_Address :: address
  pl_LockerID :: string
  pl_HubID :: string

record port_package =
  pp_WeightKg :: f64
  pp_LengthCm :: f64
  pp_WidthCm :: f64
  pp_HeightCm :: f64
  pp_DeclaredValueMinor :: int64
  pp_DeclaredValueCcy :: string
  pp_Description :: string
  pp_Fragile :: bool

record recipient =
  rc_Name :: string
  rc_Phone :: string
  rc_Email :: string

record shipment_request =
  sr_InternalAWB :: string
  sr_IdempotencyKey :: string
  sr_Pickup :: port_location
  sr_Drop :: port_location
  sr_Package :: port_package
  sr_Recipient :: recipient
  sr_ScheduledStart :: "gotime option"
  sr_ScheduledEnd :: "gotime option"
  sr_Notes :: string
  sr_RequirePhotoPOD :: bool

datatype shipment_state =
    ShipmentUnknown
  | ShipmentPending
  | ShipmentAssigned
  | ShipmentRiderEnRouteToPickup
  | ShipmentPickedUp
  | ShipmentInTransit
  | ShipmentRiderEnRouteToDrop
  | ShipmentDelivered
  | ShipmentFailed
  | ShipmentCancelled
  | ShipmentReturnedToOrigin
  | ShipmentOther string

record shipment_response =
  sp_ExternalID :: string
  sp_State :: shipment_state
  sp_EstimatedCost :: money
  sp_EstimatedPickupAt :: "gotime option"
  sp_EstimatedDropAt :: "gotime option"
  sp_TrackingURL :: string

record port_rider =
  pr_ID :: string
  pr_Name :: string
  pr_Phone :: string
  pr_Vehicle :: string

record shipment_status =
  ss_ExternalID :: string
  ss_State :: shipment_state
  ss_Rider :: "port_rider option"
  ss_LastLocation :: "geo_point option"
  ss_LastUpdatedAt :: gotime

record estimate_request =
  eq_Pickup :: port_location
  eq_Drop :: port_location
  eq_Package :: port_package
  eq_When :: "gotime option"

record estimate =
  es_Cost :: money
  es_EstimatedETA :: int64
  es_WindowStartAt :: "gotime option"
  es_WindowEndAt :: "gotime option"
  es_ConfidenceScore :: f64

section \<open>Domain events\<close>

record base_event =
  b_Type :: string
  b_Time :: gotime
  b_ExtID :: string
  b_CarrierID :: carrier_id

datatype domain_event =
    RiderAssignedEvent base_event port_rider
  | RiderArrivedAtPickupEvent base_event "geo_point option" string
  | PackagePickedUpEvent base_event "geo_point option" string
  | RiderInTransitEvent base_event "geo_point option"
  | RiderArrivedAtDestinationEvent base_event "geo_point option"
  | PackageDeliveredEvent base_event "geo_point option" string string
  | DeliveryFailedEvent base_event string "geo_point option" string
  | ShipmentCancelledEvent base_event string
  | PackageReturnedToLockerEvent base_event "geo_point option" string string

fun event_base :: "domain_event \<Rightarrow> base_event" where
  "event_base (RiderAssignedEvent b _) = b"
| "event_base (RiderArrivedAtPickupEvent b _ _) = b"
| "event_base (PackagePickedUpEvent b _ _) = b"
| "event_base (RiderInTransitEvent b _) = b"
| "event_base (RiderArrivedAtDestinationEvent b _) = b"
| "event_base (PackageDeliveredEvent b _ _ _) = b"
| "event_base (DeliveryFailedEvent b _ _ _) = b"
| "event_base (ShipmentCancelledEvent b _) = b"
| "event_base (PackageReturnedToLockerEvent b _ _ _) = b"

definition ev_EventType :: "domain_event \<Rightarrow> string" where
  "ev_EventType ev = b_Type (event_base ev)"

definition ev_OccurredAt :: "domain_event \<Rightarrow> gotime" where
  "ev_OccurredAt ev = b_Time (event_base ev)"

definition ev_ExternalID :: "domain_event \<Rightarrow> string" where
  "ev_ExternalID ev = b_ExtID (event_base ev)"

section \<open>Interfaces\<close>

text \<open>HTTP headers as \<open>map[string]string\<close>: distinct keys, in the order \<open>range\<close> visits them.\<close>

type_synonym headers = "(string \<times> string) list"

record 'w carrier_port =
  cp_Capabilities :: capabilities
  cp_CreateShipment :: "shipment_request \<Rightarrow> 'w \<Rightarrow> (goerror + shipment_response) \<times> 'w"
  cp_GetShipmentStatus :: "string \<Rightarrow> 'w \<Rightarrow> (goerror + shipment_status) \<times> 'w"
  cp_CancelShipment :: "string \<Rightarrow> string \<Rightarrow> 'w \<Rightarrow> goerror option \<times> 'w"
  cp_GetEstimate :: "estimate_request \<Rightarrow> 'w \<Rightarrow> (goerror + estimate) \<times> 'w"
  cp_ParseWebhook :: "string \<Rightarrow> headers \<Rightarrow> goerror + domain_event list"

record 's awb_repo =
  ar_Save :: "awb \<Rightarrow> 's \<Rightarrow> goerror option \<times> 's"
  ar_GetByID :: "uuid \<Rightarrow> 's \<Rightarrow> goerror + awb"
  ar_GetByInternalAWB :: "string \<Rightarrow> 's \<Rightarrow> goerror + awb"

record 's delivery_repo =
  dr_Save :: "delivery \<Rightarrow> 's \<Rightarrow> goerror option \<times> 's"
  dr_GetByID :: "uuid \<Rightarrow> 's \<Rightarrow> goerror + delivery"
  dr_GetByCarrierExternalID :: "string \<Rightarrow> string \<Rightarrow> 's \<Rightarrow> goerror + delivery"
  dr_ListByAWB :: "uuid \<Rightarrow> 's \<Rightarrow> goerror + delivery list"
  dr_ListByState :: "dstate \<Rightarrow> int \<Rightarrow> 's \<Rightarrow> goerror + delivery list"

record routing_decision_record =
  rd_Strategy :: string
  rd_ChosenID :: string
  rd_Score :: f64
  rd_Reasoning :: string
  rd_Candidates :: string

record 's routing_repo =
  rr_Save :: "uuid \<Rightarrow> routing_decision_record \<Rightarrow> 's \<Rightarrow> goerror option \<times> 's"

record 's event_bus =
  eb_Publish :: "domain_event list \<Rightarrow> 's \<Rightarrow> goerror option \<times> 's"

record retailer =
  re_ID :: uuid
  re_Name :: string
  re_Slug :: string
  re_IsActive :: bool

record 's retailer_repo =
  rt_GetByAPIKeyHash :: "string \<Rightarrow> 's \<Rightarrow> goerror + retailer"

section \<open>The contracts of the two aggregate stores\<close>

text \<open>
  \<open>awbs s\<close> and \<open>dels s\<close> are the stored aggregates by identifier. A save that reports no error
  stores the aggregate under its identifier, up to what the storage rounds or sets itself (the
  times, the number format), a save that fails changes nothing, a lookup returns what is stored
  under the key it was asked for, and \<open>ErrNotFound\<close> means there is nothing. A save is asked of the
  aggregates the services build: in a declared state, a parcel with a reason for it, a delivery that
  keeps the parcel and the idempotency key of its earlier saves.
\<close>

definition awb_storable :: "awb \<Rightarrow> bool" where
  "awb_storable a \<longleftrightarrow> declared_awb_state (a_State a) \<and> a_StateReason a \<noteq> []"

definition same_awb :: "awb \<Rightarrow> awb \<Rightarrow> bool" where
  "same_awb a a' \<longleftrightarrow> a_ID a' = a_ID a \<and> a_State a' = a_State a \<and>
     validatePackage (a_Package a') = validatePackage (a_Package a)"

definition delivery_storable :: "(uuid \<rightharpoonup> delivery) \<Rightarrow> delivery \<Rightarrow> bool" where
  "delivery_storable m d \<longleftrightarrow> declared_state (d_State d) \<and> declared_location (l_Type (d_Pickup d)) \<and>
     (\<forall>d0. m (d_ID d) = Some d0 \<longrightarrow> d_AWBID d = d_AWBID d0 \<and> d_IdempotencyKey d = d_IdempotencyKey d0)"

definition same_delivery :: "delivery \<Rightarrow> delivery \<Rightarrow> bool" where
  "same_delivery d d' \<longleftrightarrow> d_ID d' = d_ID d \<and> d_AWBID d' = d_AWBID d \<and>
     d_IdempotencyKey d' = d_IdempotencyKey d \<and> d_State d' = d_State d \<and> d_CarrierID d' = d_CarrierID d \<and>
     d_CarrierExternalID d' = d_CarrierExternalID d \<and> l_Type (d_Pickup d') = l_Type (d_Pickup d)"

lemma same_awb_refl [simp]: "same_awb a a"
  by (simp add: same_awb_def)

lemma same_delivery_refl [simp]: "same_delivery d d"
  by (simp add: same_delivery_def)

locale awb_store =
  fixes awb_rp :: "'s awb_repo"
    and awbs :: "'s \<Rightarrow> uuid \<rightharpoonup> awb"
    and ainv :: "'s \<Rightarrow> bool"
  assumes awb_save_ok: "ainv s \<Longrightarrow> awb_storable a \<Longrightarrow> ar_Save awb_rp a s = (None, s') \<Longrightarrow>
      \<exists>a'. same_awb a a' \<and> awbs s' = (awbs s)(a_ID a \<mapsto> a')"
    and awb_save_err: "ainv s \<Longrightarrow> ar_Save awb_rp a s = (Some err, s') \<Longrightarrow> awbs s' = awbs s"
    and awb_save_inv: "ainv s \<Longrightarrow> ar_Save awb_rp a s = (r, s') \<Longrightarrow> ainv s'"
    and awb_get: "ainv s \<Longrightarrow> ar_GetByID awb_rp i s = Inr a \<Longrightarrow> awbs s i = Some a \<and> a_ID a = i"
    and awb_miss: "ainv s \<Longrightarrow> ar_GetByID awb_rp i s = Inl ErrNotFound \<Longrightarrow> awbs s i = None"

locale delivery_store =
  fixes del_rp :: "'s delivery_repo"
    and dels :: "'s \<Rightarrow> uuid \<rightharpoonup> delivery"
    and dinv :: "'s \<Rightarrow> bool"
  assumes del_save_ok: "dinv s \<Longrightarrow> delivery_storable (dels s) d \<Longrightarrow> dr_Save del_rp d s = (None, s') \<Longrightarrow>
      \<exists>d'. same_delivery d d' \<and> dels s' = (dels s)(d_ID d \<mapsto> d')"
    and del_save_err: "dinv s \<Longrightarrow> dr_Save del_rp d s = (Some err, s') \<Longrightarrow> dels s' = dels s"
    and del_save_inv: "dinv s \<Longrightarrow> dr_Save del_rp d s = (r, s') \<Longrightarrow> dinv s'"
    and del_get: "dinv s \<Longrightarrow> dr_GetByID del_rp i s = Inr d \<Longrightarrow> dels s i = Some d \<and> d_ID d = i"
    and del_miss: "dinv s \<Longrightarrow> dr_GetByID del_rp i s = Inl ErrNotFound \<Longrightarrow> dels s i = None"
    and del_ext: "dinv s \<Longrightarrow> dr_GetByCarrierExternalID del_rp c x s = Inr d \<Longrightarrow>
      dels s (d_ID d) = Some d \<and> d_CarrierID d = c \<and> d_CarrierExternalID d = x"
    and del_list: "dinv s \<Longrightarrow> declared_state st \<Longrightarrow> dr_ListByState del_rp st n s = Inr ds \<Longrightarrow> d \<in> set ds \<Longrightarrow>
      dels s (d_ID d) = Some d \<and> d_State d = st"
begin

lemma save_get:
  assumes "dinv s" "delivery_storable (dels s) d" "dr_Save del_rp d s = (None, s')"
    "dr_GetByID del_rp (d_ID d) s' = Inr d'"
  shows "same_delivery d d'"
proof -
  have "dels s' (d_ID d) = Some d'" using del_get [OF del_save_inv [OF assms(1,3)] assms(4)] ..
  moreover obtain d1 where "same_delivery d d1" "dels s' = (dels s)(d_ID d \<mapsto> d1)"
    using del_save_ok [OF assms(1-3)] by blast
  ultimately show ?thesis by simp
qed

end

end
