(* ===== verification/Custody.thy ===== *)
theory Custody
  imports GoRuntime
begin

text \<open>
  \<open>internal/core/custody\<close>: the hash-chained ledger. \<open>event.go\<close> is the data and the
  validation policy; \<open>ledger.go\<close> is \<^term>\<open>computeHash\<close> and the operations of the \<open>Ledger\<close>
  over its \<open>Repository\<close> interface, here a record of functions over a storage state. SHA-256
  and \<open>json.Marshal\<close> are the two functions of the record \<open>hash_fns\<close>; \<open>uuid.New\<close> is an argument.
\<close>

section \<open>Data\<close>

datatype event_type =
    EventPackageDroppedAtLocker
  | EventPickupRequestedByCustomer
  | EventRiderAssigned
  | EventRiderArrivedAtLocker
  | EventPackagePickedUp
  | EventRiderInTransit
  | EventRiderArrivedAtDestination
  | EventPackageDelivered
  | EventDeliveryFailed
  | EventPackageReturnedToLocker
  | EventTypeOther string

definition declared_event_types :: "(string \<times> event_type) list" where
  "declared_event_types =
     [(''package.dropped_at_locker'', EventPackageDroppedAtLocker),
      (''pickup.requested_by_customer'', EventPickupRequestedByCustomer),
      (''rider.assigned'', EventRiderAssigned),
      (''rider.arrived_at_locker'', EventRiderArrivedAtLocker),
      (''package.picked_up'', EventPackagePickedUp),
      (''rider.in_transit'', EventRiderInTransit),
      (''rider.arrived_at_destination'', EventRiderArrivedAtDestination),
      (''package.delivered'', EventPackageDelivered),
      (''delivery.failed'', EventDeliveryFailed),
      (''package.returned_to_locker'', EventPackageReturnedToLocker)]"

text \<open>The conversion \<open>custody.EventType(s)\<close> of any string, and the string of an event type.\<close>

definition EventType_of :: "string \<Rightarrow> event_type" where
  "EventType_of s = (case map_of declared_event_types s of Some t \<Rightarrow> t | None \<Rightarrow> EventTypeOther s)"

fun event_type_string :: "event_type \<Rightarrow> string" where
  "event_type_string EventPackageDroppedAtLocker = ''package.dropped_at_locker''"
| "event_type_string EventPickupRequestedByCustomer = ''pickup.requested_by_customer''"
| "event_type_string EventRiderAssigned = ''rider.assigned''"
| "event_type_string EventRiderArrivedAtLocker = ''rider.arrived_at_locker''"
| "event_type_string EventPackagePickedUp = ''package.picked_up''"
| "event_type_string EventRiderInTransit = ''rider.in_transit''"
| "event_type_string EventRiderArrivedAtDestination = ''rider.arrived_at_destination''"
| "event_type_string EventPackageDelivered = ''package.delivered''"
| "event_type_string EventDeliveryFailed = ''delivery.failed''"
| "event_type_string EventPackageReturnedToLocker = ''package.returned_to_locker''"
| "event_type_string (EventTypeOther s) = s"

record actor =
  ac_Type :: string
  ac_CarrierID :: string
  ac_ID :: string
  ac_Name :: string

record custody_geo =
  cg_Lat :: f64
  cg_Lng :: f64
  cg_AccuracyM :: f64
  cg_Altitude :: f64
  cg_Heading :: f64

record photo_ref =
  ph_S3URI :: string
  ph_SHA256 :: string
  ph_ContentType :: string
  ph_Width :: int64
  ph_Height :: int64
  ph_ExifGPS :: "custody_geo option"

record signature_ref =
  sg_S3URI :: string
  sg_SHA256 :: string

record event =
  e_EventID :: uuid
  e_DeliveryID :: uuid
  e_SequenceNum :: int64
  e_Type :: event_type
  e_OccurredAt :: gotime
  e_CarrierTime :: "gotime option"
  e_Actor :: actor
  e_Location :: "custody_geo option"
  e_Photos :: "photo_ref list"
  e_Signature :: "signature_ref option"
  e_Reason :: string
  e_Metadata :: string
  e_PrevHash :: string
  e_Hash :: string

section \<open>Validation\<close>

fun RequiresPhoto :: "event_type \<Rightarrow> bool" where
  "RequiresPhoto EventRiderArrivedAtLocker = True"
| "RequiresPhoto EventPackagePickedUp = True"
| "RequiresPhoto EventPackageDelivered = True"
| "RequiresPhoto EventDeliveryFailed = True"
| "RequiresPhoto EventPackageReturnedToLocker = True"
| "RequiresPhoto _ = False"

fun RequiresGPS :: "event_type \<Rightarrow> bool" where
  "RequiresGPS EventRiderArrivedAtLocker = True"
| "RequiresGPS EventPackagePickedUp = True"
| "RequiresGPS EventRiderInTransit = True"
| "RequiresGPS EventRiderArrivedAtDestination = True"
| "RequiresGPS EventPackageDelivered = True"
| "RequiresGPS EventDeliveryFailed = True"
| "RequiresGPS EventPackageReturnedToLocker = True"
| "RequiresGPS _ = False"

definition ErrPhotoRequired :: goerror where
  "ErrPhotoRequired = errors_New ''custody: event type requires photo''"

definition ErrGPSRequired :: goerror where
  "ErrGPSRequired = errors_New ''custody: event type requires GPS location''"

definition ErrInvalidEvent :: goerror where
  "ErrInvalidEvent = errors_New ''custody: invalid event''"

definition Validate :: "event \<Rightarrow> goerror option" where
  "Validate e =
     (if event_type_string (e_Type e) = [] then Some ErrInvalidEvent
      else if e_DeliveryID e = uuid_Nil then Some ErrInvalidEvent
      else if time_IsZero (e_OccurredAt e) then Some ErrInvalidEvent
      else if RequiresPhoto (e_Type e) \<and> length (e_Photos e) = 0 then Some ErrPhotoRequired
      else if RequiresGPS (e_Type e) \<and> e_Location e = None then Some ErrGPSRequired
      else None)"

section \<open>Hashing\<close>

text \<open>The anonymous payload struct that is hashed: no sequence number, no hashes, times in ms.\<close>

record hash_payload =
  h_EventID :: uuid
  h_DeliveryID :: uuid
  h_Type :: event_type
  h_OccurredAt :: int
  h_CarrierTime :: "int option"
  h_Actor :: actor
  h_Location :: "custody_geo option"
  h_Photos :: "photo_ref list"
  h_Signature :: "signature_ref option"
  h_Reason :: string
  h_Metadata :: string

record hash_fns =
  sha256_Sum :: "string \<Rightarrow> string"
  json_Marshal :: "hash_payload \<Rightarrow> goerror + string"

definition genesisHash :: "hash_fns \<Rightarrow> string" where
  "genesisHash H = hex_EncodeToString (sha256_Sum H ''dashfetchr:custody:genesis:v1'')"

definition payload_of :: "event \<Rightarrow> hash_payload" where
  "payload_of e =
     \<lparr>h_EventID = e_EventID e, h_DeliveryID = e_DeliveryID e, h_Type = e_Type e,
      h_OccurredAt = time_UnixMilli (e_OccurredAt e),
      h_CarrierTime = map_option time_UnixMilli (e_CarrierTime e),
      h_Actor = e_Actor e, h_Location = e_Location e, h_Photos = e_Photos e,
      h_Signature = e_Signature e, h_Reason = e_Reason e, h_Metadata = e_Metadata e\<rparr>"

definition computeHash :: "hash_fns \<Rightarrow> event \<Rightarrow> goerror + string" where
  "computeHash H e =
     (case json_Marshal H (payload_of e) of
        Inl err \<Rightarrow> Inl err
      | Inr body \<Rightarrow>
          Inr (hex_EncodeToString (sha256_Sum H (e_PrevHash e @ [char_of (31 :: nat)] @ body))))"

section \<open>The ledger\<close>

text \<open>
  The \<open>Repository\<close> interface: each operation reads the storage state, and \<open>Append\<close> also
  returns the new one. \<open>LastByDelivery\<close> returns no event when there is none.
\<close>

record 's custody_repo =
  cr_Append :: "event \<Rightarrow> 's \<Rightarrow> goerror option \<times> 's"
  cr_LastByDelivery :: "uuid \<Rightarrow> 's \<Rightarrow> goerror + event option"
  cr_ListByDelivery :: "uuid \<Rightarrow> 's \<Rightarrow> goerror + event list"

text \<open>The event \<open>Record\<close> completes, from the tail it read.\<close>

definition chain_event :: "hash_fns \<Rightarrow> uuid \<Rightarrow> event option \<Rightarrow> event \<Rightarrow> event" where
  "chain_event H newID prev e =
     (case prev of
        Some p \<Rightarrow> e\<lparr>e_EventID := newID, e_SequenceNum := e_SequenceNum p + 1, e_PrevHash := e_Hash p\<rparr>
      | None \<Rightarrow> e\<lparr>e_EventID := newID, e_SequenceNum := 0, e_PrevHash := genesisHash H\<rparr>)"

definition Ledger_Record ::
  "hash_fns \<Rightarrow> 's custody_repo \<Rightarrow> uuid \<Rightarrow> event \<Rightarrow> 's \<Rightarrow> (goerror + event) \<times> 's" where
  "Ledger_Record H repo newID e s =
     (case Validate e of
        Some err \<Rightarrow> (Inl err, s)
      | None \<Rightarrow>
          (case cr_LastByDelivery repo (e_DeliveryID e) s of
             Inl err \<Rightarrow> (Inl (Wrapf ''custody: read tail: %w'' [] err), s)
           | Inr prev \<Rightarrow>
               (let e1 = chain_event H newID prev e in
                case computeHash H e1 of
                  Inl err \<Rightarrow> (Inl err, s)
                | Inr h \<Rightarrow>
                    (let e2 = e1\<lparr>e_Hash := h\<rparr> in
                     case cr_Append repo e2 s of
                       (Some err, s') \<Rightarrow> (Inl (Wrapf ''custody: append: %w'' [] err), s')
                     | (None, s') \<Rightarrow> (Inr e2, s')))))"

definition Ledger_List :: "'s custody_repo \<Rightarrow> uuid \<Rightarrow> 's \<Rightarrow> goerror + event list" where
  "Ledger_List repo d s = cr_ListByDelivery repo d s"

text \<open>The loop of \<open>Verify\<close>, at index \<open>i\<close> with the hash the next event has to name.\<close>

fun verify_from :: "hash_fns \<Rightarrow> nat \<Rightarrow> string \<Rightarrow> event list \<Rightarrow> goerror option" where
  "verify_from H i expected [] = None"
| "verify_from H i expected (e # es) =
     (if e_SequenceNum e \<noteq> of_nat i then Some (ChainBrokenError i ''sequence gap'')
      else if e_PrevHash e \<noteq> expected then Some (ChainBrokenError i ''prev_hash mismatch'')
      else case computeHash H e of
             Inl err \<Rightarrow> Some err
           | Inr actual \<Rightarrow>
               (if actual \<noteq> e_Hash e then Some (TamperedError i (e_EventID e))
                else verify_from H (Suc i) (e_Hash e) es))"

definition Ledger_Verify :: "hash_fns \<Rightarrow> 's custody_repo \<Rightarrow> uuid \<Rightarrow> 's \<Rightarrow> goerror option" where
  "Ledger_Verify H repo d s =
     (case cr_ListByDelivery repo d s of
        Inl err \<Rightarrow> Some err
      | Inr events \<Rightarrow> verify_from H 0 (genesisHash H) events)"

section \<open>What an intact chain is\<close>

definition prev_hash_at :: "hash_fns \<Rightarrow> event list \<Rightarrow> nat \<Rightarrow> string" where
  "prev_hash_at H es i = (if i = 0 then genesisHash H else e_Hash (es ! (i - 1)))"

definition chain_intact :: "hash_fns \<Rightarrow> event list \<Rightarrow> bool" where
  "chain_intact H es \<longleftrightarrow>
     (\<forall>i < length es. e_SequenceNum (es ! i) = of_nat i \<and>
        e_PrevHash (es ! i) = prev_hash_at H es i \<and>
        computeHash H (es ! i) = Inr (e_Hash (es ! i)))"

lemma verify_from_None_iff:
  "verify_from H i p es = None \<longleftrightarrow>
     (\<forall>k < length es. e_SequenceNum (es ! k) = of_nat (i + k) \<and>
        e_PrevHash (es ! k) = (if k = 0 then p else e_Hash (es ! (k - 1))) \<and>
        computeHash H (es ! k) = Inr (e_Hash (es ! k)))"
proof (induction es arbitrary: i p)
  case (Cons e es)
  have "verify_from H i p (e # es) = None \<longleftrightarrow>
      e_SequenceNum e = of_nat i \<and> e_PrevHash e = p \<and> computeHash H e = Inr (e_Hash e) \<and>
      verify_from H (Suc i) (e_Hash e) es = None"
    by (auto split: sum.splits)
  also have "\<dots> \<longleftrightarrow> (\<forall>k < length (e # es). e_SequenceNum ((e # es) ! k) = of_nat (i + k) \<and>
        e_PrevHash ((e # es) ! k) = (if k = 0 then p else e_Hash ((e # es) ! (k - 1))) \<and>
        computeHash H ((e # es) ! k) = Inr (e_Hash ((e # es) ! k)))"
    unfolding Cons.IH
    by (simp add: All_less_Suc2 nth_Cons' algebra_simps del: of_nat_Suc of_nat_add)
  finally show ?case .
qed simp

lemma verify_chain_intact: "verify_from H 0 (genesisHash H) es = None \<longleftrightarrow> chain_intact H es"
  by (simp add: verify_from_None_iff chain_intact_def prev_hash_at_def)

lemma chain_intact_Nil [simp]: "chain_intact H []"
  by (simp add: chain_intact_def)

lemma chain_intact_snoc:
  "chain_intact H (es @ [e]) \<longleftrightarrow>
     chain_intact H es \<and> e_SequenceNum e = of_nat (length es) \<and>
     e_PrevHash e = prev_hash_at H (es @ [e]) (length es) \<and> computeHash H e = Inr (e_Hash e)"
proof -
  have old: "(es @ [e]) ! i = es ! i" "prev_hash_at H (es @ [e]) i = prev_hash_at H es i"
    if "i < length es" for i
    using that by (auto simp: prev_hash_at_def nth_append)
  show ?thesis
    unfolding chain_intact_def length_append_singleton All_less_Suc nth_append_length
    using old by (simp add: conj_commute cong: conj_cong)
qed

lemma chain_intact_take: "chain_intact H es \<Longrightarrow> chain_intact H (take n es)"
  by (auto simp: chain_intact_def prev_hash_at_def)

lemma prev_hash_at_snoc:
  "prev_hash_at H (es @ [e]) (length es) = (if es = [] then genesisHash H else e_Hash (last es))"
  by (simp add: prev_hash_at_def nth_append last_conv_nth)

lemma computeHash_ignores_hash [simp]: "computeHash H (e\<lparr>e_Hash := h\<rparr>) = computeHash H e"
  by (simp add: computeHash_def payload_of_def split: sum.split)

text \<open>The event that \<open>Record\<close> builds extends an intact chain.\<close>

lemma chain_event_extends:
  assumes "chain_intact H es" "computeHash H (chain_event H i prev e) = Inr h"
    and "prev = (if es = [] then None else Some (last es))"
  shows "chain_intact H (es @ [(chain_event H i prev e)\<lparr>e_Hash := h\<rparr>])"
proof (cases "es = []")
  case True
  with assms show ?thesis
    by (simp add: chain_intact_snoc [of _ "[]", simplified] chain_event_def prev_hash_at_def)
next
  case False
  then have "e_SequenceNum (last es) = of_nat (length es - 1)"
    using assms(1) by (simp add: chain_intact_def last_conv_nth)
  then have "e_SequenceNum (last es) + 1 = of_nat (length es)"
    using False by (metis One_nat_def Suc_pred' add.commute length_greater_0_conv of_nat_Suc)
  with assms False show ?thesis
    by (simp add: chain_intact_snoc prev_hash_at_snoc chain_event_def)
qed

section \<open>The contract of the storage, and what the ledger promises on top of it\<close>

text \<open>
  \<open>chain s d\<close> is the list of events the storage holds for a delivery, and \<open>keep e\<close> what it holds
  of an event it was given: its identifiers and hashes, and for an event that \<open>fits\<close> also all that is
  hashed. The laws are those the comments of the interface state: an appended event is the new
  tail of its own delivery and changes no other, a failed append changes nothing, the two readers
  return the tail and the list. They are asked of an event with a new identifier and the next
  sequence number only.
\<close>

definition numbered :: "event list \<Rightarrow> bool" where
  "numbered es \<longleftrightarrow> (\<forall>i < length es. e_SequenceNum (es ! i) = of_nat i)"

definition same_links :: "event \<Rightarrow> event \<Rightarrow> bool" where
  "same_links e e' \<longleftrightarrow> e_EventID e' = e_EventID e \<and> e_DeliveryID e' = e_DeliveryID e \<and>
     e_SequenceNum e' = e_SequenceNum e \<and> e_PrevHash e' = e_PrevHash e \<and> e_Hash e' = e_Hash e"

text \<open>The fields of an input that its event has; \<open>Record\<close> sets the others.\<close>

definition same_content :: "event \<Rightarrow> event \<Rightarrow> bool" where
  "same_content e e' \<longleftrightarrow> e_DeliveryID e' = e_DeliveryID e \<and> e_Type e' = e_Type e \<and>
     e_Photos e' = e_Photos e \<and> e_Location e' = e_Location e \<and> e_Reason e' = e_Reason e \<and>
     e_Actor e' = e_Actor e"

lemma chain_intact_numbered: "chain_intact H es \<Longrightarrow> numbered es"
  by (simp add: chain_intact_def numbered_def)

lemma computeHash_payload:
  "payload_of e' = payload_of e \<Longrightarrow> e_PrevHash e' = e_PrevHash e \<Longrightarrow> computeHash H e' = computeHash H e"
  by (simp add: computeHash_def split: sum.split)

lemma same_payload_content: "payload_of e' = payload_of e \<Longrightarrow> same_content e e'"
  by (simp add: payload_of_def same_content_def)

lemma chain_intact_kept:
  assumes "chain_intact H (es @ [e])" "payload_of e' = payload_of e" "same_links e e'"
  shows "chain_intact H (es @ [e'])"
  using assms computeHash_payload [OF assms(2)]
  by (simp add: chain_intact_snoc prev_hash_at_snoc same_links_def)

locale custody_store =
  fixes repo :: "'s custody_repo"
    and chain :: "'s \<Rightarrow> uuid \<Rightarrow> event list"
    and invar :: "'s \<Rightarrow> bool"
    and keep :: "event \<Rightarrow> event"
    and fits :: "event \<Rightarrow> bool"
  assumes last_ok: "invar s \<Longrightarrow> cr_LastByDelivery repo d s = Inr prev \<Longrightarrow>
      prev = (if chain s d = [] then None else Some (last (chain s d)))"
    and list_ok: "invar s \<Longrightarrow> cr_ListByDelivery repo d s = Inr es \<Longrightarrow> es = chain s d"
    and append_ok: "invar s \<Longrightarrow> cr_Append repo e s = (None, s') \<Longrightarrow>
      \<forall>d. e_EventID e \<notin> e_EventID ` set (chain s d) \<Longrightarrow> numbered (chain s (e_DeliveryID e)) \<Longrightarrow>
      e_SequenceNum e = of_nat (length (chain s (e_DeliveryID e))) \<Longrightarrow>
      chain s' = (chain s)(e_DeliveryID e := chain s (e_DeliveryID e) @ [keep e])"
    and append_err: "invar s \<Longrightarrow> cr_Append repo e s = (Some err, s') \<Longrightarrow> chain s' = chain s"
    and append_invar: "invar s \<Longrightarrow> cr_Append repo e s = (r, s') \<Longrightarrow> invar s'"
    and keep_links: "same_links e (keep e)"
    and keep_payload: "fits e \<Longrightarrow> payload_of (keep e) = payload_of e"
    and fits_links: "fits (e\<lparr>e_EventID := i, e_SequenceNum := n, e_PrevHash := p, e_Hash := h\<rparr>) = fits e"
begin

lemma record_invar: "invar s \<Longrightarrow> Ledger_Record H repo i e s = (r, s') \<Longrightarrow> invar s'"
  by (auto simp: Ledger_Record_def Let_def append_invar split: option.splits sum.splits prod.splits)

lemma record_err:
  "invar s \<Longrightarrow> Ledger_Record H repo i e s = (Inl err, s') \<Longrightarrow> chain s' = chain s"
  by (auto simp: Ledger_Record_def Let_def append_err split: option.splits sum.splits prod.splits)

lemma fits_chain_event: "fits ((chain_event H i prev e)\<lparr>e_Hash := h\<rparr>) = fits e"
  by (cases prev) (simp_all add: chain_event_def fits_links)

text \<open>A recorded event is the new tail of its delivery's chain, and the chain stays intact.\<close>

lemma record_ok:
  assumes inv: "invar s" and intact: "chain_intact H (chain s (e_DeliveryID e))"
    and fresh: "\<forall>d. i \<notin> e_EventID ` set (chain s d)" and fits: "fits e"
    and rec: "Ledger_Record H repo i e s = (Inr e', s')"
  shows "chain s' = (chain s)(e_DeliveryID e := chain s (e_DeliveryID e) @ [keep e'])"
    and "chain_intact H (chain s' (e_DeliveryID e))"
    and "Validate e = None"
    and "e_EventID e' = i \<and> same_content e e'"
    and "e_EventID (keep e') = i \<and> same_content e (keep e')"
proof -
  let ?es = "chain s (e_DeliveryID e)"
  from rec obtain prev h where v: "Validate e = None"
    and last: "cr_LastByDelivery repo (e_DeliveryID e) s = Inr prev"
    and hash: "computeHash H (chain_event H i prev e) = Inr h"
    and e': "e' = (chain_event H i prev e)\<lparr>e_Hash := h\<rparr>"
    and app: "cr_Append repo e' s = (None, s')"
    by (auto simp: Ledger_Record_def Let_def split: option.splits sum.splits prod.splits)
  have prev: "prev = (if ?es = [] then None else Some (last ?es))"
    using last_ok [OF inv last] .
  have ext: "chain_intact H (?es @ [e'])"
    unfolding e' by (rule chain_event_extends [OF intact hash prev])
  have id: "e_EventID e' = i" and del: "e_DeliveryID e' = e_DeliveryID e" and con: "same_content e e'"
    by (auto simp: e' chain_event_def same_content_def split: option.splits)
  have seq: "e_SequenceNum e' = of_nat (length ?es)"
    using ext by (simp add: chain_intact_snoc)
  have pay: "payload_of (keep e') = payload_of e'"
    using fits unfolding e' by (intro keep_payload) (simp add: fits_chain_event)
  show ch: "chain s' = (chain s)(e_DeliveryID e := ?es @ [keep e'])"
    using append_ok [OF inv app] fresh seq chain_intact_numbered [OF intact] by (simp add: id del)
  show "chain_intact H (chain s' (e_DeliveryID e))"
    using chain_intact_kept [OF ext pay keep_links] by (simp add: ch)
  show "Validate e = None" by (rule v)
  show "e_EventID e' = i \<and> same_content e e'" using id con by simp
  show "e_EventID (keep e') = i \<and> same_content e (keep e')"
    using id con keep_links [of e'] same_payload_content [OF pay] by (simp add: same_links_def same_content_def)
qed

lemma verify_iff:
  assumes "invar s" "cr_ListByDelivery repo d s = Inr es"
  shows "Ledger_Verify H repo d s = None \<longleftrightarrow> chain_intact H (chain s d)"
  using list_ok [OF assms] assms(2) by (simp add: Ledger_Verify_def verify_chain_intact)

lemma record_intact_all:
  assumes "invar s" "\<forall>d. chain_intact H (chain s d)" "\<forall>d. i \<notin> e_EventID ` set (chain s d)" "fits e"
    "Ledger_Record H repo i e s = (r, s')"
  shows "\<forall>d. chain_intact H (chain s' d)"
proof (cases r)
  case (Inl err)
  then show ?thesis using record_err [OF assms(1)] assms by simp
next
  case (Inr e')
  show ?thesis
    using record_ok(1,2) [OF assms(1) assms(2)[rule_format] assms(3,4)] assms(2,5) Inr by auto
qed

end

section \<open>Tampering\<close>

definition hash_input :: "hash_fns \<Rightarrow> event \<Rightarrow> string" where
  "hash_input H e =
     (case json_Marshal H (payload_of e) of
        Inl _ \<Rightarrow> []
      | Inr body \<Rightarrow> e_PrevHash e @ [char_of (31 :: nat)] @ body)"

text \<open>Two events whose hashes collide: different inputs of SHA-256 with the same digest.\<close>

definition digest_collision :: "hash_fns \<Rightarrow> event \<Rightarrow> event \<Rightarrow> bool" where
  "digest_collision H e e' \<longleftrightarrow>
     hash_input H e \<noteq> hash_input H e' \<and> sha256_Sum H (hash_input H e) = sha256_Sum H (hash_input H e')"

definition encoding_collision :: "hash_fns \<Rightarrow> event \<Rightarrow> event \<Rightarrow> bool" where
  "encoding_collision H e e' \<longleftrightarrow>
     payload_of e \<noteq> payload_of e' \<and> json_Marshal H (payload_of e) = json_Marshal H (payload_of e')"

lemma split_at_delimiter:
  "c \<notin> set a \<Longrightarrow> c \<notin> set a' \<Longrightarrow> a @ [c] @ b = a' @ [c] @ b' \<Longrightarrow> a = a' \<and> b = b'"
proof (induction a arbitrary: a')
  case Nil
  then show ?case by (cases a') auto
next
  case (Cons x a)
  then show ?case by (cases a') auto
qed

lemma hex_no_delimiter: "char_of (31 :: nat) \<notin> set (hex_EncodeToString s)"
  using hex_EncodeToString_chars [of "char_of (31 :: nat)" s] of_char_of_small [of 31] by auto

lemma computeHash_hex: "computeHash H e = Inr h \<Longrightarrow> h = hex_EncodeToString (sha256_Sum H (hash_input H e))"
  by (auto simp: computeHash_def hash_input_def split: sum.splits)

lemma chain_intact_prev_hex:
  assumes "chain_intact H es" "i < length es"
  shows "char_of (31 :: nat) \<notin> set (e_PrevHash (es ! i))"
proof (cases "i = 0")
  case True
  then show ?thesis
    using assms by (simp add: chain_intact_def prev_hash_at_def genesisHash_def hex_no_delimiter)
next
  case False
  then have "e_PrevHash (es ! i) = e_Hash (es ! (i - 1))"
      "computeHash H (es ! (i - 1)) = Inr (e_Hash (es ! (i - 1)))"
    using assms by (simp_all add: chain_intact_def prev_hash_at_def)
  then show ?thesis using computeHash_hex hex_no_delimiter by metis
qed

text \<open>Equal hashes of two events of intact chains: equal events, or a collision to show for it.\<close>

lemma same_hash_step:
  assumes "computeHash H e = Inr h" "computeHash H e' = Inr h"
    and "char_of (31 :: nat) \<notin> set (e_PrevHash e)" "char_of (31 :: nat) \<notin> set (e_PrevHash e')"
    and "\<not> digest_collision H e e'" "\<not> encoding_collision H e e'"
  shows "payload_of e = payload_of e'" and "e_PrevHash e = e_PrevHash e'"
proof -
  obtain b b' where b: "json_Marshal H (payload_of e) = Inr b" "json_Marshal H (payload_of e') = Inr b'"
    using assms(1,2) by (auto simp: computeHash_def split: sum.splits)
  have "sha256_Sum H (hash_input H e) = sha256_Sum H (hash_input H e')"
    using assms(1,2) by (metis computeHash_hex hex_EncodeToString_inj)
  then have "hash_input H e = hash_input H e'"
    using assms(5) by (auto simp: digest_collision_def)
  then have "e_PrevHash e @ [char_of (31 :: nat)] @ b = e_PrevHash e' @ [char_of (31 :: nat)] @ b'"
    by (simp add: hash_input_def b)
  then have eq: "e_PrevHash e = e_PrevHash e' \<and> b = b'"
    using split_at_delimiter [OF assms(3,4)] by blast
  then show "e_PrevHash e = e_PrevHash e'" by simp
  show "payload_of e = payload_of e'"
    using assms(6) eq b by (auto simp: encoding_collision_def)
qed

lemma chains_with_same_head:
  assumes "chain_intact H es" "chain_intact H es'" "length es = length es'"
    and "es \<noteq> [] \<Longrightarrow> e_Hash (last es) = e_Hash (last es')"
    and "\<And>i. i < length es \<Longrightarrow> \<not> digest_collision H (es ! i) (es' ! i)"
    and "\<And>i. i < length es \<Longrightarrow> \<not> encoding_collision H (es ! i) (es' ! i)"
  shows "map payload_of es = map payload_of es'"
  using assms
proof (induction es arbitrary: es' rule: rev_induct)
  case (snoc x xs)
  then obtain ys y where es': "es' = ys @ [y]" and len: "length xs = length ys"
    by (cases es' rule: rev_cases) auto
  have at: "(xs @ [x]) ! length xs = x" "(ys @ [y]) ! length xs = y"
    by (metis len nth_append_length)+
  have cx: "computeHash H x = Inr (e_Hash x)" and cy: "computeHash H y = Inr (e_Hash x)"
    using snoc.prems(1,2,4) by (simp_all add: es' chain_intact_snoc)
  have hx: "char_of (31 :: nat) \<notin> set (e_PrevHash x)"
    using chain_intact_prev_hex [OF snoc.prems(1), of "length xs"] by simp
  have hy: "char_of (31 :: nat) \<notin> set (e_PrevHash y)"
    using chain_intact_prev_hex [OF snoc.prems(2), of "length xs"] by (simp add: es' len)
  have nc: "\<not> digest_collision H x y" "\<not> encoding_collision H x y"
    using snoc.prems(5,6) [of "length xs"] by (simp_all add: es' at)
  note step = same_hash_step [OF cx cy hx hy nc]
  have "map payload_of xs = map payload_of ys"
  proof (rule snoc.IH)
    show "chain_intact H xs" "chain_intact H ys" "length xs = length ys"
      using snoc.prems(1,2) len by (simp_all add: es' chain_intact_snoc)
    show "e_Hash (last xs) = e_Hash (last ys)" if "xs \<noteq> []"
    proof -
      have "ys \<noteq> []" using that len by auto
      then show ?thesis
        using step(2) that snoc.prems(1,2)
        by (simp add: es' chain_intact_snoc prev_hash_at_snoc)
    qed
    show "\<not> digest_collision H (xs ! i) (ys ! i)" "\<not> encoding_collision H (xs ! i) (ys ! i)"
      if "i < length xs" for i
      using snoc.prems(5,6) [of i] that len by (simp_all add: es' nth_append)
  qed
  then show ?case using step(1) by (simp add: es')
qed simp

section \<open>Properties\<close>

text \<open>
  C9: Verify succeeds exactly on the chains whose events are numbered 0, 1, 2, ..., whose links
  point to the hash before (genesis first), and whose stored hashes are the computed ones.
\<close>

theorem verify_iff_intact:
  "verify_from H 0 (genesisHash H) es = None \<longleftrightarrow>
     (\<forall>i < length es. e_SequenceNum (es ! i) = of_nat i \<and>
        e_PrevHash (es ! i) = (if i = 0 then genesisHash H else e_Hash (es ! (i - 1))) \<and>
        computeHash H (es ! i) = Inr (e_Hash (es ! i)))"
  by (simp add: verify_chain_intact chain_intact_def prev_hash_at_def)

text \<open>
  C8: Tamper evidence: two chains of the same length that both verify and end in the same hash
  carry the same hashed payloads event by event, or exhibit a SHA-256 or JSON-encoding
  collision.
\<close>

theorem verify_tamper_evident:
  assumes "verify_from H 0 (genesisHash H) es = None" "verify_from H 0 (genesisHash H) es' = None"
    and "length es = length es'" "es \<noteq> []" "e_Hash (last es) = e_Hash (last es')"
  shows "map payload_of es = map payload_of es' \<or>
         (\<exists>i < length es. digest_collision H (es ! i) (es' ! i) \<or> encoding_collision H (es ! i) (es' ! i))"
  using chains_with_same_head [of H es es'] assms by (auto simp: verify_chain_intact)

text \<open>Where a single stored event was changed, \<open>Verify\<close> names it.\<close>

lemma verify_from_append:
  "verify_from H i p (xs @ ys) =
     (case verify_from H i p xs of
        Some err \<Rightarrow> Some err
      | None \<Rightarrow> verify_from H (i + length xs) (if xs = [] then p else e_Hash (last xs)) ys)"
  by (induction xs arbitrary: i p) (auto split: sum.split option.split)

text \<open>
  C19: Changing the hashed content of one event of a verified chain, to content that can be
  encoded, makes Verify fail with ErrTampered at that index and with that event's identifier,
  unless the digests collide.
\<close>

theorem verify_names_tampered_event:
  assumes "verify_from H 0 (genesisHash H) es = None" "i < length es"
    and "e_SequenceNum e' = e_SequenceNum (es ! i)" "e_PrevHash e' = e_PrevHash (es ! i)"
        "e_Hash e' = e_Hash (es ! i)"
    and "json_Marshal H (payload_of e') = Inr body"
    and "sha256_Sum H (e_PrevHash e' @ [char_of (31 :: nat)] @ body) \<noteq> sha256_Sum H (hash_input H (es ! i))"
  shows "verify_from H 0 (genesisHash H) (es[i := e']) = Some (TamperedError i (e_EventID e'))"
proof -
  have ci: "chain_intact H es" using assms(1) by (simp add: verify_chain_intact)
  have pre: "verify_from H 0 (genesisHash H) (take i es) = None"
    using chain_intact_take [OF ci] by (simp add: verify_chain_intact)
  have prev: "e_PrevHash e' = (if take i es = [] then genesisHash H else e_Hash (last (take i es)))"
    using ci assms(2,4)
    by (auto simp: chain_intact_def prev_hash_at_def last_conv_nth)
  have seq: "e_SequenceNum e' = of_nat i" using ci assms(2,3) by (simp add: chain_intact_def)
  obtain h where h: "computeHash H e' = Inr h" "h \<noteq> e_Hash e'"
  proof
    show "computeHash H e' = Inr (hex_EncodeToString (sha256_Sum H (e_PrevHash e' @ [char_of (31 :: nat)] @ body)))"
      by (simp add: computeHash_def assms(6))
    have "e_Hash (es ! i) = hex_EncodeToString (sha256_Sum H (hash_input H (es ! i)))"
      using ci assms(2) by (intro computeHash_hex) (simp add: chain_intact_def)
    then show "hex_EncodeToString (sha256_Sum H (e_PrevHash e' @ [char_of (31 :: nat)] @ body)) \<noteq> e_Hash e'"
      using assms(5,7) hex_EncodeToString_inj by fastforce
  qed
  have "es[i := e'] = take i es @ e' # drop (Suc i) es"
    using assms(2) by (rule upd_conv_take_nth_drop)
  then show ?thesis
    using pre prev seq h assms(2) by (simp add: verify_from_append)
qed

theorem verify_accepts_truncation:
  "verify_from H 0 (genesisHash H) es = None \<Longrightarrow> verify_from H 0 (genesisHash H) (take n es) = None"
  by (simp add: verify_chain_intact chain_intact_take)

lemma EventType_roundtrip:
  "event_type_string (EventType_of s) = s"
  by (auto simp: EventType_of_def declared_event_types_def split: option.splits if_splits)

lemma Validate_None_iff:
  "Validate e = None \<longleftrightarrow>
     event_type_string (e_Type e) \<noteq> [] \<and> e_DeliveryID e \<noteq> uuid_Nil \<and> \<not> time_IsZero (e_OccurredAt e) \<and>
     (RequiresPhoto (e_Type e) \<longrightarrow> e_Photos e \<noteq> []) \<and>
     (RequiresGPS (e_Type e) \<longrightarrow> e_Location e \<noteq> None)"
  by (auto simp: Validate_def)

end
