(* ===== verification/Stores.thy ===== *)
theory Stores
  imports Ports Custody
begin

text \<open>
  The storage as the application services see it: the three aggregate stores, the routing log
  and the event bus over one state, each leaving the others alone. Every service is proved
  against this locale once; \<open>MemoryStore\<close> interprets it.
\<close>

section \<open>What the running program keeps true of its storage\<close>

text \<open>
  Proof that a parcel was handed over, in a delivery's chain: an event of the type with a photo
  and a location. A delivery that is carried has the one for the pickup, a delivered one both.
\<close>

definition has_evidence :: "event list \<Rightarrow> event_type \<Rightarrow> bool" where
  "has_evidence es t \<longleftrightarrow> (\<exists>e \<in> set es. e_Type e = t \<and> e_Photos e \<noteq> [] \<and> e_Location e \<noteq> None)"

definition carried :: "dstate \<Rightarrow> bool" where
  "carried st \<longleftrightarrow> st \<in> {StatePickedUp, StateInTransit, StateEnRouteDrop, StateDelivered}"

definition delivery_evidence :: "event list \<Rightarrow> dstate \<Rightarrow> bool" where
  "delivery_evidence es st \<longleftrightarrow>
     (carried st \<longrightarrow> has_evidence es EventPackagePickedUp) \<and>
     (st = StateDelivered \<longrightarrow> has_evidence es EventPackageDelivered)"

definition delivery_ok :: "('s \<Rightarrow> uuid \<rightharpoonup> awb) \<Rightarrow> ('s \<Rightarrow> uuid \<Rightarrow> event list) \<Rightarrow> 's \<Rightarrow> uuid \<Rightarrow> delivery \<Rightarrow> bool" where
  "delivery_ok awbs chain s i d \<longleftrightarrow>
     d_ID d = i \<and> awbs s (d_AWBID d) \<noteq> None \<and> declared_state (d_State d) \<and>
     d_State d \<noteq> StateReturnedToOrigin \<and> l_Type (d_Pickup d) = LocationLocker \<and>
     delivery_evidence (chain s i) (d_State d)"

definition awb_ok :: "uuid \<Rightarrow> awb \<Rightarrow> bool" where
  "awb_ok i a \<longleftrightarrow> a_ID a = i \<and> a_State a = AwbAtLocker \<and> validatePackage (a_Package a) = None"

section \<open>The contract\<close>

text \<open>An identifier no stored event has, and a storage in which every chain is intact.\<close>

definition fresh_event :: "('s \<Rightarrow> uuid \<Rightarrow> event list) \<Rightarrow> 's \<Rightarrow> uuid \<Rightarrow> bool" where
  "fresh_event chain s i \<longleftrightarrow> (\<forall>d. i \<notin> e_EventID ` set (chain s d))"

lemma fresh_event_snoc:
  "fresh_event chain s j \<Longrightarrow> j \<noteq> e_EventID e \<Longrightarrow> chain s' = (chain s)(i := chain s i @ [e]) \<Longrightarrow>
     fresh_event chain s' j"
  by (auto simp: fresh_event_def image_iff)

definition ledger_intact :: "hash_fns \<Rightarrow> ('s \<Rightarrow> uuid \<Rightarrow> event list) \<Rightarrow> 's \<Rightarrow> bool" where
  "ledger_intact H chain s \<longleftrightarrow> (\<forall>d. chain_intact H (chain s d))"

definition app_inv ::
  "hash_fns \<Rightarrow> ('s \<Rightarrow> uuid \<rightharpoonup> awb) \<Rightarrow> ('s \<Rightarrow> uuid \<rightharpoonup> delivery) \<Rightarrow> ('s \<Rightarrow> uuid \<Rightarrow> event list) \<Rightarrow> 's \<Rightarrow> bool" where
  "app_inv H awbs dels chain s \<longleftrightarrow>
     ledger_intact H chain s \<and>
     (\<forall>i a. awbs s i = Some a \<longrightarrow> awb_ok i a) \<and>
     (\<forall>i d. dels s i = Some d \<longrightarrow> delivery_ok awbs chain s i d)"

text \<open>
  How an operation changes the storage: the chains only grow at their end, and a delivery keeps
  its identity and moves along edges \<open>E\<close> of the state graph.
\<close>

definition chain_grows :: "('s \<Rightarrow> uuid \<Rightarrow> event list) \<Rightarrow> 's \<Rightarrow> 's \<Rightarrow> bool" where
  "chain_grows chain s s' \<longleftrightarrow> (\<forall>i. prefix (chain s i) (chain s' i))"

definition moves :: "(dstate \<Rightarrow> dstate \<Rightarrow> bool) \<Rightarrow> delivery \<Rightarrow> delivery \<Rightarrow> bool" where
  "moves E d d' \<longleftrightarrow> d_ID d' = d_ID d \<and> d_AWBID d' = d_AWBID d \<and>
     d_IdempotencyKey d' = d_IdempotencyKey d \<and> l_Type (d_Pickup d') = l_Type (d_Pickup d) \<and>
     E\<^sup>*\<^sup>* (d_State d) (d_State d')"

definition dels_move :: "('s \<Rightarrow> uuid \<rightharpoonup> delivery) \<Rightarrow> (dstate \<Rightarrow> dstate \<Rightarrow> bool) \<Rightarrow> 's \<Rightarrow> 's \<Rightarrow> bool" where
  "dels_move dels E s s' \<longleftrightarrow> (\<forall>i. rel_option (moves E) (dels s i) (dels s' i))"

definition kept ::
  "('s \<Rightarrow> bool) \<Rightarrow> hash_fns \<Rightarrow> ('s \<Rightarrow> uuid \<rightharpoonup> awb) \<Rightarrow> ('s \<Rightarrow> uuid \<rightharpoonup> delivery) \<Rightarrow> ('s \<Rightarrow> uuid \<Rightarrow> event list)
     \<Rightarrow> (dstate \<Rightarrow> dstate \<Rightarrow> bool) \<Rightarrow> 's \<Rightarrow> 's \<Rightarrow> bool" where
  "kept invar H awbs dels chain E s s' \<longleftrightarrow>
     invar s' \<and> app_inv H awbs dels chain s' \<and> chain_grows chain s s' \<and> dels_move dels E s s'"

lemma moves_refl [simp]: "moves E d d"
  by (simp add: moves_def)

lemma moves_trans: "moves E a b \<Longrightarrow> moves E b c \<Longrightarrow> moves E a c"
  by (auto simp: moves_def)

lemma moves_mono: "moves E d d' \<Longrightarrow> (\<And>a b. E a b \<Longrightarrow> F a b) \<Longrightarrow> moves F d d'"
  unfolding moves_def by (metis mono_rtranclp)

lemma moves_same: "moves E a b \<Longrightarrow> same_delivery b c \<Longrightarrow> moves E a c"
  by (simp add: moves_def same_delivery_def)

lemma delivery_ok_same: "delivery_ok awbs chain s i d \<Longrightarrow> same_delivery d d' \<Longrightarrow> delivery_ok awbs chain s i d'"
  by (simp add: delivery_ok_def same_delivery_def)

lemma awb_ok_same: "awb_ok i a \<Longrightarrow> same_awb a a' \<Longrightarrow> awb_ok i a'"
  by (simp add: awb_ok_def same_awb_def)

text \<open>What is saved of a delivery the services work on is storable.\<close>

lemma delivery_ok_storable:
  assumes "delivery_ok awbs chain s i d" "m i = Some d0" "moves E d0 d"
  shows "delivery_storable m d"
  using assms by (auto simp: delivery_ok_def delivery_storable_def moves_def)

lemma dels_move_same [simp]: "dels s' = dels s \<Longrightarrow> dels_move dels E s s'"
  by (simp add: dels_move_def option.rel_refl)

lemma dels_move_upd:
  "dels s i = Some d \<Longrightarrow> moves E d d' \<Longrightarrow> dels s' = (dels s)(i \<mapsto> d') \<Longrightarrow> dels_move dels E s s'"
  by (simp add: dels_move_def option.rel_refl)

lemma dels_move_trans:
  assumes "dels_move dels E s t" "dels_move dels E t u"
  shows "dels_move dels E s u"
proof -
  have "rel_option (moves E) x z" if "rel_option (moves E) x y" "rel_option (moves E) y z" for x y z
    using that by (cases x; cases y; cases z) (auto intro: moves_trans)
  then show ?thesis using assms unfolding dels_move_def by blast
qed

lemma dels_move_mono:
  assumes "dels_move dels E s s'" "\<And>a b. E a b \<Longrightarrow> F a b"
  shows "dels_move dels F s s'"
proof -
  have "rel_option (moves F) x y" if "rel_option (moves E) x y" for x y
    using that by (cases x; cases y) (auto intro: moves_mono assms(2))
  then show ?thesis using assms(1) by (simp add: dels_move_def)
qed

lemma chain_grows_same [simp]: "chain s' = chain s \<Longrightarrow> chain_grows chain s s'"
  by (simp add: chain_grows_def)

lemma chain_grows_snoc: "chain s' = (chain s)(i := chain s i @ [e]) \<Longrightarrow> chain_grows chain s s'"
  by (simp add: chain_grows_def)

lemma chain_grows_trans: "chain_grows chain s t \<Longrightarrow> chain_grows chain t u \<Longrightarrow> chain_grows chain s u"
  unfolding chain_grows_def by (blast intro: prefix_order.trans)

lemma kept_trans:
  assumes "kept invar H awbs dels chain E s t" "kept invar H awbs dels chain E t u"
  shows "kept invar H awbs dels chain E s u"
  using assms dels_move_trans [of dels E s t u] chain_grows_trans [of chain s t u] by (simp add: kept_def)

lemma kept_mono:
  assumes "kept invar H awbs dels chain E s s'" "\<And>a b. E a b \<Longrightarrow> F a b"
  shows "kept invar H awbs dels chain F s s'"
  using assms(1) dels_move_mono [of dels E s s' F, OF _ assms(2)] by (simp add: kept_def)

lemma kept_refl: "invar s \<Longrightarrow> app_inv H awbs dels chain s \<Longrightarrow> kept invar H awbs dels chain E s s"
  by (simp add: kept_def)

locale app_store =
  awb_store awb_rp awbs inv + delivery_store del_rp dels inv + custody_store repo chain inv keep fits
  for awb_rp :: "'s awb_repo"
    and awbs :: "'s \<Rightarrow> uuid \<rightharpoonup> awb"
    and del_rp :: "'s delivery_repo"
    and dels :: "'s \<Rightarrow> uuid \<rightharpoonup> delivery"
    and repo :: "'s custody_repo"
    and chain :: "'s \<Rightarrow> uuid \<Rightarrow> event list"
    and inv :: "'s \<Rightarrow> bool"
    and keep :: "event \<Rightarrow> event"
    and fits :: "event \<Rightarrow> bool" +
  fixes rlog :: "'s routing_repo"
    and bus :: "'s event_bus"
  assumes awb_frame: "inv s \<Longrightarrow> ar_Save awb_rp a s = (r, s') \<Longrightarrow> dels s' = dels s \<and> chain s' = chain s"
    and del_frame: "inv s \<Longrightarrow> dr_Save del_rp d s = (r, s') \<Longrightarrow> awbs s' = awbs s \<and> chain s' = chain s"
    and chain_frame: "inv s \<Longrightarrow> cr_Append repo e s = (r, s') \<Longrightarrow> awbs s' = awbs s \<and> dels s' = dels s"
    and rlog_frame: "inv s \<Longrightarrow> rr_Save rlog i rec s = (r, s') \<Longrightarrow>
      awbs s' = awbs s \<and> dels s' = dels s \<and> chain s' = chain s \<and> inv s'"
    and bus_frame: "inv s \<Longrightarrow> eb_Publish bus evs s = (r, s') \<Longrightarrow>
      awbs s' = awbs s \<and> dels s' = dels s \<and> chain s' = chain s \<and> inv s'"
begin

lemma app_invD:
  assumes "app_inv H awbs dels chain s"
  shows "ledger_intact H chain s"
    and "awbs s i = Some a \<Longrightarrow> awb_ok i a"
    and "dels s i = Some d \<Longrightarrow> delivery_ok awbs chain s i d"
  using assms by (simp_all add: app_inv_def)

text \<open>Writing one aggregate keeps the rest.\<close>

lemma app_inv_awb:
  assumes "app_inv H awbs dels chain s" "awb_ok i a"
    "awbs s' = (awbs s)(i \<mapsto> a)" "dels s' = dels s" "chain s' = chain s"
  shows "app_inv H awbs dels chain s'"
  using assms by (auto simp: app_inv_def ledger_intact_def delivery_ok_def)

lemma app_inv_delivery:
  assumes "app_inv H awbs dels chain s" "delivery_ok awbs chain s i d"
    "dels s' = (dels s)(i \<mapsto> d)" "awbs s' = awbs s" "chain s' = chain s"
  shows "app_inv H awbs dels chain s'"
  using assms by (auto simp: app_inv_def ledger_intact_def delivery_ok_def)

lemma app_inv_same:
  assumes "app_inv H awbs dels chain s" "awbs s' = awbs s" "dels s' = dels s" "chain s' = chain s"
  shows "app_inv H awbs dels chain s'"
  using assms by (auto simp: app_inv_def ledger_intact_def delivery_ok_def)

lemma evidence_snoc: "delivery_evidence es st \<Longrightarrow> delivery_evidence (es @ [e]) st"
  by (auto simp: delivery_evidence_def has_evidence_def)

lemma app_inv_event:
  assumes "app_inv H awbs dels chain s" "awbs s' = awbs s" "dels s' = dels s"
    "chain s' = (chain s)(i := chain s i @ [e])" "ledger_intact H chain s'"
  shows "app_inv H awbs dels chain s'"
  using assms by (auto simp: app_inv_def delivery_ok_def evidence_snoc)

lemmas keep_refl = kept_refl [where invar = inv and awbs = awbs and dels = dels and chain = chain]
lemmas keep_trans = kept_trans [where invar = inv and awbs = awbs and dels = dels and chain = chain]
lemmas keep_mono = kept_mono [where invar = inv and awbs = awbs and dels = dels and chain = chain]
lemmas move_upd = dels_move_upd [where dels = dels]
lemmas grow_snoc = chain_grows_snoc [where chain = chain]
lemmas fresh_snoc = fresh_event_snoc [where chain = chain]

lemma awb_saved:
  assumes "inv s" "awb_storable a" "ar_Save awb_rp a s = (r, s')"
  shows "inv s' \<and> dels s' = dels s \<and> chain s' = chain s \<and>
    (if r = None then \<exists>a'. same_awb a a' \<and> awbs s' = (awbs s)(a_ID a \<mapsto> a') else awbs s' = awbs s)"
  using awb_save_inv [OF assms(1,3)] awb_frame [OF assms(1,3)] awb_save_ok [OF assms(1,2)]
    awb_save_err [OF assms(1)] assms(3)
  by (cases r) auto

lemma del_saved:
  assumes "inv s" "delivery_storable (dels s) d" "dr_Save del_rp d s = (r, s')"
  shows "inv s' \<and> awbs s' = awbs s \<and> chain s' = chain s \<and>
    (if r = None then \<exists>d'. same_delivery d d' \<and> dels s' = (dels s)(d_ID d \<mapsto> d') else dels s' = dels s)"
  using del_save_inv [OF assms(1,3)] del_frame [OF assms(1,3)] del_save_ok [OF assms(1,2)]
    del_save_err [OF assms(1)] assms(3)
  by (cases r) auto

text \<open>What \<open>Ledger.Record\<close> leaves alone, and what it does to an intact ledger.\<close>

lemma record_frame:
  assumes "inv s" "Ledger_Record H repo i e s = (r, s')"
  shows "inv s' \<and> awbs s' = awbs s \<and> dels s' = dels s"
  using assms record_invar [OF assms]
  by (auto simp: Ledger_Record_def Let_def dest: chain_frame
      split: option.splits sum.splits prod.splits)

lemma record_intact:
  "inv s \<Longrightarrow> ledger_intact H chain s \<Longrightarrow> fresh_event chain s i \<Longrightarrow> fits e \<Longrightarrow>
     Ledger_Record H repo i e s = (r, s') \<Longrightarrow> ledger_intact H chain s'"
  using record_intact_all unfolding ledger_intact_def fresh_event_def by blast

text \<open>A recorded event is stored at the end of its chain.\<close>

lemma recorded:
  assumes "inv s" "ledger_intact H chain s" "fresh_event chain s i" "fits e"
    "Ledger_Record H repo i e s = (r, s')"
  shows "case r of
      Inl err \<Rightarrow> chain s' = chain s
    | Inr e' \<Rightarrow> chain s' = (chain s)(e_DeliveryID e := chain s (e_DeliveryID e) @ [keep e']) \<and>
        Validate e = None \<and> e_EventID (keep e') = i \<and> same_content e (keep e')"
proof (cases r)
  case (Inl err)
  then show ?thesis using record_err [OF assms(1)] assms(5) by simp
next
  case (Inr e')
  have intact: "chain_intact H (chain s (e_DeliveryID e))"
    using assms(2) by (simp add: ledger_intact_def)
  have fresh: "\<forall>d. i \<notin> e_EventID ` set (chain s d)" using assms(3) by (simp add: fresh_event_def)
  have rec: "Ledger_Record H repo i e s = (Inr e', s')" using assms(5) Inr by simp
  show ?thesis
    using record_ok(1,3,5) [OF assms(1) intact fresh assms(4) rec] Inr by simp
qed

end

end
