(* ===== verification/Pricing.thy ===== *)
theory Pricing
  imports Ports
begin

text \<open>
  \<open>internal/core/pricing\<close>: the customer's price. Money is in minor units as \<open>int64\<close>, with its
  wrap-around; distances are \<open>float64\<close>. The four functions of package \<open>math\<close> that are not
  determined by IEEE 754 operations alone, and the result of converting an out-of-range
  \<open>float64\<close> to \<open>int64\<close>, are the record \<open>go_math\<close>.
\<close>

section \<open>Data\<close>

record go_math =
  math_Sin :: "f64 \<Rightarrow> f64"
  math_Cos :: "f64 \<Rightarrow> f64"
  math_Atan2 :: "f64 \<Rightarrow> f64 \<Rightarrow> f64"
  math_Sqrt :: "f64 \<Rightarrow> f64"
  int64_oob :: "f64 \<Rightarrow> int64"

definition math_Pi :: f64 where
  "math_Pi = Num (884279719003555 / 281474976710656)"

record discount =
  di_Code :: string
  di_Amount :: money

record quote =
  q_BaseFare :: money
  q_DistanceFare :: money
  q_SizeModifier :: money
  q_SlotPremium :: money
  q_Discounts :: "discount list"
  q_Subtotal :: money
  q_Total :: money
  q_DistanceMeters :: f64
  q_Currency :: string

record pricing_config =
  pc_Currency :: string
  pc_BaseFareMinor :: int64
  pc_PerKmMinor :: int64
  pc_OversizeFlatMinor :: int64
  pc_OversizeWeightKg :: f64
  pc_SlotPremiumMinor :: int64
  pc_EveningStart :: int
  pc_EveningEnd :: int

definition pricing_Default :: pricing_config where
  "pricing_Default =
     \<lparr>pc_Currency = ''RON'', pc_BaseFareMinor = 800, pc_PerKmMinor = 200, pc_OversizeFlatMinor = 300,
      pc_OversizeWeightKg = f_const 5, pc_SlotPremiumMinor = 200, pc_EveningStart = 18,
      pc_EveningEnd = 22\<rparr>"

record coord =
  co_Lat :: f64
  co_Lng :: f64

record pricing_request =
  pq_Pickup :: coord
  pq_Drop :: coord
  pq_WeightKg :: f64
  pq_SlotStart :: "gotime option"
  pq_DiscountCode :: string

section \<open>Operations\<close>

definition haversineMeters :: "go_math \<Rightarrow> coord \<Rightarrow> coord \<Rightarrow> f64" where
  "haversineMeters M a b =
     (let R = f_const 6371000;
          rad = (\<lambda>x. f_div (f_mul x math_Pi) (f_int 180));
          lat1 = rad (co_Lat a);
          lat2 = rad (co_Lat b);
          dLat = rad (f_sub (co_Lat b) (co_Lat a));
          dLng = rad (f_sub (co_Lng b) (co_Lng a));
          sLat = math_Sin M (f_div dLat (f_int 2));
          sLng = math_Sin M (f_div dLng (f_int 2));
          h = f_add (f_mul sLat sLat)
                (f_mul (f_mul (f_mul (math_Cos M lat1) (math_Cos M lat2)) sLng) sLng);
          c = f_mul (f_int 2) (math_Atan2 M (math_Sqrt M h) (math_Sqrt M (f_sub (f_int 1) h)))
      in f_mul R c)"

definition isEveningSlot :: "pricing_config \<Rightarrow> gotime \<Rightarrow> bool" where
  "isEveningSlot cfg t = (let h = time_Hour t in h \<ge> pc_EveningStart cfg \<and> h < pc_EveningEnd cfg)"

definition lookupDiscount :: "pricing_config \<Rightarrow> string \<Rightarrow> int64 \<Rightarrow> discount option" where
  "lookupDiscount cfg code subtotal =
     (if code = ''WELCOME''
      then Some \<lparr>di_Code = ''WELCOME'', di_Amount = \<lparr>mo_Currency = pc_Currency cfg, mo_Minor = 500\<rparr>\<rparr>
      else if code = ''FIRST_FREE''
      then Some \<lparr>di_Code = ''FIRST_FREE'', di_Amount = \<lparr>mo_Currency = pc_Currency cfg, mo_Minor = subtotal\<rparr>\<rparr>
      else None)"

definition distance_minor :: "go_math \<Rightarrow> pricing_config \<Rightarrow> f64 \<Rightarrow> int64" where
  "distance_minor M cfg meters =
     f_to_int64 (int64_oob M)
       (f_Round (f_mul (f_div meters (f_int 1000)) (f_int (sint (pc_PerKmMinor cfg)))))"

definition Quote :: "go_math \<Rightarrow> pricing_config \<Rightarrow> pricing_request \<Rightarrow> quote" where
  "Quote M cfg r =
     (let meters = haversineMeters M (pq_Pickup r) (pq_Drop r);
          money = (\<lambda>m. \<lparr>mo_Currency = pc_Currency cfg, mo_Minor = m\<rparr>);
          base = pc_BaseFareMinor cfg;
          distance = distance_minor M cfg meters;
          size = (if f_lt (pc_OversizeWeightKg cfg) (pq_WeightKg r) then pc_OversizeFlatMinor cfg else 0);
          slot = (case pq_SlotStart r of
                    Some t \<Rightarrow> if isEveningSlot cfg t then pc_SlotPremiumMinor cfg else 0
                  | None \<Rightarrow> 0);
          subtotal = base + distance + size + slot;
          (discounts, total) =
            (if pq_DiscountCode r \<noteq> [] then
               (case lookupDiscount cfg (pq_DiscountCode r) subtotal of
                  Some d \<Rightarrow>
                    (let t = subtotal - mo_Minor (di_Amount d)
                     in ([d], if t <s 0 then 0 else t))
                | None \<Rightarrow> ([], subtotal))
             else ([], subtotal))
      in \<lparr>q_BaseFare = money base, q_DistanceFare = money distance, q_SizeModifier = money size,
          q_SlotPremium = money slot, q_Discounts = discounts, q_Subtotal = money subtotal,
          q_Total = money total, q_DistanceMeters = meters, q_Currency = pc_Currency cfg\<rparr>)"

section \<open>Signs: the distance does not depend on the direction\<close>

lemma f_neg_neg [simp]: "f_neg (f_neg x) = x"
  by (cases x) auto

lemma f_neg_simps [simp]:
  "f_nan (f_neg x) = f_nan x" "f_rank (f_neg x) = - f_rank x" "f_val (f_neg x) = - f_val x"
  "f_is_zero (f_neg x) = f_is_zero x"
  by (cases x; auto simp: f_nan_def f_is_zero_def)+

lemma f_neg_sign_neg: "\<not> f_nan x \<Longrightarrow> f_neg_sign (f_neg x) = (\<not> f_neg_sign x)"
  by (cases x) auto

lemma f_neg_zero_inf [simp]: "f_neg (f_zero s) = f_zero (\<not> s)" "f_neg (f_inf s) = f_inf (\<not> s)"
  by (simp_all add: f_zero_def f_inf_def)

lemma f_neg_round: "f_neg (f_round s a) = f_round (\<not> s) a"
  by (auto simp: f_round_def Let_def)

lemma f_mul_commute: "f_mul a b = f_mul b a"
  by (cases "f_neg_sign a"; cases "f_neg_sign b") (auto simp: f_mul_def Let_def mult.commute)

lemma f_mul_neg: "f_mul (f_neg a) b = f_neg (f_mul a b)"
  by (cases "f_nan a \<or> f_nan b")
    (auto simp: f_mul_def Let_def f_neg_sign_neg f_neg_round)

lemma f_div_neg: "f_div (f_neg a) b = f_neg (f_div a b)"
  by (cases "f_nan a \<or> f_nan b")
    (auto simp: f_div_def Let_def f_neg_sign_neg f_neg_round)

lemma f_sub_swap: "f_sub b a = f_sub a b \<or> f_sub b a = f_neg (f_sub a b)"
proof (cases "f_nan a \<or> f_nan b \<or> f_rank a \<noteq> 0 \<or> f_rank b \<noteq> 0")
  case True
  then show ?thesis
    by (cases a; cases b) (auto simp: f_sub_def f_add_def)
next
  case False
  show ?thesis
  proof (cases "f_val a = f_val b")
    case True
    then show ?thesis
      using False by (cases a; cases b) (auto simp: f_sub_def f_add_def)
  next
    case neq: False
    then have "f_sub b a = f_round (f_val b - f_val a < 0) \<bar>f_val b - f_val a\<bar>"
        "f_sub a b = f_round (f_val a - f_val b < 0) \<bar>f_val a - f_val b\<bar>"
      using False by (auto simp: f_sub_def f_add_def Let_def)
    moreover have "(f_val b - f_val a < 0) = (\<not> (f_val a - f_val b < 0))"
        "\<bar>f_val b - f_val a\<bar> = \<bar>f_val a - f_val b\<bar>"
      using neq by auto
    ultimately show ?thesis by (simp add: f_neg_round)
  qed
qed

lemma f_mul_square_sign: "y = x \<or> y = f_neg x \<Longrightarrow> f_mul y y = f_mul x x"
  using f_mul_neg [of x "f_neg x"] f_mul_neg [of x x] by (auto simp: f_mul_commute [of x "f_neg x"])

lemma f_mul_mul_sign:
  assumes "y = x \<or> y = f_neg x"
  shows "f_mul (f_mul c y) y = f_mul (f_mul c x) x"
proof -
  have r: "f_mul a (f_neg x) = f_neg (f_mul a x)" for a
    using f_mul_neg [of x a] by (simp add: f_mul_commute [of a])
  show ?thesis using assms by (auto simp: r f_mul_neg)
qed

section \<open>The default tariff\<close>

text \<open>
  No two points of the earth are further apart than half its circumference, 20,015 km; up to
  21,000 km the distance fare of the default tariff is exact and within bounds.
\<close>

lemma distance_minor_bounds:
  assumes "f_upto 21000000 meters"
  shows "0 \<le> sint (distance_minor M pricing_Default meters) \<and>
         sint (distance_minor M pricing_Default meters) \<le> 4200000"
proof -
  have "f_upto 21000 (f_div meters (Num 1000))"
    by (rule f_upto_div [OF assms]) (simp, code_simp)
  then have "f_upto 4200000 (f_mul (f_div meters (Num 1000)) (Num 200))"
    by (rule f_upto_mul [where q = 200]) (simp add: f_upto_def, code_simp)
  then have "f_upto (of_int 4200000) (f_Round (f_mul (f_div meters (Num 1000)) (Num 200)))"
    using f_upto_Round [of 4200000] by simp
  then show ?thesis
    using f_upto_to_int64 [of 4200000]
    by (simp add: distance_minor_def pricing_Default_def f_int_exact)
qed

section \<open>Properties\<close>

text \<open>
  C34: With the default tariff and a distance of at most 21 000 km no sum wraps around: the
  subtotal is base plus distance fare plus surcharges, the distance fare is between 0 and 42 000
  RON, and the total follows from the discount code.
\<close>

theorem Quote_default_total:
  fixes r :: pricing_request
  assumes "f_upto 21000000 (haversineMeters M (pq_Pickup r) (pq_Drop r))"
  defines "q \<equiv> Quote M pricing_Default r"
  shows "sint (mo_Minor (q_Subtotal q)) =
      800 + sint (mo_Minor (q_DistanceFare q)) + (if f_lt (f_const 5) (pq_WeightKg r) then 300 else 0)
      + (case pq_SlotStart r of Some t \<Rightarrow> if 18 \<le> time_Hour t \<and> time_Hour t < 22 then 200 else 0 | None \<Rightarrow> 0) \<and>
    0 \<le> sint (mo_Minor (q_DistanceFare q)) \<and> sint (mo_Minor (q_DistanceFare q)) \<le> 4200000 \<and>
    sint (mo_Minor (q_Total q)) =
      (if pq_DiscountCode r = ''FIRST_FREE'' then 0
       else if pq_DiscountCode r = ''WELCOME'' then sint (mo_Minor (q_Subtotal q)) - 500
       else sint (mo_Minor (q_Subtotal q)))"
proof -
  let ?d = "distance_minor M pricing_Default (haversineMeters M (pq_Pickup r) (pq_Drop r))"
  define size where "size = (if f_lt (f_const 5) (pq_WeightKg r) then 300 else 0 :: int64)"
  define slot :: int64 where "slot = (case pq_SlotStart r of
    Some t \<Rightarrow> if 18 \<le> time_Hour t \<and> time_Hour t < 22 then 200 else 0 | None \<Rightarrow> 0)"
  have d: "0 \<le> sint ?d" "sint ?d \<le> 4200000" using distance_minor_bounds [OF assms(1)] by auto
  have z: "sint size = (if f_lt (f_const 5) (pq_WeightKg r) then 300 else 0)" by (simp add: size_def)
  have t: "sint slot = (case pq_SlotStart r of
      Some t \<Rightarrow> if 18 \<le> time_Hour t \<and> time_Hour t < 22 then 200 else 0 | None \<Rightarrow> 0)"
    by (simp add: slot_def split: option.split)
  have zt: "0 \<le> sint size \<and> sint size \<le> 300" "0 \<le> sint slot \<and> sint slot \<le> 200"
    unfolding z t by (auto split: option.split)
  have s1: "sint (800 + ?d) = 800 + sint ?d"
    using d by (subst sint_add_int64) (simp_all add: int64_range_def)
  have s2: "sint (800 + ?d + size) = 800 + sint ?d + sint size"
    using d zt s1 by (subst sint_add_int64) (simp_all add: int64_range_def)
  have s3: "sint (800 + ?d + size + slot) = 800 + sint ?d + sint size + sint slot"
    using d zt s2 by (subst sint_add_int64) (simp_all add: int64_range_def)
  have s4: "sint (800 + ?d + size + slot - 500) = 300 + sint ?d + sint size + sint slot"
    using d zt s3 by (subst sint_diff_int64) (simp_all add: int64_range_def)
  have nn: "\<not> 800 + ?d + size + slot - 500 <s 0"
    using s4 d zt by (simp add: word_sless_alt)
  have q: "q_Subtotal q = \<lparr>mo_Currency = ''RON'', mo_Minor = 800 + ?d + size + slot\<rparr>"
    "q_DistanceFare q = \<lparr>mo_Currency = ''RON'', mo_Minor = ?d\<rparr>"
    "mo_Minor (q_Total q) =
      (if pq_DiscountCode r = ''FIRST_FREE'' then 0
       else if pq_DiscountCode r = ''WELCOME'' then 800 + ?d + size + slot - 500
       else 800 + ?d + size + slot)"
    using nn by (auto simp: q_def Quote_def Let_def size_def slot_def lookupDiscount_def isEveningSlot_def
        pricing_Default_def cong: if_cong option.case_cong)
  show ?thesis
    using d s3 s4 by (simp add: q z t)
qed

theorem haversineMeters_symmetric:
  assumes odd: "\<forall>x. math_Sin M (f_neg x) = f_neg (math_Sin M x)"
  shows "haversineMeters M a b = haversineMeters M b a"
proof -
  let ?half = "\<lambda>x. math_Sin M (f_div (f_div (f_mul x math_Pi) (f_int 180)) (f_int 2))"
  have half: "?half (f_sub y x) = ?half (f_sub x y) \<or> ?half (f_sub y x) = f_neg (?half (f_sub x y))"
    for x y
    using f_sub_swap [of y x] odd by (auto simp: f_mul_neg f_div_neg)
  show ?thesis
    unfolding haversineMeters_def Let_def
    using f_mul_square_sign [OF half [of "co_Lat b" "co_Lat a"]]
      f_mul_mul_sign [OF half [of "co_Lng b" "co_Lng a"]]
    by (simp add: f_mul_commute [of "math_Cos M (f_div (f_mul (co_Lat a) math_Pi) (f_int 180))"])
qed

end
