(* ===== verification/GoFmt.thy ===== *)
theory GoFmt
  imports GoRuntime
begin

text \<open>
  The text of values: \<open>uuid.String\<close>, \<open>time.Duration.String\<close>, the verbs of \<open>fmt\<close> the program uses
  (\<open>%s\<close>, \<open>%d\<close>, \<open>%w\<close>, \<open>%.2f\<close>), and the \<open>Error\<close> method of every error.
\<close>

section \<open>Identifiers\<close>

text \<open>\<open>uuid.String\<close>: 32 hexadecimal digits in groups of 8, 4, 4, 4 and 12.\<close>

definition uuid_hex :: "uuid \<Rightarrow> string" where
  "uuid_hex u = map (\<lambda>i. hex_digit (unat u div 16 ^ (31 - i) mod 16)) [0..<32]"

lemma uuid_hex_code [code]:
  "uuid_hex u = map (\<lambda>i. hex_digit (nat (uint u div 16 ^ (31 - i) mod 16))) [0..<32]"
  using nat_div_mod [of "unat u" "16 ^ k" 16 for k] by (simp add: uuid_hex_def)

definition uuid_String :: "uuid \<Rightarrow> string" where
  "uuid_String u =
     (let h = uuid_hex u
      in take 8 h @ ''-'' @ take 4 (drop 8 h) @ ''-'' @ take 4 (drop 12 h) @ ''-'' @
         take 4 (drop 16 h) @ ''-'' @ drop 20 h)"

lemma digits16_inj:
  "\<forall>k<m. n div 16 ^ k mod 16 = n' div 16 ^ k mod (16 :: nat) \<Longrightarrow> n mod 16 ^ m = n' mod 16 ^ m"
proof (induction m)
  case (Suc m)
  have "n mod 16 ^ m = n' mod 16 ^ m" using Suc by simp
  moreover have "n div 16 ^ m mod 16 = n' div 16 ^ m mod 16" using Suc.prems by simp
  ultimately show ?case
    using mod_mult2_eq [of n "16 ^ m" 16] mod_mult2_eq [of n' "16 ^ m" 16]
    by (simp add: mult.commute)
qed simp

lemma length_uuid_hex [simp]: "length (uuid_hex u) = 32"
  by (simp add: uuid_hex_def)

lemma uuid_hex_inj:
  assumes "uuid_hex u = uuid_hex v"
  shows "u = v"
proof -
  have same: "unat u div 16 ^ (31 - i) mod 16 = unat v div 16 ^ (31 - i) mod 16" if "i < 32" for i
  proof (rule hex_digit_inj)
    have "uuid_hex u ! i = uuid_hex v ! i" by (simp only: assms)
    with that show "hex_digit (unat u div 16 ^ (31 - i) mod 16) = hex_digit (unat v div 16 ^ (31 - i) mod 16)"
      by (simp add: uuid_hex_def del: upt_Suc)
  qed simp_all
  have "\<forall>k<32. unat u div 16 ^ k mod 16 = unat v div 16 ^ k mod 16"
  proof (intro allI impI)
    fix k :: nat
    assume "k < 32"
    then have "31 - k < 32" "31 - (31 - k) = k" by auto
    with same show "unat u div 16 ^ k mod 16 = unat v div 16 ^ k mod 16" by metis
  qed
  then have "unat u mod 16 ^ 32 = unat v mod 16 ^ 32" by (rule digits16_inj)
  moreover have "unat u < 16 ^ 32" "unat v < 16 ^ 32"
    using unsigned_less [of u] unsigned_less [of v] by simp_all
  ultimately show ?thesis by (simp add: word_unat_eq_iff)
qed

lemma uuid_groups:
  "take 8 h @ take 4 (drop 8 h) @ take 4 (drop 12 h) @ take 4 (drop 16 h) @ drop 20 h = h"
  using append_take_drop_id [of 8 h] append_take_drop_id [of 4 "drop 8 h"]
    append_take_drop_id [of 4 "drop 12 h"] append_take_drop_id [of 4 "drop 16 h"]
  by (simp only: drop_drop) simp

theorem uuid_String_inj:
  "uuid_String u = uuid_String v \<longleftrightarrow> u = v"
proof
  assume e: "uuid_String u = uuid_String v"
  let ?h = "uuid_hex u" and ?k = "uuid_hex v"
  have len: "length ?h = 32" "length ?k = 32" by simp_all
  have "take 8 ?h = take 8 ?k \<and> take 4 (drop 8 ?h) = take 4 (drop 8 ?k) \<and>
      take 4 (drop 12 ?h) = take 4 (drop 12 ?k) \<and> take 4 (drop 16 ?h) = take 4 (drop 16 ?k) \<and>
      drop 20 ?h = drop 20 ?k"
    using e unfolding uuid_String_def Let_def by (simp add: append_eq_append_conv)
  then have "?h = ?k" using uuid_groups [of ?h] uuid_groups [of ?k] by metis
  then show "u = v" by (rule uuid_hex_inj)
qed simp

section \<open>Durations\<close>

text \<open>
  \<open>fmtFrac\<close> takes the last digits off a number, as a fraction without its trailing zeros. The
  magnitude of the smallest duration is \<open>2 ^ 63\<close>, in Go an unsigned number. The unit of microseconds
  is written with the micro sign, two bytes in UTF-8.
\<close>

fun fmtFrac :: "nat \<Rightarrow> int \<Rightarrow> bool \<Rightarrow> string \<Rightarrow> int \<times> string" where
  "fmtFrac 0 v print buf = (v, if print then CHR ''.'' # buf else buf)"
| "fmtFrac (Suc prec) v print buf =
     (let digit = v mod 10; print = print \<or> digit \<noteq> 0
      in fmtFrac prec (v div 10) print (if print then char_of (nat (48 + digit)) # buf else buf))"

definition duration_magnitude :: "int \<Rightarrow> string" where
  "duration_magnitude u =
     (if u = 0 then ''0s''
      else if u < 1000 then fmt_d u @ ''ns''
      else if u < 1000000 then case fmtFrac 3 u False [] of (v, fr) \<Rightarrow> fmt_d v @ fr @ [CHR 0xC2, CHR 0xB5] @ ''s''
      else if u < 1000000000 then case fmtFrac 6 u False [] of (v, fr) \<Rightarrow> fmt_d v @ fr @ ''ms''
      else case fmtFrac 9 u False [] of (v, fr) \<Rightarrow>
        let secs = fmt_d (v mod 60) @ fr @ ''s'';
            mins = v div 60;
            hours = mins div 60
        in if mins = 0 then secs
           else (if hours = 0 then [] else fmt_d hours @ ''h'') @ fmt_d (mins mod 60) @ ''m'' @ secs)"

definition duration_String :: "int64 \<Rightarrow> string" where
  "duration_String d = (if d <s 0 then ''-'' else []) @ duration_magnitude \<bar>sint d\<bar>"

section \<open>Formats\<close>

text \<open>\<open>%.2f\<close> rounds the exact value to hundredths, ties to even.\<close>

definition fmt_2f :: "f64 \<Rightarrow> string" where
  "fmt_2f x =
     (case x of
        NaN \<Rightarrow> ''NaN''
      | PosInf \<Rightarrow> ''+Inf''
      | NegInf \<Rightarrow> ''-Inf''
      | _ \<Rightarrow>
          (let n = round_half_even (\<bar>f_val x\<bar> * 100)
           in (if f_neg_sign x then ''-'' else []) @ fmt_d (n div 100) @ ''.'' @
              fmt_d (n mod 100 div 10) @ fmt_d (n mod 10)))"

text \<open>
  The arguments are all of the type their verb asks for, so an argument is printed by its type, and a
  verb is what follows the percent sign.
\<close>

fun fmt_arg :: "fmtarg \<Rightarrow> string" where
  "fmt_arg (FStr s) = s"
| "fmt_arg (FInt i) = fmt_d i"
| "fmt_arg (FUuid u) = uuid_String u"
| "fmt_arg (FDuration d) = duration_String d"
| "fmt_arg (FFloat x) = fmt_2f x"

definition after_verb :: "string \<Rightarrow> string" where
  "after_verb s = (if take 3 s = ''.2f'' then drop 3 s else drop 1 s)"

lemma length_after_verb [termination_simp]: "length (after_verb s) < Suc (length s)"
  by (auto simp: after_verb_def)

fun format :: "string \<Rightarrow> string list \<Rightarrow> string" where
  "format [] args = []"
| "format (c # s) args =
     (if c = CHR ''%''
      then (case args of [] \<Rightarrow> c # format s [] | a # args' \<Rightarrow> a @ format (after_verb s) args')
      else c # format s args)"

definition Sprintf :: "string \<Rightarrow> fmtarg list \<Rightarrow> string" where
  "Sprintf f args = format f (map fmt_arg args)"

lemma format_no_args [simp]: "format f [] = f"
  by (induction f) simp_all

section \<open>Error messages\<close>

text \<open>\<open>%w\<close> comes last in every format.\<close>

fun error_text :: "goerror \<Rightarrow> string" where
  "error_text (Errorf f args) = Sprintf f args"
| "error_text (Wrapf f args e) = format f (map fmt_arg args @ [error_text e])"
| "error_text (ChainBrokenError n r) = format ''custody: chain broken at index %d: %s'' [dec_digits n, r]"
| "error_text (TamperedError n i) = format ''custody: tampered event at index %d (%s)'' [dec_digits n, uuid_String i]"
| "error_text (TransportError e) = ''bolt transport: '' @ error_text e"
| "error_text (HttpError st b) = format ''bolt http %d: %s'' [fmt_d st, b]"
| "error_text (WrappedErr e msg) = msg @ '': '' @ error_text e"
| "error_text (External s) = s"

lemma error_text_New [simp]: "error_text (errors_New msg) = msg"
  by (simp add: errors_New_def Sprintf_def)

end
