(* ===== verification/Booking.thy ===== *)
theory Booking
  imports Stores Pricing GoFmt
begin

text \<open>
  \<open>internal/app/booking\<close>: \<^term>\<open>CreateBooking\<close> and \<^term>\<open>GetBooking\<close> over the two
  repositories of the service's \<open>Deps\<close>. The record \<open>booking_env\<close> holds what the call draws from
  outside: random bytes, new identifiers and one reading of the clock per use.
\<close>

section \<open>Data\<close>

record 's booking_deps =
  bk_AWBs :: "'s awb_repo"
  bk_Deliveries :: "'s delivery_repo"
  bk_Pricing :: pricing_config
  bk_math :: go_math

record booking_input =
  in_RetailerID :: uuid
  in_ExternalAWB :: string
  in_ExternalCarrier :: string
  in_CustomerPhone :: string
  in_CustomerName :: string
  in_PickupLockerID :: string
  in_PickupLat :: f64
  in_PickupLng :: f64
  in_PickupAddress :: string
  in_DropLat :: f64
  in_DropLng :: f64
  in_DropAddress :: string
  in_DropFloor :: string
  in_DropApartment :: string
  in_DropInstructions :: string
  in_WeightKg :: f64
  in_SlotStart :: gotime
  in_SlotEnd :: gotime
  in_LastMileCarrier :: string

record booking_result =
  bkr_AWBID :: uuid
  bkr_InternalAWB :: string
  bkr_DeliveryID :: uuid
  bkr_QuotedPriceMinor :: int64
  bkr_Currency :: string
  bkr_State :: string

record booking_env =
  bv_awbID :: uuid
  bv_deliveryID :: uuid
  bv_rand :: "goerror + byte list"
  bv_now_awb :: gotime
  bv_now_attach :: gotime
  bv_now_state :: gotime
  bv_now_delivery :: gotime
  bv_now_check :: gotime
  bv_now_schedule :: gotime

section \<open>Operations\<close>

definition booking_package :: "booking_input \<Rightarrow> awb_package" where
  "booking_package i =
     \<lparr>p_WeightKg = (if f_le (in_WeightKg i) (Num 0) then f_int 1 else in_WeightKg i),
      p_LengthCm = Num 0, p_WidthCm = Num 0, p_HeightCm = Num 0,
      p_DeclaredValueMinor = 0, p_DeclaredValueCcy = [], p_Description = [], p_Fragile = False\<rparr>"

definition booking_pickup :: "booking_input \<Rightarrow> location" where
  "booking_pickup i =
     \<lparr>l_Type = LocationLocker, l_Lat = in_PickupLat i, l_Lng = in_PickupLng i,
      l_Address = in_PickupAddress i, l_LockerID = in_PickupLockerID i, l_HubID = [],
      l_Floor = [], l_Apartment = [], l_Instructions = []\<rparr>"

definition booking_drop :: "booking_input \<Rightarrow> location" where
  "booking_drop i =
     \<lparr>l_Type = LocationAddress, l_Lat = in_DropLat i, l_Lng = in_DropLng i,
      l_Address = in_DropAddress i, l_LockerID = [], l_HubID = [],
      l_Floor = in_DropFloor i, l_Apartment = in_DropApartment i,
      l_Instructions = in_DropInstructions i\<rparr>"

definition booking_quote :: "'s booking_deps \<Rightarrow> booking_input \<Rightarrow> quote" where
  "booking_quote deps i =
     Quote (bk_math deps) (bk_Pricing deps)
       \<lparr>pq_Pickup = \<lparr>co_Lat = in_PickupLat i, co_Lng = in_PickupLng i\<rparr>,
        pq_Drop = \<lparr>co_Lat = in_DropLat i, co_Lng = in_DropLng i\<rparr>,
        pq_WeightKg = in_WeightKg i, pq_SlotStart = Some (in_SlotStart i), pq_DiscountCode = []\<rparr>"

text \<open>The parcel and the delivery of a booking, before anything is stored.\<close>

definition booking_awb :: "booking_env \<Rightarrow> booking_input \<Rightarrow> goerror + awb" where
  "booking_awb env i =
     (case awb_New (bv_now_awb env) (bv_rand env) (bv_awbID env) (in_RetailerID i) (booking_package i) of
        Inl err \<Rightarrow> Inl err
      | Inr a \<Rightarrow>
          (let a1 = (if in_ExternalAWB i \<noteq> []
                     then AttachExternal (bv_now_attach env) a (in_ExternalCarrier i) (in_ExternalAWB i) AwbRoleMidMile
                     else a)
           in awb_Transition (bv_now_state env) a1 AwbAtLocker ''customer_requested_concierge''))"

definition booking_delivery ::
  "'s booking_deps \<Rightarrow> booking_env \<Rightarrow> booking_input \<Rightarrow> awb \<Rightarrow> goerror + delivery" where
  "booking_delivery deps env i a =
     (let carrierID = (if in_LastMileCarrier i = [] then ''bolt_food'' else in_LastMileCarrier i)
      in case delivery_New (bv_deliveryID env) (bv_now_delivery env) (a_ID a) 1 carrierID ''v1''
                (booking_pickup i) (booking_drop i) of
           Inl err \<Rightarrow> Inl err
         | Inr d \<Rightarrow>
             (case Schedule (bv_now_check env) (bv_now_schedule env) d (in_SlotStart i) (in_SlotEnd i) of
                Inl err \<Rightarrow> Inl err
              | Inr d1 \<Rightarrow>
                  (let q = booking_quote deps i
                   in Inr (d1\<lparr>d_IdempotencyKey := uuid_String (d_ID d1),
                              d_PriceQuotedMinor := mo_Minor (q_Total q),
                              d_PriceCurrency := q_Currency q\<rparr>))))"

definition CreateBooking ::
  "'s booking_deps \<Rightarrow> booking_env \<Rightarrow> booking_input \<Rightarrow> 's \<Rightarrow> (goerror + booking_result) \<times> 's" where
  "CreateBooking deps env i s =
     (if time_Before (in_SlotEnd i) (in_SlotStart i) then (Inl (Errorf ''booking: invalid slot'' []), s)
      else case booking_awb env i of
        Inl err \<Rightarrow> (Inl err, s)
      | Inr a \<Rightarrow>
          (case booking_delivery deps env i a of
             Inl err \<Rightarrow> (Inl err, s)
           | Inr d \<Rightarrow>
               (case ar_Save (bk_AWBs deps) a s of
                  (Some err, s1) \<Rightarrow> (Inl err, s1)
                | (None, s1) \<Rightarrow>
                    (case dr_Save (bk_Deliveries deps) d s1 of
                       (Some err, s2) \<Rightarrow> (Inl err, s2)
                     | (None, s2) \<Rightarrow>
                         (Inr \<lparr>bkr_AWBID = a_ID a, bkr_InternalAWB = a_InternalAWB a,
                               bkr_DeliveryID = d_ID d, bkr_QuotedPriceMinor = d_PriceQuotedMinor d,
                               bkr_Currency = d_PriceCurrency d,
                               bkr_State = state_string (d_State d)\<rparr>, s2)))))"

definition GetBooking :: "'s booking_deps \<Rightarrow> uuid \<Rightarrow> 's \<Rightarrow> goerror + delivery \<times> awb" where
  "GetBooking deps deliveryID s =
     (case dr_GetByID (bk_Deliveries deps) deliveryID s of
        Inl err \<Rightarrow> Inl err
      | Inr d \<Rightarrow>
          (case ar_GetByID (bk_AWBs deps) (d_AWBID d) s of
             Inl err \<Rightarrow> Inl err
           | Inr a \<Rightarrow> Inr (d, a)))"

section \<open>Facts\<close>

lemma booking_awb_ok:
  assumes "booking_awb env i = Inr a"
  shows "a_ID a = bv_awbID env \<and> a_RetailerID a = in_RetailerID i \<and> a_State a = AwbAtLocker \<and>
    a_StateReason a = ''customer_requested_concierge'' \<and>
    a_Package a = booking_package i \<and> validatePackage (a_Package a) = None \<and>
    awb_tracking a = (if in_ExternalAWB i = [] then [] else [(in_ExternalCarrier i, in_ExternalAWB i)]) \<and>
    generateInternalAWB (bv_rand env) (time_UTC (bv_now_awb env)) = Inr (a_InternalAWB a)"
proof -
  from assms obtain a0 where
    a0: "awb_New (bv_now_awb env) (bv_rand env) (bv_awbID env) (in_RetailerID i) (booking_package i) = Inr a0"
    by (auto simp: booking_awb_def split: sum.splits)
  define a1 where "a1 = (if in_ExternalAWB i \<noteq> []
      then AttachExternal (bv_now_attach env) a0 (in_ExternalCarrier i) (in_ExternalAWB i) AwbRoleMidMile else a0)"
  have keep: "a_ID a1 = a_ID a0 \<and> a_RetailerID a1 = a_RetailerID a0 \<and> a_State a1 = a_State a0 \<and>
      a_Package a1 = a_Package a0 \<and> a_InternalAWB a1 = a_InternalAWB a0"
    by (simp add: a1_def AttachExternal_def)
  have "awb_tracking a0 = []" using awb_New_cases [OF a0] by (simp add: awb_tracking_def)
  then have tr: "awb_tracking a1 =
      (if in_ExternalAWB i = [] then [] else [(in_ExternalCarrier i, in_ExternalAWB i)])"
    by (simp add: a1_def awb_tracking_attach)
  have "awb_Transition (bv_now_state env) a1 AwbAtLocker ''customer_requested_concierge'' = Inr a"
    using assms a0 by (simp add: booking_awb_def Let_def a1_def)
  then have "a = a1\<lparr>a_State := AwbAtLocker, a_StateReason := ''customer_requested_concierge'',
      a_UpdatedAt := time_UTC (bv_now_state env)\<rparr>"
    by (simp add: awb_Transition_cases)
  then show ?thesis using keep tr awb_New_cases [OF a0] by (simp add: awb_tracking_def)
qed

lemma CreateBooking_cases:
  assumes "CreateBooking deps env i s = (r, s')"
  obtains (refused) err where "r = Inl err" "s' = s"
  | (unsaved) a err where "booking_awb env i = Inr a" "r = Inl err" "ar_Save (bk_AWBs deps) a s = (Some err, s')"
  | (saved) a d s1 q where "booking_awb env i = Inr a" "booking_delivery deps env i a = Inr d"
      "ar_Save (bk_AWBs deps) a s = (None, s1)" "dr_Save (bk_Deliveries deps) d s1 = (q, s')"
      "r = (case q of Some err \<Rightarrow> Inl err | None \<Rightarrow>
         Inr \<lparr>bkr_AWBID = a_ID a, bkr_InternalAWB = a_InternalAWB a, bkr_DeliveryID = d_ID d,
          bkr_QuotedPriceMinor = d_PriceQuotedMinor d, bkr_Currency = d_PriceCurrency d,
          bkr_State = state_string (d_State d)\<rparr>)"
  using assms
  by (auto simp: CreateBooking_def split: if_splits sum.splits prod.splits option.splits)

lemma booking_delivery_ok:
  assumes "booking_delivery deps env i a = Inr d"
  shows "d_ID d = bv_deliveryID env \<and> d_AWBID d = a_ID a \<and> d_State d = StatePending \<and>
    d_LegNumber d = 1 \<and> d_CarrierExternalID d = [] \<and> d_IdempotencyKey d = uuid_String (bv_deliveryID env) \<and>
    d_PriceQuotedMinor d = mo_Minor (q_Total (booking_quote deps i)) \<and>
    d_PriceCurrency d = q_Currency (booking_quote deps i) \<and>
    d_Pickup d = booking_pickup i \<and> d_Drop d = booking_drop i \<and> d_Rider d = None \<and>
    d_ScheduledWindowStart d = Some (in_SlotStart i) \<and> d_ScheduledWindowEnd d = Some (in_SlotEnd i) \<and>
    time_Before (in_SlotStart i) (in_SlotEnd i) \<and>
    \<not> time_Before (in_SlotStart i) (bv_now_check env) \<and>
    d_CarrierID d = (if in_LastMileCarrier i = [] then ''bolt_food'' else in_LastMileCarrier i)"
  using assms
  by (auto simp: booking_delivery_def delivery_New_def Schedule_def Let_def time_Before_def
      split: sum.splits if_splits)

section \<open>On any storage\<close>

context app_store
begin

lemma create_booking:
  assumes "inv s" "dels s (bv_deliveryID env) = None" "CreateBooking deps env i s = (r, s')"
    "bk_AWBs deps = awb_rp" "bk_Deliveries deps = del_rp"
  shows "inv s' \<and> chain s' = chain s \<and>
    (case r of
       Inl err \<Rightarrow> dels s' = dels s \<and>
         (awbs s' = awbs s \<or> (\<exists>a a'. booking_awb env i = Inr a \<and> same_awb a a' \<and> awbs s' = (awbs s)(a_ID a \<mapsto> a')))
     | Inr res \<Rightarrow> \<exists>a d a' d'. booking_awb env i = Inr a \<and> booking_delivery deps env i a = Inr d \<and>
         same_awb a a' \<and> same_delivery d d' \<and>
         awbs s' = (awbs s)(a_ID a \<mapsto> a') \<and> dels s' = (dels s)(d_ID d \<mapsto> d') \<and>
         res = \<lparr>bkr_AWBID = a_ID a, bkr_InternalAWB = a_InternalAWB a, bkr_DeliveryID = d_ID d,
                bkr_QuotedPriceMinor = d_PriceQuotedMinor d, bkr_Currency = d_PriceCurrency d,
                bkr_State = state_string (d_State d)\<rparr>)"
  using assms(3)
proof (cases rule: CreateBooking_cases)
  case (refused err)
  with assms(1) show ?thesis by simp
next
  case (unsaved a err)
  note saved = awb_saved [OF assms(1) _ unsaved(3) [unfolded assms(4)]]
  have "awb_storable a" using booking_awb_ok [OF unsaved(1)] by (simp add: awb_storable_def)
  from saved [OF this] unsaved(2) show ?thesis by simp
next
  case (saved a d s1 q)
  have "awb_storable a" using booking_awb_ok [OF saved(1)] by (simp add: awb_storable_def)
  from awb_saved [OF assms(1) this saved(3) [unfolded assms(4)]]
  obtain a' where a': "same_awb a a'" "awbs s1 = (awbs s)(a_ID a \<mapsto> a')"
    and f1: "inv s1" "dels s1 = dels s" "chain s1 = chain s" by auto
  have "delivery_storable (dels s1) d"
    using booking_delivery_ok [OF saved(2)] f1 assms(2) by (simp add: delivery_storable_def booking_pickup_def)
  from del_saved [OF f1(1) this saved(4) [unfolded assms(5)]] f1 a' saved(1,2,5) show ?thesis
    by (cases q) auto
qed

lemma create_booking_inv:
  assumes "inv s" "app_inv H awbs dels chain s" "dels s (bv_deliveryID env) = None"
    "CreateBooking deps env i s = (r, s')" "bk_AWBs deps = awb_rp" "bk_Deliveries deps = del_rp"
  shows "app_inv H awbs dels chain s'"
proof -
  note cb = create_booking [OF assms(1,3-6)]
  have ok: "awb_ok (a_ID a) a'" if "booking_awb env i = Inr a" "same_awb a a'" for a a'
    using booking_awb_ok [OF that(1)] awb_ok_same [OF _ that(2)] by (auto simp: awb_ok_def)
  show ?thesis
  proof (cases r)
    case (Inl err)
    with cb consider "awbs s' = awbs s" "dels s' = dels s" "chain s' = chain s"
      | a a' where "booking_awb env i = Inr a" "same_awb a a'" "awbs s' = (awbs s)(a_ID a \<mapsto> a')"
        "dels s' = dels s" "chain s' = chain s" by auto
    then show ?thesis by cases (use assms(2) ok app_inv_same app_inv_awb in blast)+
  next
    case (Inr res)
    with cb obtain a d a' d' where a: "booking_awb env i = Inr a" "same_awb a a'"
      and d: "booking_delivery deps env i a = Inr d" "same_delivery d d'"
      and s': "awbs s' = (awbs s)(a_ID a \<mapsto> a')" "dels s' = (dels s)(d_ID d \<mapsto> d')" "chain s' = chain s"
      by auto
    have "delivery_ok awbs chain s' (d_ID d) d"
      using booking_delivery_ok [OF d(1)] s'
      by (simp add: delivery_ok_def delivery_evidence_def carried_def booking_pickup_def)
    then have "delivery_ok awbs chain s' (d_ID d) d'" by (rule delivery_ok_same [OF _ d(2)])
    then show ?thesis
      using assms(2) ok [OF a] s' by (auto simp: app_inv_def ledger_intact_def delivery_ok_def)
  qed
qed

lemma get_booking:
  assumes "inv s" "GetBooking deps i s = Inr (d, a)" "bk_AWBs deps = awb_rp" "bk_Deliveries deps = del_rp"
  shows "dels s i = Some d \<and> d_ID d = i \<and> awbs s (d_AWBID d) = Some a \<and> a_ID a = d_AWBID d"
  using assms del_get [OF assms(1)] awb_get [OF assms(1)]
  by (auto simp: GetBooking_def split: sum.splits)

end

end
