(* ===== verification/CarrierRegistry.thy ===== *)
theory CarrierRegistry
  imports Ports
begin

text \<open>
  \<open>internal/carrier/registry.go\<close>: the carrier adapters live in the process, by identifier and
  version, the version of each carrier that is primary, and the versions that are enabled.
  The three Go maps are partial functions; a lookup of an absent key gives the zero value
  (\<open>nil\<close>, \<open>false\<close>), as in Go. Each method holds the lock for its whole body, so it is one
  step. The two methods that \<open>range\<close> over a map take the order of its keys as an argument.
\<close>

section \<open>State and operations\<close>

record 'w registry =
  rg_byID :: "carrier_id \<rightharpoonup> (string \<rightharpoonup> 'w carrier_port)"
  rg_primary :: "carrier_id \<rightharpoonup> string"
  rg_enabled :: "carrier_id \<times> string \<rightharpoonup> bool"

definition NewRegistry :: "'w registry" where
  "NewRegistry = \<lparr>rg_byID = Map.empty, rg_primary = Map.empty, rg_enabled = Map.empty\<rparr>"

definition rg_adapter :: "'w registry \<Rightarrow> carrier_id \<Rightarrow> string \<Rightarrow> 'w carrier_port option" where
  "rg_adapter r cid v = (case rg_byID r cid of None \<Rightarrow> None | Some m \<Rightarrow> m v)"

definition rg_on :: "'w registry \<Rightarrow> carrier_id \<Rightarrow> string \<Rightarrow> bool" where
  "rg_on r cid v = (case rg_enabled r (cid, v) of None \<Rightarrow> False | Some b \<Rightarrow> b)"

definition Register :: "string \<Rightarrow> 'w carrier_port option \<Rightarrow> 'w registry \<Rightarrow> goerror option \<times> 'w registry" where
  "Register version adapter r =
     (case adapter of
        None \<Rightarrow> (Some (errors_New ''carrier: nil adapter''), r)
      | Some a \<Rightarrow>
          let cid = c_ID (cp_Capabilities a)
          in if cid = [] then (Some (errors_New ''carrier: missing capabilities.ID''), r)
             else let r1 = (if rg_byID r cid = None
                            then r\<lparr>rg_byID := (rg_byID r)(cid \<mapsto> Map.empty)\<rparr> else r)
                  in if rg_adapter r1 cid version \<noteq> None
                     then (Some (Errorf ''carrier: %s %s already registered'' [FStr cid, FStr version]), r1)
                     else let m = (case rg_byID r1 cid of None \<Rightarrow> Map.empty | Some m \<Rightarrow> m);
                              r2 = r1\<lparr>rg_byID := (rg_byID r1)(cid \<mapsto> m(version \<mapsto> a)),
                                      rg_enabled := (rg_enabled r1)((cid, version) \<mapsto> True)\<rparr>
                          in (None, if rg_primary r2 cid = None
                                    then r2\<lparr>rg_primary := (rg_primary r2)(cid \<mapsto> version)\<rparr> else r2))"

definition SetPrimary :: "carrier_id \<Rightarrow> string \<Rightarrow> 'w registry \<Rightarrow> goerror option \<times> 'w registry" where
  "SetPrimary cid version r =
     (if rg_adapter r cid version = None
      then (Some (Errorf ''carrier: %s %s not registered'' [FStr cid, FStr version]), r)
      else (None, r\<lparr>rg_primary := (rg_primary r)(cid \<mapsto> version)\<rparr>))"

definition SetEnabled :: "carrier_id \<Rightarrow> string \<Rightarrow> bool \<Rightarrow> 'w registry \<Rightarrow> 'w registry" where
  "SetEnabled cid version en r = r\<lparr>rg_enabled := (rg_enabled r)((cid, version) \<mapsto> en)\<rparr>"

text \<open>\<open>Get\<close> may hand out a nil adapter; \<open>rg_inv\<close> below says that it does not.\<close>

definition reg_Get :: "'w registry \<Rightarrow> carrier_id \<Rightarrow> goerror + 'w carrier_port option" where
  "reg_Get r cid =
     (case rg_primary r cid of
        None \<Rightarrow> Inl (Errorf ''carrier: %s not registered'' [FStr cid])
      | Some v \<Rightarrow>
          if \<not> rg_on r cid v then Inl (Errorf ''carrier: %s %s disabled'' [FStr cid, FStr v])
          else Inr (rg_adapter r cid v))"

definition GetVersion :: "'w registry \<Rightarrow> carrier_id \<Rightarrow> string \<Rightarrow> goerror + 'w carrier_port" where
  "GetVersion r cid version =
     (case rg_adapter r cid version of
        None \<Rightarrow> Inl (Errorf ''carrier: %s %s not registered'' [FStr cid, FStr version])
      | Some a \<Rightarrow>
          if \<not> rg_on r cid version
          then Inl (Errorf ''carrier: %s %s disabled'' [FStr cid, FStr version])
          else Inr a)"

text \<open>
  The two loops, over the keys in the order \<open>range\<close> yields them. \<open>ListByRole\<close> calls a method
  of the adapter: on a nil adapter that is a panic, the value \<open>None\<close>.
\<close>

fun ListByRole_loop :: "'w registry \<Rightarrow> carrier_role \<Rightarrow> carrier_id list \<Rightarrow> 'w carrier_port list option" where
  "ListByRole_loop r role [] = Some []"
| "ListByRole_loop r role (cid # cids) =
     (case rg_primary r cid of
        None \<Rightarrow> ListByRole_loop r role cids
      | Some version \<Rightarrow>
          if \<not> rg_on r cid version then ListByRole_loop r role cids
          else case rg_adapter r cid version of
                 None \<Rightarrow> None
               | Some a \<Rightarrow>
                   (case ListByRole_loop r role cids of
                      None \<Rightarrow> None
                    | Some rest \<Rightarrow>
                        Some (if role \<in> set (c_Roles (cp_Capabilities a)) then a # rest else rest)))"

definition ListByRole :: "'w registry \<Rightarrow> carrier_id list \<Rightarrow> carrier_role \<Rightarrow> 'w carrier_port list option" where
  "ListByRole r order role = ListByRole_loop r role order"

fun reg_All :: "'w registry \<Rightarrow> carrier_id list \<Rightarrow> 'w carrier_port option list" where
  "reg_All r [] = []"
| "reg_All r (cid # cids) =
     (case rg_primary r cid of
        None \<Rightarrow> reg_All r cids
      | Some version \<Rightarrow>
          if rg_on r cid version then rg_adapter r cid version # reg_All r cids else reg_All r cids)"

section \<open>Reachable registries and their invariant\<close>

inductive reg_reach :: "'w registry \<Rightarrow> bool" where
  new: "reg_reach NewRegistry"
| reg: "reg_reach r \<Longrightarrow> Register version adapter r = (res, r') \<Longrightarrow> reg_reach r'"
| prim: "reg_reach r \<Longrightarrow> SetPrimary cid version r = (res, r') \<Longrightarrow> reg_reach r'"
| enab: "reg_reach r \<Longrightarrow> reg_reach (SetEnabled cid version en r)"

definition rg_inv :: "'w registry \<Rightarrow> bool" where
  "rg_inv r \<longleftrightarrow>
     (\<forall>cid v a. rg_adapter r cid v = Some a \<longrightarrow> c_ID (cp_Capabilities a) = cid \<and> cid \<noteq> []) \<and>
     (\<forall>cid v. rg_primary r cid = Some v \<longrightarrow> rg_adapter r cid v \<noteq> None) \<and>
     (\<forall>cid v. rg_adapter r cid v \<noteq> None \<longrightarrow> rg_primary r cid \<noteq> None)"

lemma rg_adapter_upd [simp]:
  "rg_adapter (r\<lparr>rg_primary := p\<rparr>) = rg_adapter r"
  "rg_adapter (r\<lparr>rg_enabled := en\<rparr>) = rg_adapter r"
  "rg_on (r\<lparr>rg_primary := p\<rparr>) = rg_on r"
  "rg_on (r\<lparr>rg_byID := m\<rparr>) = rg_on r"
  "rg_on (r\<lparr>rg_enabled := (rg_enabled r)((cid, v) \<mapsto> b)\<rparr>) c w =
     (if c = cid \<and> w = v then b else rg_on r c w)"
  by (auto simp: rg_adapter_def rg_on_def fun_eq_iff)

lemma Register_error:
  "Register version adapter r = (Some err, r') \<Longrightarrow>
     rg_adapter r' = rg_adapter r \<and> rg_primary r' = rg_primary r \<and> rg_enabled r' = rg_enabled r"
  by (auto simp: Register_def Let_def rg_adapter_def fun_eq_iff split: option.splits if_splits)

text \<open>What a successful \<open>Register\<close> does, read through the lookups.\<close>

definition registered :: "'w carrier_port \<Rightarrow> string \<Rightarrow> 'w registry \<Rightarrow> 'w registry \<Rightarrow> bool" where
  "registered a version r r' \<longleftrightarrow>
     (let cid = c_ID (cp_Capabilities a)
      in cid \<noteq> [] \<and> rg_adapter r cid version = None \<and>
         rg_adapter r' = (\<lambda>c v. if c = cid \<and> v = version then Some a else rg_adapter r c v) \<and>
         rg_on r' = (\<lambda>c v. c = cid \<and> v = version \<or> rg_on r c v) \<and>
         rg_primary r' = (if rg_primary r cid = None then (rg_primary r)(cid \<mapsto> version) else rg_primary r))"

lemma Register_ok:
  assumes "Register version adapter r = (None, r')"
  shows "\<exists>a. adapter = Some a \<and> registered a version r r'"
proof -
  from assms obtain a where a: "adapter = Some a" "c_ID (cp_Capabilities a) \<noteq> []"
    by (auto simp: Register_def Let_def split: option.splits if_splits)
  let ?id = "c_ID (cp_Capabilities a)"
  have "rg_adapter r ?id version = None"
    using assms a by (auto simp: Register_def Let_def rg_adapter_def split: option.splits if_splits)
  moreover have "rg_adapter r' c v = (if c = ?id \<and> v = version then Some a else rg_adapter r c v)" for c v
    using assms a by (auto simp: Register_def Let_def rg_adapter_def split: option.splits if_splits)
  moreover have "rg_on r' c v = (c = ?id \<and> v = version \<or> rg_on r c v)" for c v
    using assms a by (auto simp: Register_def Let_def rg_on_def split: option.splits if_splits)
  moreover have "rg_primary r' =
      (if rg_primary r ?id = None then (rg_primary r)(?id \<mapsto> version) else rg_primary r)"
    using assms a by (auto simp: Register_def Let_def split: option.splits if_splits)
  ultimately have "registered a version r r'"
    using a(2) unfolding registered_def Let_def by (intro conjI ext) auto
  with a(1) show ?thesis by blast
qed

lemma rg_invD:
  assumes "rg_inv r"
  shows "rg_adapter r cid v = Some a \<Longrightarrow> c_ID (cp_Capabilities a) = cid"
    and "rg_adapter r cid v = Some a \<Longrightarrow> cid \<noteq> []"
    and "rg_primary r cid = Some v \<Longrightarrow> \<exists>a. rg_adapter r cid v = Some a"
    and "rg_adapter r cid v = Some a \<Longrightarrow> \<exists>w. rg_primary r cid = Some w"
  using assms unfolding rg_inv_def not_None_eq by blast+

lemma rg_invI:
  assumes "\<And>cid v a. rg_adapter r cid v = Some a \<Longrightarrow> c_ID (cp_Capabilities a) = cid \<and> cid \<noteq> []"
    and "\<And>cid v. rg_primary r cid = Some v \<Longrightarrow> \<exists>a. rg_adapter r cid v = Some a"
    and "\<And>cid v a. rg_adapter r cid v = Some a \<Longrightarrow> \<exists>w. rg_primary r cid = Some w"
  shows "rg_inv r"
  unfolding rg_inv_def using assms by auto

lemma registered_inv:
  assumes inv: "rg_inv r" and reg: "registered a version r r'"
  shows "rg_inv r'"
proof -
  let ?id = "c_ID (cp_Capabilities a)"
  have id: "?id \<noteq> []" and new: "rg_adapter r ?id version = None"
    and ad: "rg_adapter r' = (\<lambda>c v. if c = ?id \<and> v = version then Some a else rg_adapter r c v)"
    and pr: "rg_primary r' = (if rg_primary r ?id = None then (rg_primary r)(?id \<mapsto> version) else rg_primary r)"
    using reg by (simp_all add: registered_def Let_def)
  show ?thesis
  proof (rule rg_invI)
    show "c_ID (cp_Capabilities b) = cid \<and> cid \<noteq> []" if "rg_adapter r' cid v = Some b" for cid v b
      using that id rg_invD(1,2) [OF inv, of cid v b] by (auto simp: ad split: if_splits)
    show "\<exists>b. rg_adapter r' cid v = Some b" if "rg_primary r' cid = Some v" for cid v
      using that rg_invD(3) [OF inv, of cid v] by (auto simp: ad pr split: if_splits)
    show "\<exists>w. rg_primary r' cid = Some w" if "rg_adapter r' cid v = Some b" for cid v b
      using that rg_invD(4) [OF inv, of cid v b] by (auto simp: ad pr split: if_splits)
  qed
qed

lemma Register_inv:
  assumes "rg_inv r" "Register version adapter r = (res, r')"
  shows "rg_inv r'"
proof (cases res)
  case (Some err)
  with assms(2) have "Register version adapter r = (Some err, r')" by simp
  from Register_error [OF this] show ?thesis
    using assms(1) by (simp only: rg_inv_def)
next
  case None
  with assms(2) have "Register version adapter r = (None, r')" by simp
  from Register_ok [OF this] show ?thesis using registered_inv [OF assms(1)] by blast
qed

lemma SetPrimary_inv:
  assumes inv: "rg_inv r" and set: "SetPrimary cid version r = (res, r')"
  shows "rg_inv r'"
proof (cases "rg_adapter r cid version")
  case None
  then show ?thesis using assms by (simp add: SetPrimary_def)
next
  case (Some a)
  then have r': "r' = r\<lparr>rg_primary := (rg_primary r)(cid \<mapsto> version)\<rparr>"
    using set by (simp add: SetPrimary_def)
  show ?thesis
  proof (rule rg_invI)
    show "c_ID (cp_Capabilities b) = c \<and> c \<noteq> []" if "rg_adapter r' c v = Some b" for c v b
      using that rg_invD(1,2) [OF inv, of c v b] by (simp add: r')
    show "\<exists>b. rg_adapter r' c v = Some b" if "rg_primary r' c = Some v" for c v
      using that rg_invD(3) [OF inv, of c v] Some by (auto simp: r' split: if_splits)
    show "\<exists>w. rg_primary r' c = Some w" if "rg_adapter r' c v = Some b" for c v b
      using that rg_invD(4) [OF inv, of c v b] by (auto simp: r')
  qed
qed

lemma reg_reach_inv: "reg_reach r \<Longrightarrow> rg_inv r"
proof (induction rule: reg_reach.induct)
  case new
  then show ?case by (simp add: rg_inv_def NewRegistry_def rg_adapter_def)
next
  case (reg r version adapter res r')
  then show ?case by (blast intro: Register_inv)
next
  case (prim r cid version res r')
  then show ?case by (blast intro: SetPrimary_inv)
next
  case (enab r cid version en)
  then show ?case by (simp add: rg_inv_def SetEnabled_def)
qed

lemma ListByRole_loop_spec:
  assumes "rg_inv r" "distinct order"
  shows "\<exists>l. ListByRole_loop r role order = Some l \<and>
    set l = {a. \<exists>cid v. cid \<in> set order \<and> rg_primary r cid = Some v \<and> rg_on r cid v \<and>
                        rg_adapter r cid v = Some a \<and> role \<in> set (c_Roles (cp_Capabilities a))} \<and>
    distinct (map (\<lambda>a. c_ID (cp_Capabilities a)) l)"
  using assms(2)
proof (induction order)
  case (Cons cid cids)
  then obtain l where l: "ListByRole_loop r role cids = Some l"
    "set l = {a. \<exists>cid v. cid \<in> set cids \<and> rg_primary r cid = Some v \<and> rg_on r cid v \<and>
                        rg_adapter r cid v = Some a \<and> role \<in> set (c_Roles (cp_Capabilities a))}"
    "distinct (map (\<lambda>a. c_ID (cp_Capabilities a)) l)"
    by auto
  have own: "c_ID (cp_Capabilities a) = c" if "rg_adapter r c v = Some a" for c v a
    using assms(1) that by (simp add: rg_inv_def)
  have ids: "c_ID (cp_Capabilities a) \<in> set cids" if "a \<in> set l" for a
    using that l(2) own by auto
  show ?case
  proof (cases "rg_primary r cid")
    case None
    then show ?thesis using l by auto
  next
    case (Some v)
    then obtain a where a: "rg_adapter r cid v = Some a"
      using rg_invD(3) [OF assms(1)] by blast
    have "c_ID (cp_Capabilities a) \<notin> (\<lambda>a. c_ID (cp_Capabilities a)) ` set l"
      using own [OF a] ids Cons.prems by auto
    then show ?thesis using Some a l by (auto intro: exI [of _ cid])
  qed
qed simp

section \<open>Properties\<close>

theorem ListByRole_spec:
  assumes "reg_reach r" "range_order (rg_primary r) order"
  shows "\<exists>l. ListByRole r order role = Some l \<and>
    set l = {a. \<exists>cid v. rg_primary r cid = Some v \<and> rg_on r cid v \<and> rg_adapter r cid v = Some a \<and>
                        role \<in> set (c_Roles (cp_Capabilities a))} \<and>
    distinct (map (\<lambda>a. c_ID (cp_Capabilities a)) l)"
proof -
  have dom: "cid \<in> set order" if "rg_primary r cid = Some v" for cid v
    using assms(2) that by (auto simp: range_order_def)
  have "distinct order" using assms(2) by (simp add: range_order_def)
  from ListByRole_loop_spec [OF reg_reach_inv [OF assms(1)] this, of role] show ?thesis
    unfolding ListByRole_def by (elim ex_forward) (auto dest: dom)
qed

theorem Register_spec:
  assumes "reg_reach r" "Register version (Some a) r = (None, r')"
  shows "GetVersion r' (c_ID (cp_Capabilities a)) version = Inr a \<and>
    (c_ID (cp_Capabilities b) = c_ID (cp_Capabilities a) \<longrightarrow>
       Register version (Some b) r' =
         (Some (Errorf ''carrier: %s %s already registered''
                 [FStr (c_ID (cp_Capabilities a)), FStr version]), r')) \<and>
    reg_Get r' (c_ID (cp_Capabilities a)) =
      (if rg_primary r (c_ID (cp_Capabilities a)) = None then Inr (Some a)
       else reg_Get r (c_ID (cp_Capabilities a)))"
proof -
  let ?id = "c_ID (cp_Capabilities a)"
  have reg: "registered a version r r'" using Register_ok [OF assms(2)] by simp
  then have "?id \<noteq> []" and new: "rg_adapter r ?id version = None"
    and ad: "rg_adapter r' = (\<lambda>c v. if c = ?id \<and> v = version then Some a else rg_adapter r c v)"
    and on: "rg_on r' = (\<lambda>c v. c = ?id \<and> v = version \<or> rg_on r c v)"
    and pr: "rg_primary r' = (if rg_primary r ?id = None then (rg_primary r)(?id \<mapsto> version) else rg_primary r)"
    by (simp_all add: registered_def Let_def)
  have v: "v \<noteq> version" if "rg_primary r ?id = Some v" for v
    using rg_invD(3) [OF reg_reach_inv [OF assms(1)] that] new by auto
  have "rg_byID r' ?id \<noteq> None" "rg_adapter r' ?id version = Some a"
    using fun_cong [OF fun_cong [OF ad, of ?id], of version] by (auto simp: rg_adapter_def split: option.splits)
  then have "Register version (Some b) r' = (Some (Errorf ''carrier: %s %s already registered''
               [FStr ?id, FStr version]), r')" if "c_ID (cp_Capabilities b) = ?id"
    using that \<open>?id \<noteq> []\<close> by (auto simp: Register_def Let_def)
  then show ?thesis
    using v by (auto simp: GetVersion_def reg_Get_def ad on pr split: option.splits)
qed

end
