(* ===== verification/Routing.thy ===== *)
theory Routing
  imports CarrierRegistry GoFmt "HOL-Library.Product_Lexorder"
begin

text \<open>
  \<open>internal/core/routing\<close>: the engine that picks a carrier. \<^term>\<open>eligible\<close> and
  \<^term>\<open>Decide\<close> are \<open>engine.go\<close>, the three strategies are \<open>strategy.go\<close>. The engine sees
  the registry as the function \<open>ListByRole\<close> and a strategy as the record of its two methods.
  A strategy takes the request too; none of the three uses it.
\<close>

section \<open>Data\<close>

record 'w candidate =
  cd_Carrier :: "'w carrier_port"
  cd_Estimate :: estimate
  cd_Available :: bool
  cd_Err :: "goerror option"

definition estimate_zero :: estimate where
  "estimate_zero = \<lparr>es_Cost = \<lparr>mo_Currency = [], mo_Minor = 0\<rparr>, es_EstimatedETA = 0,
     es_WindowStartAt = None, es_WindowEndAt = None, es_ConfidenceScore = Num 0\<rparr>"

record 'w selection =
  se_Carrier :: "'w carrier_port"
  se_Score :: f64
  se_Reasoning :: string

record 'w strategy =
  st_Name :: string
  st_Select :: "shipment_request \<Rightarrow> 'w candidate list \<Rightarrow> goerror + 'w selection"

record 'w decision =
  dc_Strategy :: string
  dc_Chosen :: "'w carrier_port"
  dc_Score :: f64
  dc_Reasoning :: string
  dc_Candidates :: "'w candidate list"
  dc_DecidedAt :: gotime

record 'w engine =
  en_ListByRole :: "carrier_role \<Rightarrow> 'w carrier_port list"
  en_strategy :: "'w strategy"

definition ErrNoEligibleCarrier :: goerror where
  "ErrNoEligibleCarrier = errors_New ''routing: no eligible carrier''"

definition ErrNoAvailableCandidate :: goerror where
  "ErrNoAvailableCandidate = errors_New ''routing: no available candidate''"

section \<open>Eligibility\<close>

fun hasRole :: "carrier_role list \<Rightarrow> carrier_role \<Rightarrow> bool" where
  "hasRole [] want = False"
| "hasRole (r # rs) want = (if r = want then True else hasRole rs want)"

fun supportsPickup_loop :: "pickup_mode list \<Rightarrow> pickup_mode \<Rightarrow> bool" where
  "supportsPickup_loop [] t = False"
| "supportsPickup_loop (m # ms) t = (if m = t then True else supportsPickup_loop ms t)"

definition supportsPickup :: "capabilities \<Rightarrow> pickup_mode \<Rightarrow> bool" where
  "supportsPickup caps t = supportsPickup_loop (c_PickupModes caps) t"

text \<open>The exchange sort on an array of three: the pairs (0,1), (0,2), (1,2) in that order.\<close>

type_synonym dims = "f64 \<times> f64 \<times> f64"

definition swap01 :: "dims \<Rightarrow> dims" where
  "swap01 d = (case d of (a0, a1, a2) \<Rightarrow> if f_lt a0 a1 then (a1, a0, a2) else (a0, a1, a2))"

definition swap02 :: "dims \<Rightarrow> dims" where
  "swap02 d = (case d of (a0, a1, a2) \<Rightarrow> if f_lt a0 a2 then (a2, a1, a0) else (a0, a1, a2))"

definition swap12 :: "dims \<Rightarrow> dims" where
  "swap12 d = (case d of (a0, a1, a2) \<Rightarrow> if f_lt a1 a2 then (a0, a2, a1) else (a0, a1, a2))"

definition sortDesc :: "dims \<Rightarrow> dims" where
  "sortDesc d = swap12 (swap02 (swap01 d))"

definition exceedsDims :: "port_package \<Rightarrow> dims \<Rightarrow> bool" where
  "exceedsDims p mx =
     (case (sortDesc (pp_LengthCm p, pp_WidthCm p, pp_HeightCm p), sortDesc mx) of
        ((d0, d1, d2), (m0, m1, m2)) \<Rightarrow> f_lt m0 d0 \<or> f_lt m1 d1 \<or> f_lt m2 d2)"

text \<open>One pass of the loop body: \<open>True\<close> when no \<open>continue\<close> is reached.\<close>

definition eligible_one :: "shipment_request \<Rightarrow> carrier_role \<Rightarrow> 'w carrier_port \<Rightarrow> bool" where
  "eligible_one req role c =
     (let caps = cp_Capabilities c; p = sr_Package req; t = pl_Type (sr_Pickup req)
      in if \<not> hasRole (c_Roles caps) role then False
         else if f_lt (c_MaxWeightKg caps) (pp_WeightKg p) then False
         else if exceedsDims p (c_MaxDimensionsCm caps) then False
         else if \<not> supportsPickup caps t then False
         else if t = PickupLocker \<and> \<not> c_SupportsLocker caps then False
         else True)"

definition eligible :: "'w engine \<Rightarrow> shipment_request \<Rightarrow> carrier_role \<Rightarrow> 'w carrier_port list" where
  "eligible e req role = filter (eligible_one req role) (en_ListByRole e role)"

section \<open>Decide\<close>

definition estimate_request_of :: "shipment_request \<Rightarrow> estimate_request" where
  "estimate_request_of req =
     \<lparr>eq_Pickup = sr_Pickup req, eq_Drop = sr_Drop req, eq_Package = sr_Package req,
      eq_When = sr_ScheduledStart req\<rparr>"

fun score_candidates ::
  "shipment_request \<Rightarrow> 'w carrier_port list \<Rightarrow> 'w \<Rightarrow> 'w candidate list \<times> 'w" where
  "score_candidates req [] w = ([], w)"
| "score_candidates req (c # cs) w =
     (let (r, w1) = cp_GetEstimate c (estimate_request_of req) w;
          cand = (case r of
                    Inl err \<Rightarrow> \<lparr>cd_Carrier = c, cd_Estimate = estimate_zero, cd_Available = False,
                                cd_Err = Some err\<rparr>
                  | Inr est \<Rightarrow> \<lparr>cd_Carrier = c, cd_Estimate = est, cd_Available = True, cd_Err = None\<rparr>);
          (rest, w2) = score_candidates req cs w1
      in (cand # rest, w2))"

definition Decide ::
  "'w engine \<Rightarrow> gotime \<Rightarrow> shipment_request \<Rightarrow> carrier_role \<Rightarrow> 'w \<Rightarrow> (goerror + 'w decision) \<times> 'w" where
  "Decide e now req role w =
     (let candidates = eligible e req role
      in if candidates = [] then (Inl ErrNoEligibleCarrier, w)
         else let (scored, w1) = score_candidates req candidates w
              in case st_Select (en_strategy e) req scored of
                   Inl err \<Rightarrow> (Inl err, w1)
                 | Inr sel \<Rightarrow>
                     (Inr \<lparr>dc_Strategy = st_Name (en_strategy e), dc_Chosen = se_Carrier sel,
                           dc_Score = se_Score sel, dc_Reasoning = se_Reasoning sel,
                           dc_Candidates = scored, dc_DecidedAt = time_UTC now\<rparr>, w1))"

section \<open>Strategies\<close>

text \<open>
  The loops keep a pointer to the best candidate so far, \<open>nil\<close> at the start; \<open>better\<close> is the
  comparison that replaces it.
\<close>

fun pick :: "('w candidate \<Rightarrow> 'w candidate \<Rightarrow> bool) \<Rightarrow> 'w candidate option \<Rightarrow> 'w candidate list
    \<Rightarrow> 'w candidate option" where
  "pick better best [] = best"
| "pick better best (c # cs) =
     (if \<not> cd_Available c then pick better best cs
      else case best of
             None \<Rightarrow> pick better (Some c) cs
           | Some b \<Rightarrow> pick better (if better c b then Some c else Some b) cs)"

definition cost :: "'w candidate \<Rightarrow> int64" where
  "cost c = mo_Minor (es_Cost (cd_Estimate c))"

definition eta :: "'w candidate \<Rightarrow> int64" where
  "eta c = es_EstimatedETA (cd_Estimate c)"

definition CheapestSelect :: "shipment_request \<Rightarrow> 'w candidate list \<Rightarrow> goerror + 'w selection" where
  "CheapestSelect req cs =
     (case pick (\<lambda>c b. cost c <s cost b) None cs of
        None \<Rightarrow> Inl ErrNoAvailableCandidate
      | Some best \<Rightarrow>
          Inr \<lparr>se_Carrier = cd_Carrier best, se_Score = f_int (sint (- cost best)),
               se_Reasoning = Sprintf ''cheapest at %d %s''
                 [FInt (sint (cost best)), FStr (mo_Currency (es_Cost (cd_Estimate best)))]\<rparr>)"

definition CheapestStrategy :: "'w strategy" where
  "CheapestStrategy = \<lparr>st_Name = ''cheapest'', st_Select = CheapestSelect\<rparr>"

definition FastestSelect :: "shipment_request \<Rightarrow> 'w candidate list \<Rightarrow> goerror + 'w selection" where
  "FastestSelect req cs =
     (case pick (\<lambda>c b. eta c <s eta b) None cs of
        None \<Rightarrow> Inl ErrNoAvailableCandidate
      | Some best \<Rightarrow>
          Inr \<lparr>se_Carrier = cd_Carrier best, se_Score = f_int (sint (- eta best)),
               se_Reasoning = Sprintf ''fastest ETA %s'' [FDuration (eta best)]\<rparr>)"

definition FastestStrategy :: "'w strategy" where
  "FastestStrategy = \<lparr>st_Name = ''fastest'', st_Select = FastestSelect\<rparr>"

fun filterAvailable :: "'w candidate list \<Rightarrow> 'w candidate list" where
  "filterAvailable [] = []"
| "filterAvailable (c # cs) = (if cd_Available c then c # filterAvailable cs else filterAvailable cs)"

text \<open>
  \<open>minMaxCost\<close> and \<open>minMaxETA\<close> read \<open>cs[0]\<close>; their caller passes a non-empty list. \<open>mn\<close> and
  \<open>mx\<close> are the running minimum and maximum.
\<close>

fun minMax_loop :: "('w candidate \<Rightarrow> int64) \<Rightarrow> int64 \<Rightarrow> int64 \<Rightarrow> 'w candidate list \<Rightarrow> int64 \<times> int64" where
  "minMax_loop f mn mx [] = (mn, mx)"
| "minMax_loop f mn mx (c # cs) =
     minMax_loop f (if f c <s mn then f c else mn) (if mx <s f c then f c else mx) cs"

definition minMaxCost :: "'w candidate list \<Rightarrow> int64 \<times> int64" where
  "minMaxCost cs = minMax_loop cost (cost (hd cs)) (cost (hd cs)) (tl cs)"

definition minMaxETA :: "'w candidate list \<Rightarrow> int64 \<times> int64" where
  "minMaxETA cs = minMax_loop eta (eta (hd cs)) (eta (hd cs)) (tl cs)"

definition normalize :: "f64 \<Rightarrow> f64 \<Rightarrow> f64 \<Rightarrow> f64" where
  "normalize v mn mx = (if f_eq mx mn then Num 0 else f_div (f_sub v mn) (f_sub mx mn))"

record weights =
  CostWeight :: f64
  ETAWeight :: f64
  ConfidenceWeight :: f64

definition weighted_score :: "weights \<Rightarrow> int64 \<times> int64 \<Rightarrow> int64 \<times> int64 \<Rightarrow> 'w candidate \<Rightarrow> f64" where
  "weighted_score s costs etas c =
     (let nc = normalize (f_int (sint (cost c))) (f_int (sint (fst costs))) (f_int (sint (snd costs)));
          ne = normalize (f_int (sint (eta c))) (f_int (sint (fst etas))) (f_int (sint (snd etas)))
      in f_add (f_sub (f_mul (f_neg nc) (CostWeight s)) (f_mul ne (ETAWeight s)))
               (f_mul (es_ConfidenceScore (cd_Estimate c)) (ConfidenceWeight s)))"

fun weighted_loop :: "('w candidate \<Rightarrow> f64) \<Rightarrow> 'w candidate option \<Rightarrow> f64 \<Rightarrow> string
    \<Rightarrow> 'w candidate list \<Rightarrow> 'w candidate option \<times> f64 \<times> string" where
  "weighted_loop score best bestScore bestReason [] = (best, bestScore, bestReason)"
| "weighted_loop score best bestScore bestReason (c # cs) =
     (if best = None \<or> f_lt bestScore (score c)
      then weighted_loop score (Some c) (score c)
             (Sprintf ''cost=%d eta=%s conf=%.2f score=%.2f''
              [FInt (sint (cost c)), FDuration (eta c), FFloat (es_ConfidenceScore (cd_Estimate c)),
               FFloat (score c)]) cs
      else weighted_loop score best bestScore bestReason cs)"

definition WeightedSelect ::
  "weights \<Rightarrow> shipment_request \<Rightarrow> 'w candidate list \<Rightarrow> goerror + 'w selection" where
  "WeightedSelect s req cs =
     (let avail = filterAvailable cs
      in if avail = [] then Inl ErrNoAvailableCandidate
         else case weighted_loop (weighted_score s (minMaxCost avail) (minMaxETA avail))
                     None (f_int (- 1)) [] avail of
                (best, bestScore, bestReason) \<Rightarrow>
                  (case best of
                     None \<Rightarrow> Inl ErrNoAvailableCandidate
                   | Some b \<Rightarrow> Inr \<lparr>se_Carrier = cd_Carrier b, se_Score = bestScore,
                                     se_Reasoning = bestReason\<rparr>))"

definition WeightedScoreStrategy :: "weights \<Rightarrow> 'w strategy" where
  "WeightedScoreStrategy s = \<lparr>st_Name = ''weighted'', st_Select = WeightedSelect s\<rparr>"

section \<open>Facts about eligibility\<close>

lemma hasRole_iff: "hasRole rs want \<longleftrightarrow> want \<in> set rs"
  by (induction rs) auto

lemma supportsPickup_iff: "supportsPickup caps t \<longleftrightarrow> t \<in> set (c_PickupModes caps)"
proof -
  have "supportsPickup_loop ms t \<longleftrightarrow> t \<in> set ms" for ms by (induction ms) auto
  then show ?thesis by (simp add: supportsPickup_def)
qed

lemma eligible_one_iff:
  "eligible_one req role c \<longleftrightarrow>
     role \<in> set (c_Roles (cp_Capabilities c)) \<and>
     \<not> f_lt (c_MaxWeightKg (cp_Capabilities c)) (pp_WeightKg (sr_Package req)) \<and>
     \<not> exceedsDims (sr_Package req) (c_MaxDimensionsCm (cp_Capabilities c)) \<and>
     pl_Type (sr_Pickup req) \<in> set (c_PickupModes (cp_Capabilities c)) \<and>
     (pl_Type (sr_Pickup req) = PickupLocker \<longrightarrow> c_SupportsLocker (cp_Capabilities c))"
  by (simp add: eligible_one_def Let_def hasRole_iff supportsPickup_iff)

definition dims_perms :: "dims \<Rightarrow> dims set" where
  "dims_perms d = (case d of (a, b, c) \<Rightarrow>
     {(a, b, c), (a, c, b), (b, a, c), (b, c, a), (c, a, b), (c, b, a)})"

definition dims_fit :: "dims \<Rightarrow> dims \<Rightarrow> bool" where
  "dims_fit d mx = (case (d, mx) of ((a, b, c), (x, y, z)) \<Rightarrow> f_le a x \<and> f_le b y \<and> f_le c z)"

definition dims_nan :: "dims \<Rightarrow> bool" where
  "dims_nan d = (case d of (a, b, c) \<Rightarrow> f_nan a \<or> f_nan b \<or> f_nan c)"

lemma f_le_total: "\<not> f_nan a \<Longrightarrow> \<not> f_nan b \<Longrightarrow> f_le a b \<or> f_le b a"
  by (auto simp: f_le_def f_lt_def f_eq_def)

lemma sortDesc_perm: "sortDesc d \<in> dims_perms d"
  by (cases d) (auto simp: sortDesc_def swap01_def swap02_def swap12_def dims_perms_def)

lemma sortDesc_sorted:
  assumes "\<not> dims_nan d" "sortDesc d = (x, y, z)"
  shows "f_le y x \<and> f_le z y"
  using assms
  by (cases d) (auto simp: sortDesc_def swap01_def swap02_def swap12_def dims_nan_def f_le_def
      f_lt_def f_eq_def split: if_splits)

text \<open>Without NaNs the comparisons are those of a linear order.\<close>

definition f_key :: "f64 \<Rightarrow> int \<times> rat" where
  "f_key a = (f_rank a, f_val a)"

lemma f_le_key: "\<not> f_nan a \<Longrightarrow> \<not> f_nan b \<Longrightarrow> f_le a b \<longleftrightarrow> f_key a \<le> f_key b"
  by (auto simp: f_le_def f_lt_def f_eq_def f_key_def)

lemma f_lt_key: "\<not> f_nan a \<Longrightarrow> \<not> f_nan b \<Longrightarrow> f_lt a b \<longleftrightarrow> f_key a < f_key b"
  by (auto simp: f_lt_def f_key_def)

lemma perm3_fit:
  fixes d0 :: "'a :: linorder"
  assumes "d1 \<le> d0" "d2 \<le> d1" "m1 \<le> m0" "m2 \<le> m1" "a \<le> x" "b \<le> y" "c \<le> z"
    and "(a, b, c) \<in> {(d0, d1, d2), (d0, d2, d1), (d1, d0, d2), (d1, d2, d0), (d2, d0, d1), (d2, d1, d0)}"
    and "(x, y, z) \<in> {(m0, m1, m2), (m0, m2, m1), (m1, m0, m2), (m1, m2, m0), (m2, m0, m1), (m2, m1, m0)}"
  shows "d0 \<le> m0 \<and> d1 \<le> m1 \<and> d2 \<le> m2"
  using assms by (elim insertE emptyE) (simp_all, (intro conjI; order)+)

lemma dims_perms_sym: "d' \<in> dims_perms d \<Longrightarrow> d \<in> dims_perms d'"
  by (cases d; cases d') (auto simp: dims_perms_def)

lemma dims_perms_nan: "d' \<in> dims_perms d \<Longrightarrow> dims_nan d' \<longleftrightarrow> dims_nan d"
  by (cases d; cases d') (auto simp: dims_perms_def dims_nan_def)

lemma dims_perms_trans: "d' \<in> dims_perms d \<Longrightarrow> d'' \<in> dims_perms d' \<Longrightarrow> d'' \<in> dims_perms d"
  by (cases d; cases d'; cases d'') (auto simp: dims_perms_def)

text \<open>Two triples in descending order, and a way to put one inside the other.\<close>

lemma sorted_fit:
  assumes d: "f_le d1 d0" "f_le d2 d1" and m: "f_le m1 m0" "f_le m2 m1"
    and nan: "\<not> dims_nan (d0, d1, d2)" "\<not> dims_nan (m0, m1, m2)"
    and mx: "mx \<in> dims_perms (m0, m1, m2)"
  shows "(\<exists>d' \<in> dims_perms (d0, d1, d2). dims_fit d' mx) \<longleftrightarrow> f_le d0 m0 \<and> f_le d1 m1 \<and> f_le d2 m2"
proof
  assume "\<exists>d' \<in> dims_perms (d0, d1, d2). dims_fit d' mx"
  then obtain a b c x y z where p: "(a, b, c) \<in> dims_perms (d0, d1, d2)" "mx = (x, y, z)"
    and f: "f_le a x" "f_le b y" "f_le c z"
    by (cases mx) (auto simp: dims_fit_def)
  have nn: "\<not> f_nan d0" "\<not> f_nan d1" "\<not> f_nan d2" "\<not> f_nan m0" "\<not> f_nan m1" "\<not> f_nan m2"
    using nan by (auto simp: dims_nan_def)
  have na: "\<not> f_nan a" "\<not> f_nan b" "\<not> f_nan c" "\<not> f_nan x" "\<not> f_nan y" "\<not> f_nan z"
    using dims_perms_nan [OF p(1)] dims_perms_nan [OF mx] nan p(2) by (auto simp: dims_nan_def)
  have "f_key d0 \<le> f_key m0 \<and> f_key d1 \<le> f_key m1 \<and> f_key d2 \<le> f_key m2"
  proof (rule perm3_fit)
    show "f_key d1 \<le> f_key d0" "f_key d2 \<le> f_key d1" "f_key m1 \<le> f_key m0" "f_key m2 \<le> f_key m1"
      "f_key a \<le> f_key x" "f_key b \<le> f_key y" "f_key c \<le> f_key z"
      using d m f nn na by (simp_all add: f_le_key)
    show "(f_key a, f_key b, f_key c) \<in>
       {(f_key d0, f_key d1, f_key d2), (f_key d0, f_key d2, f_key d1), (f_key d1, f_key d0, f_key d2),
        (f_key d1, f_key d2, f_key d0), (f_key d2, f_key d0, f_key d1), (f_key d2, f_key d1, f_key d0)}"
      using p(1) by (auto simp: dims_perms_def)
    show "(f_key x, f_key y, f_key z) \<in>
       {(f_key m0, f_key m1, f_key m2), (f_key m0, f_key m2, f_key m1), (f_key m1, f_key m0, f_key m2),
        (f_key m1, f_key m2, f_key m0), (f_key m2, f_key m0, f_key m1), (f_key m2, f_key m1, f_key m0)}"
      using mx p(2) by (auto simp: dims_perms_def)
  qed
  then show "f_le d0 m0 \<and> f_le d1 m1 \<and> f_le d2 m2" using nn by (simp add: f_le_key)
next
  assume "f_le d0 m0 \<and> f_le d1 m1 \<and> f_le d2 m2"
  then show "\<exists>d' \<in> dims_perms (d0, d1, d2). dims_fit d' mx"
    using mx by (auto simp: dims_perms_def dims_fit_def)
qed

text \<open>
  C31: Without NaNs, comparing both triples in descending order refuses a package exactly when
  no orientation of it fits into the carrier's limits.
\<close>

theorem exceedsDims_iff:
  assumes "\<not> dims_nan (pp_LengthCm p, pp_WidthCm p, pp_HeightCm p)" "\<not> dims_nan mx"
  shows "exceedsDims p mx \<longleftrightarrow>
    \<not> (\<exists>d \<in> dims_perms (pp_LengthCm p, pp_WidthCm p, pp_HeightCm p). dims_fit d mx)"
proof -
  let ?d = "(pp_LengthCm p, pp_WidthCm p, pp_HeightCm p)"
  obtain d0 d1 d2 where d: "sortDesc ?d = (d0, d1, d2)" by (cases "sortDesc ?d")
  obtain m0 m1 m2 where m: "sortDesc mx = (m0, m1, m2)" by (cases "sortDesc mx")
  have pd: "(d0, d1, d2) \<in> dims_perms ?d" and pm: "(m0, m1, m2) \<in> dims_perms mx"
    using sortDesc_perm [of ?d] sortDesc_perm [of mx] by (simp_all only: d m)
  have nan: "\<not> dims_nan (d0, d1, d2)" "\<not> dims_nan (m0, m1, m2)"
    using dims_perms_nan [OF pd] dims_perms_nan [OF pm] assms by auto
  have "(\<exists>d' \<in> dims_perms ?d. dims_fit d' mx) \<longleftrightarrow> (\<exists>d' \<in> dims_perms (d0, d1, d2). dims_fit d' mx)"
    using dims_perms_trans [OF pd] dims_perms_trans [OF dims_perms_sym [OF pd]] by blast
  also have "\<dots> \<longleftrightarrow> f_le d0 m0 \<and> f_le d1 m1 \<and> f_le d2 m2"
    using sorted_fit [OF _ _ _ _ nan dims_perms_sym [OF pm]] sortDesc_sorted [OF assms(1) d]
      sortDesc_sorted [OF assms(2) m] by blast
  also have "\<dots> \<longleftrightarrow> \<not> exceedsDims p mx"
    using nan by (simp add: exceedsDims_def d m dims_nan_def f_not_lt)
  finally show ?thesis by blast
qed

section \<open>The selection loops\<close>

lemma filterAvailable_filter: "filterAvailable cs = filter cd_Available cs"
  by (induction cs) auto

lemma pick_snoc:
  "pick better best (cs @ [c]) =
     (case pick better best cs of
        None \<Rightarrow> if cd_Available c then Some c else None
      | Some b \<Rightarrow> if cd_Available c \<and> better c b then Some c else Some b)"
  by (induction cs arbitrary: best) (auto split: option.split)

text \<open>The candidate at position \<open>i\<close> is the first of the best among the available ones.\<close>

definition first_best :: "('w candidate \<Rightarrow> 'w candidate \<Rightarrow> bool) \<Rightarrow> 'w candidate list \<Rightarrow> nat \<Rightarrow> bool" where
  "first_best better cs i \<longleftrightarrow>
     i < length cs \<and> cd_Available (cs ! i) \<and>
     (\<forall>j < length cs. cd_Available (cs ! j) \<longrightarrow> \<not> better (cs ! j) (cs ! i)) \<and>
     (\<forall>j < i. cd_Available (cs ! j) \<longrightarrow> better (cs ! i) (cs ! j))"

lemma pick_None: "pick better None cs = None \<longleftrightarrow> (\<forall>c \<in> set cs. \<not> cd_Available c)"
  by (induction cs rule: rev_induct) (auto simp: pick_snoc split: option.split)

lemma pick_first_best:
  assumes irr: "\<And>a. \<not> better a a" and asym: "\<And>a b. better a b \<Longrightarrow> \<not> better b a"
    and neg: "\<And>a b c. a \<in> set cs \<Longrightarrow> b \<in> set cs \<Longrightarrow> c \<in> set cs \<Longrightarrow>
      cd_Available a \<Longrightarrow> cd_Available b \<Longrightarrow> cd_Available c \<Longrightarrow>
      \<not> better a b \<Longrightarrow> \<not> better b c \<Longrightarrow> \<not> better a c"
    and "pick better None cs = Some b"
  shows "\<exists>i. first_best better cs i \<and> cs ! i = b"
  using neg assms(4)
proof (induction cs arbitrary: b rule: rev_induct)
  case (snoc y xs)
  have IH: "\<exists>i. first_best better xs i \<and> xs ! i = b" if "pick better None xs = Some b" for b
    by (rule snoc.IH [OF snoc.prems(1) that]) auto
  show ?case
  proof (cases "pick better None xs")
    case None
    with snoc.prems(2) have y: "cd_Available y" "b = y" by (auto simp: pick_snoc split: if_splits)
    have "first_best better (xs @ [y]) (length xs)"
      using None y irr nth_mem [of _ xs] by (auto simp: first_best_def pick_None nth_append)
    then show ?thesis using y by (auto intro: exI [of _ "length xs"])
  next
    case (Some x)
    then obtain i where i: "first_best better xs i" "xs ! i = x" using IH by blast
    show ?thesis
    proof (cases "cd_Available y \<and> better y x")
      case True
      then have b: "b = y" using snoc.prems(2) Some by (simp add: pick_snoc)
      have up: "better y (xs ! j)" if "j < length xs" "cd_Available (xs ! j)" for j
      proof (rule ccontr)
        assume "\<not> better y (xs ! j)"
        moreover have "\<not> better (xs ! j) x" using i that by (auto simp: first_best_def)
        ultimately have "\<not> better y x"
          using snoc.prems(1) [of y "xs ! j" x] that i True by (auto simp: first_best_def)
        then show False using True by simp
      qed
      have "first_best better (xs @ [y]) (length xs)"
        unfolding first_best_def using True up irr asym [OF up] by (auto simp: nth_append)
      then show ?thesis using b by (auto intro: exI [of _ "length xs"])
    next
      case False
      then have b: "b = x" using snoc.prems(2) Some by (auto simp: pick_snoc)
      have "first_best better (xs @ [y]) i"
        using i False by (auto simp: first_best_def nth_append less_Suc_eq)
      moreover have "(xs @ [y]) ! i = b" using b i by (auto simp: first_best_def nth_append)
      ultimately show ?thesis by blast
    qed
  qed
qed simp

lemma pick_word:
  fixes f :: "'w candidate \<Rightarrow> int64"
  shows "pick (\<lambda>c b. f c <s f b) None cs = Some b \<Longrightarrow> \<exists>i. first_best (\<lambda>c b. f c <s f b) cs i \<and> cs ! i = b"
  by (rule pick_first_best) (auto simp: word_sless_alt)

lemma pick_Some: "\<exists>d. pick better (Some b) cs = Some d"
  by (induction cs arbitrary: b) auto

lemma weighted_loop_pick:
  assumes "best = None \<or> bs = score (the best)" "\<forall>c \<in> set cs. cd_Available c"
  shows "weighted_loop score best bs br cs =
    (let b = pick (\<lambda>c b. f_lt (score b) (score c)) best cs
     in (b, case b of None \<Rightarrow> bs | Some c \<Rightarrow> score c, snd (snd (weighted_loop score best bs br cs))))"
  using assms
proof (induction cs arbitrary: best bs br)
  case Nil
  then show ?case by (auto simp: Let_def split: option.split)
next
  case (Cons c cs)
  let ?r = "Sprintf ''cost=%d eta=%s conf=%.2f score=%.2f''
    [FInt (sint (cost c)), FDuration (eta c), FFloat (es_ConfidenceScore (cd_Estimate c)), FFloat (score c)]"
  have all: "\<forall>c \<in> set cs. cd_Available c" and c: "cd_Available c" using Cons.prems by auto
  show ?case
  proof (cases "best = None \<or> f_lt bs (score c)")
    case True
    have "pick (\<lambda>c b. f_lt (score b) (score c)) best (c # cs) =
        pick (\<lambda>c b. f_lt (score b) (score c)) (Some c) cs"
      using True Cons.prems(1) c by (cases best) auto
    then show ?thesis
      using Cons.IH [of "Some c" "score c" ?r, OF _ all] True
        pick_Some [of "\<lambda>c b. f_lt (score b) (score c)" c cs]
      by (auto simp: Let_def)
  next
    case False
    then obtain b where b: "best = Some b" "bs = score b" using Cons.prems(1) by auto
    have "pick (\<lambda>c b. f_lt (score b) (score c)) best (c # cs) =
        pick (\<lambda>c b. f_lt (score b) (score c)) best cs"
      using False b c by auto
    then show ?thesis
      using Cons.IH [of best bs br, OF Cons.prems(1) all] False
      by (simp only: weighted_loop.simps if_False)
  qed
qed

lemma pick_float:
  assumes "\<And>c. c \<in> set cs \<Longrightarrow> cd_Available c \<Longrightarrow> \<not> f_nan (score c)"
    and "pick (\<lambda>c b. f_lt (score b) (score c)) None cs = Some b"
  shows "\<exists>i. first_best (\<lambda>c b. f_lt (score b) (score c)) cs i \<and> cs ! i = b"
proof (rule pick_first_best [OF _ _ _ assms(2)])
  show "\<not> f_lt (score a) (score a)" for a by simp
  show "\<not> f_lt (score a) (score c)" if "f_lt (score c) (score a)" for a c
    using f_lt_asym [OF that] .
  show "\<not> f_lt (score c) (score a)"
    if "a \<in> set cs" "b \<in> set cs" "c \<in> set cs" "cd_Available a" "cd_Available b" "cd_Available c"
      "\<not> f_lt (score b) (score a)" "\<not> f_lt (score c) (score b)" for a b c
    using that assms(1) by (simp add: f_lt_key)
qed

section \<open>Normalised scores\<close>

lemma f_mag_Ints:
  assumes "0 < i"
  shows "f_mag (of_int i) \<in> \<int>"
proof (cases "i < 2 ^ 53")
  case True
  then show ?thesis using f_mag_exact(1) [OF assms] by simp
next
  case False
  have "2 ^ 53 \<le> i" using False by simp
  then have "(of_int (2 ^ 53) :: rat) \<le> of_int i" by (simp only: of_int_le_iff)
  then have "(2 :: rat) powi 53 \<le> of_int i" by (simp add: power_int_def)
  also have "(of_int i :: rat) < 2 powi (ilog2 (of_int i) + 1)"
    using assms by (intro ilog2_bounds(2)) simp
  finally have "53 < ilog2 (of_int i :: rat) + 1" by (simp only: powi_less_rat_iff)
  then have "0 \<le> f_exp (of_int i)" by (simp add: f_exp_def)
  then show ?thesis by (simp add: f_mag_def power_int_def)
qed

lemma f_int_Ints: "\<bar>i\<bar> \<le> 2 ^ 64 \<Longrightarrow> f_val (f_int i) \<in> \<int>"
  using f_mag_Ints [of "\<bar>i\<bar>"] by (auto simp: f_int_val)

lemma f_sub_finite:
  assumes "f_finite a" "f_finite b"
  shows "f_sub a b = (if f_val a = f_val b then f_zero (a = NegZero \<and> b = Num 0)
     else f_round (f_val a < f_val b) \<bar>f_val a - f_val b\<bar>)"
  using assms by (cases a; cases b) (auto simp: f_sub_def f_add_def Let_def)

lemma sint_abs_bound: "\<bar>sint (w :: int64)\<bar> \<le> 2 ^ 64"
  using sint_lt [of w] sint_ge [of w] by simp

lemma f_int_abs_val:
  assumes "\<bar>i\<bar> \<le> 2 ^ 64"
  shows "\<bar>f_val (f_int i)\<bar> \<le> 2 ^ 64"
proof (cases "i = 0")
  case True
  then show ?thesis by (simp add: f_int_val)
next
  case False
  have "f_mag (of_int \<bar>i\<bar>) \<le> f_mag (of_int (2 ^ 64))"
  proof (rule f_mag_mono)
    show "(0 :: rat) < of_int \<bar>i\<bar>" using False by simp
    show "(of_int \<bar>i\<bar> :: rat) \<le> of_int (2 ^ 64)" using assms by (simp only: of_int_le_iff)
  qed
  also have "f_mag (of_int (2 ^ 64)) = 2 ^ 64" by code_simp
  finally show ?thesis
    using False f_mag_nonneg [of "of_int \<bar>i\<bar>"] by (auto simp: f_int_val [OF assms])
qed

text \<open>A ratio of two nonnegative differences, the first no larger: between 0 and 1.\<close>

lemma normalize_unit_int:
  assumes "mn \<le> v" "v \<le> mx" "\<bar>mn\<bar> \<le> 2 ^ 64" "\<bar>v\<bar> \<le> 2 ^ 64" "\<bar>mx\<bar> \<le> 2 ^ 64"
  shows "f_upto 1 (normalize (f_int v) (f_int mn) (f_int mx))"
proof (cases "f_eq (f_int mx) (f_int mn)")
  case True
  then show ?thesis by (simp add: normalize_def f_upto_def)
next
  case neq: False
  let ?v = "f_val (f_int v)" and ?mn = "f_val (f_int mn)" and ?mx = "f_val (f_int mx)"
  have fin: "f_finite (f_int v)" "f_finite (f_int mn)" "f_finite (f_int mx)"
    using assms by (simp_all add: f_int_finite)
  have ord: "?mn \<le> ?v" "?v \<le> ?mx"
    using f_int_mono [of mn v] f_int_mono [of v mx] assms fin by (simp_all add: f_le_finite)
  have "?mn \<noteq> ?mx" using neq fin by (auto simp: f_eq_def f_finite_rank f_finite_not_nan)
  then have lt: "?mn < ?mx" using ord by simp
  have "?mx - ?mn \<in> \<int>" using f_int_Ints assms by simp
  then have ge1: "1 \<le> ?mx - ?mn" using lt by (auto elim!: Ints_cases simp flip: of_int_diff)
  have le65: "?mx - ?mn \<le> 2 ^ 65"
    using f_int_abs_val [OF assms(5)] f_int_abs_val [OF assms(3)] by simp
  have big: "f_round False (2 ^ 65) = Num (2 ^ 65)" by code_simp
  have one: "f_round False 1 = Num 1" by code_simp
  have den: "f_sub (f_int mx) (f_int mn) = f_round False (?mx - ?mn)"
    using fin lt by (simp add: f_sub_finite)
  have den_fin: "f_upto (2 ^ 65) (f_sub (f_int mx) (f_int mn))"
    unfolding den using lt le65 big by (intro f_round_upto) simp_all
  have den_pos: "1 \<le> f_val (f_sub (f_int mx) (f_int mn))"
    using f_round_mono [of 1 "?mx - ?mn"] ge1 one den_fin by (simp add: f_upto_def f_le_finite flip: den)
  have num: "f_upto (f_val (f_sub (f_int mx) (f_int mn))) (f_sub (f_int v) (f_int mn))"
  proof (cases "?v = ?mn")
    case True
    then show ?thesis using fin den_pos by (simp add: f_sub_finite f_upto_def)
  next
    case False
    have "f_round False (?mx - ?mn) = Num (f_val (f_round False (?mx - ?mn)))"
      using den_fin den_pos unfolding den by (cases "f_round False (?mx - ?mn)") (auto simp: f_upto_def)
    then have "f_upto (f_val (f_round False (?mx - ?mn))) (f_round False (?v - ?mn))"
      using ord by (intro f_round_upto) simp_all
    then show ?thesis using False ord fin by (simp add: f_sub_finite den)
  qed
  let ?n = "f_sub (f_int v) (f_int mn)" and ?d = "f_sub (f_int mx) (f_int mn)"
  have "?d = Num (f_val ?d)" using den_fin den_pos by (cases ?d) (auto simp: f_upto_def)
  moreover have "f_upto 1 (f_div ?n (Num (f_val ?d)))"
    using num den_pos one by (intro f_upto_div [where p = "f_val ?d"]) auto
  ultimately show ?thesis using neq by (simp add: normalize_def)
qed

lemma minMax_loop_bounds:
  assumes "minMax_loop f mn mx cs = (mn', mx')" "sint mn \<le> sint mx"
  shows "sint mn' \<le> sint mn \<and> sint mx \<le> sint mx' \<and>
    (\<forall>c \<in> set cs. sint mn' \<le> sint (f c) \<and> sint (f c) \<le> sint mx') \<and>
    mn' \<in> insert mn (f ` set cs) \<and> mx' \<in> insert mx (f ` set cs)"
  using assms
proof (induction cs arbitrary: mn mx)
  case (Cons c cs)
  let ?mn = "if f c <s mn then f c else mn" and ?mx = "if mx <s f c then f c else mx"
  have "minMax_loop f ?mn ?mx cs = (mn', mx')" using Cons.prems(1) by simp
  moreover have le: "sint ?mn \<le> sint mn" "sint ?mn \<le> sint (f c)" "sint mx \<le> sint ?mx"
      "sint (f c) \<le> sint ?mx" "sint ?mn \<le> sint ?mx"
    using Cons.prems(2) by (auto simp: word_sless_alt)
  ultimately have IH: "sint mn' \<le> sint ?mn \<and> sint ?mx \<le> sint mx' \<and>
    (\<forall>c \<in> set cs. sint mn' \<le> sint (f c) \<and> sint (f c) \<le> sint mx') \<and>
    mn' \<in> insert ?mn (f ` set cs) \<and> mx' \<in> insert ?mx (f ` set cs)"
    using Cons.IH by blast
  then show ?case using le by (auto split: if_splits)
qed simp

lemma minMax_bounds:
  assumes "minMax_loop f (f (hd cs)) (f (hd cs)) (tl cs) = (mn, mx)" "c \<in> set cs"
  shows "sint mn \<le> sint (f c) \<and> sint (f c) \<le> sint mx"
  using minMax_loop_bounds [OF assms(1)] assms(2) by (cases cs) auto

lemma score_candidates_spec:
  "score_candidates req cs w = (cands, w') \<Longrightarrow>
     map cd_Carrier cands = cs \<and> (\<forall>c \<in> set cands. cd_Available c \<longleftrightarrow> cd_Err c = None)"
proof (induction cs arbitrary: cands w w')
  case (Cons c cs)
  obtain r w1 where r: "cp_GetEstimate c (estimate_request_of req) w = (r, w1)" by fastforce
  obtain rest w2 where rest: "score_candidates req cs w1 = (rest, w2)" by fastforce
  from Cons.IH [OF rest] Cons.prems show ?case
    by (auto simp: r rest Let_def split: sum.splits)
qed simp

lemma Decide_cases:
  assumes "Decide e now req role w = (res, w')"
  obtains "eligible e req role = []" "res = Inl ErrNoEligibleCarrier" "w' = w"
  | scored err where "eligible e req role \<noteq> []" "score_candidates req (eligible e req role) w = (scored, w')"
      "st_Select (en_strategy e) req scored = Inl err" "res = Inl err"
  | scored sel where "eligible e req role \<noteq> []" "score_candidates req (eligible e req role) w = (scored, w')"
      "st_Select (en_strategy e) req scored = Inr sel"
      "res = Inr \<lparr>dc_Strategy = st_Name (en_strategy e), dc_Chosen = se_Carrier sel,
         dc_Score = se_Score sel, dc_Reasoning = se_Reasoning sel, dc_Candidates = scored,
         dc_DecidedAt = time_UTC now\<rparr>"
  using assms by (auto simp: Decide_def Let_def split: if_splits prod.splits sum.splits)

section \<open>Properties\<close>

lemma CheapestSelect_spec:
  "case CheapestSelect req cs of
     Inl err \<Rightarrow> err = ErrNoAvailableCandidate \<and> (\<forall>c \<in> set cs. \<not> cd_Available c)
   | Inr sel \<Rightarrow> \<exists>i < length cs. cd_Available (cs ! i) \<and> se_Carrier sel = cd_Carrier (cs ! i) \<and>
       (\<forall>j < length cs. cd_Available (cs ! j) \<longrightarrow> sint (cost (cs ! i)) \<le> sint (cost (cs ! j))) \<and>
       (\<forall>j < i. cd_Available (cs ! j) \<longrightarrow> sint (cost (cs ! i)) < sint (cost (cs ! j)))"
proof (cases "pick (\<lambda>c b. cost c <s cost b) None cs")
  case None
  then show ?thesis
    using pick_None [THEN iffD1, OF None] by (simp add: CheapestSelect_def None)
next
  case (Some b)
  then have sel: "\<exists>sel. CheapestSelect req cs = Inr sel \<and> se_Carrier sel = cd_Carrier b"
    by (simp add: CheapestSelect_def)
  from pick_word [OF Some] sel show ?thesis
    by (auto simp: first_best_def word_sless_alt not_less)
qed

theorem FastestSelect_spec:
  "case FastestSelect req cs of
     Inl err \<Rightarrow> err = ErrNoAvailableCandidate \<and> (\<forall>c \<in> set cs. \<not> cd_Available c)
   | Inr sel \<Rightarrow> \<exists>i < length cs. cd_Available (cs ! i) \<and> se_Carrier sel = cd_Carrier (cs ! i) \<and>
       (\<forall>j < length cs. cd_Available (cs ! j) \<longrightarrow> sint (eta (cs ! i)) \<le> sint (eta (cs ! j))) \<and>
       (\<forall>j < i. cd_Available (cs ! j) \<longrightarrow> sint (eta (cs ! i)) < sint (eta (cs ! j)))"
proof (cases "pick (\<lambda>c b. eta c <s eta b) None cs")
  case None
  then show ?thesis
    using pick_None [THEN iffD1, OF None] by (simp add: FastestSelect_def None)
next
  case (Some b)
  then have sel: "\<exists>sel. FastestSelect req cs = Inr sel \<and> se_Carrier sel = cd_Carrier b"
    by (simp add: FastestSelect_def)
  from pick_word [OF Some] sel show ?thesis
    by (auto simp: first_best_def word_sless_alt not_less)
qed

theorem weighted_terms_unit:
  assumes "c \<in> set avail" "minMaxCost avail = (mnC, mxC)" "minMaxETA avail = (mnE, mxE)"
  shows "f_upto 1 (normalize (f_int (sint (cost c))) (f_int (sint mnC)) (f_int (sint mxC))) \<and>
         f_upto 1 (normalize (f_int (sint (eta c))) (f_int (sint mnE)) (f_int (sint mxE)))"
proof -
  have "sint mnC \<le> sint (cost c) \<and> sint (cost c) \<le> sint mxC"
    using assms(1,2) by (intro minMax_bounds [of cost avail]) (simp_all add: minMaxCost_def)
  moreover have "sint mnE \<le> sint (eta c) \<and> sint (eta c) \<le> sint mxE"
    using assms(1,3) by (intro minMax_bounds [of eta avail]) (simp_all add: minMaxETA_def)
  ultimately show ?thesis using normalize_unit_int sint_abs_bound by blast
qed

theorem WeightedSelect_spec:
  fixes s :: weights and cs :: "'w candidate list"
  defines "score \<equiv> weighted_score s (minMaxCost (filterAvailable cs)) (minMaxETA (filterAvailable cs))"
  assumes nan: "\<forall>c \<in> set cs. cd_Available c \<longrightarrow> \<not> f_nan (score c)"
  shows "case WeightedSelect s req cs of
     Inl err \<Rightarrow> err = ErrNoAvailableCandidate \<and> (\<forall>c \<in> set cs. \<not> cd_Available c)
   | Inr sel \<Rightarrow> \<exists>c \<in> set cs. cd_Available c \<and> se_Carrier sel = cd_Carrier c \<and> se_Score sel = score c \<and>
       (\<forall>c' \<in> set cs. cd_Available c' \<longrightarrow> f_le (score c') (score c))"
proof -
  let ?avail = "filterAvailable cs"
  have mem: "c \<in> set ?avail \<longleftrightarrow> c \<in> set cs \<and> cd_Available c" for c
    by (auto simp: filterAvailable_filter)
  let ?b = "pick (\<lambda>c b. f_lt (score b) (score c)) None ?avail"
  have loop: "weighted_loop score None (f_int (- 1)) [] ?avail =
      (?b, case ?b of None \<Rightarrow> f_int (- 1) | Some c \<Rightarrow> score c,
       snd (snd (weighted_loop score None (f_int (- 1)) [] ?avail)))"
    using weighted_loop_pick [of None "f_int (- 1)" score ?avail "[]"] mem by (simp add: Let_def)
  show ?thesis
  proof (cases ?b)
    case None
    then have "?avail = []" using mem by (auto simp: pick_None) (metis last_in_set mem)
    then show ?thesis using mem by (auto simp: WeightedSelect_def)
  next
    case (Some b)
    then have ne: "?avail \<noteq> []" by auto
    have "\<exists>i. first_best (\<lambda>c b. f_lt (score b) (score c)) ?avail i \<and> ?avail ! i = b"
      using nan mem Some by (intro pick_float) auto
    then have b: "b \<in> set ?avail" "\<forall>c \<in> set ?avail. \<not> f_lt (score b) (score c)"
      using mem by (auto simp: first_best_def in_set_conv_nth) (metis mem nth_mem)
    have sel: "\<exists>r. WeightedSelect s req cs = Inr \<lparr>se_Carrier = cd_Carrier b, se_Score = score b, se_Reasoning = r\<rparr>"
      using ne loop Some unfolding WeightedSelect_def Let_def score_def [symmetric]
      by (metis (no_types, lifting) case_prod_conv option.simps(5))
    have "b \<in> set cs" "cd_Available b" using b(1) mem by auto
    moreover have "\<forall>c' \<in> set cs. cd_Available c' \<longrightarrow> f_le (score c') (score b)"
      using b mem nan f_not_lt by blast
    ultimately show ?thesis using sel by auto
  qed
qed

text \<open>
  C30: With the cheapest strategy, a decision names a carrier of the registry that passes the
  checks of role, weight, dimensions and pickup (the only ones the code makes: zones are not
  looked at), the audit list is exactly the carriers that pass them, and no available candidate
  is cheaper.
\<close>

theorem Decide_cheapest:
  assumes "en_strategy e = CheapestStrategy" "Decide e now req role w = (Inr d, w')"
  shows "dc_Chosen d \<in> set (en_ListByRole e role) \<and> eligible_one req role (dc_Chosen d) \<and>
    map cd_Carrier (dc_Candidates d) = eligible e req role \<and>
    (\<exists>c \<in> set (dc_Candidates d). cd_Available c \<and> cd_Carrier c = dc_Chosen d \<and>
       (\<forall>c' \<in> set (dc_Candidates d). cd_Available c' \<longrightarrow> sint (cost c) \<le> sint (cost c')))"
  using assms(2)
proof (cases rule: Decide_cases)
  case (3 scored sel)
  then have d: "dc_Chosen d = se_Carrier sel" "dc_Candidates d = scored" by simp_all
  have sel: "CheapestSelect req scored = Inr sel" using 3 assms(1) by (simp add: CheapestStrategy_def)
  have car: "map cd_Carrier scored = eligible e req role" using score_candidates_spec [OF 3(2)] by simp
  from CheapestSelect_spec [of scored req] obtain i where i: "i < length scored" "cd_Available (scored ! i)"
      "se_Carrier sel = cd_Carrier (scored ! i)"
      "\<forall>j < length scored. cd_Available (scored ! j) \<longrightarrow> sint (cost (scored ! i)) \<le> sint (cost (scored ! j))"
    by (auto simp: sel)
  have mem: "scored ! i \<in> set scored" using i(1) by simp
  have "dc_Chosen d \<in> set (map cd_Carrier scored)" using mem i(3) d by auto
  then have "dc_Chosen d \<in> set (eligible e req role)" by (simp only: car)
  moreover have "\<exists>c \<in> set scored. cd_Available c \<and> cd_Carrier c = dc_Chosen d \<and>
       (\<forall>c' \<in> set scored. cd_Available c' \<longrightarrow> sint (cost c) \<le> sint (cost c'))"
  proof (rule bexI [OF _ mem])
    show "cd_Available (scored ! i) \<and> cd_Carrier (scored ! i) = dc_Chosen d \<and>
       (\<forall>c' \<in> set scored. cd_Available c' \<longrightarrow> sint (cost (scored ! i)) \<le> sint (cost c'))"
      using i d by (auto simp: in_set_conv_nth)
  qed
  ultimately show ?thesis using d car by (simp add: eligible_def)
qed simp_all

end
