(* ===== verification/Dispatch.thy ===== *)
theory Dispatch
  imports Stores Routing
begin

text \<open>
  \<open>internal/app/dispatch\<close>: routing a pending delivery, creating the shipment with the chosen
  carrier, and storing the result. The calls act on the storage \<open>'s\<close> and on the world \<open>'w\<close> the
  carriers are in. \<open>_ = s.deps.RoutingLog.Save(...)\<close> and \<open>_ = s.deps.Bus.Publish(...)\<close> discard
  the error but keep the effect. The \<open>Carriers\<close> of the Go \<open>Deps\<close> is not used by the service.
\<close>

section \<open>Operations\<close>

record ('s, 'w) dispatch_deps =
  dp_Deliveries :: "'s delivery_repo"
  dp_AWBs :: "'s awb_repo"
  dp_Routing :: "'w engine"
  dp_RoutingLog :: "'s routing_repo"
  dp_Bus :: "'s event_bus"

record dispatch_env =
  dv_now_decide :: gotime
  dv_now_state :: gotime

fun toPickupMode :: "location_type \<Rightarrow> pickup_mode" where
  "toPickupMode LocationLocker = PickupLocker"
| "toPickupMode LocationHub = PickupHub"
| "toPickupMode _ = PickupAddress"

definition buildShipmentRequest :: "awb \<Rightarrow> delivery \<Rightarrow> shipment_request" where
  "buildShipmentRequest a d =
     \<lparr>sr_InternalAWB = a_InternalAWB a, sr_IdempotencyKey = d_IdempotencyKey d,
      sr_Pickup =
        \<lparr>pl_Type = toPickupMode (l_Type (d_Pickup d)),
         pl_Point = \<lparr>g_Lat = l_Lat (d_Pickup d), g_Lng = l_Lng (d_Pickup d), g_AccuracyM = Num 0\<rparr>,
         pl_Address = address_zero\<lparr>ad_Street := l_Address (d_Pickup d)\<rparr>,
         pl_LockerID = l_LockerID (d_Pickup d), pl_HubID = []\<rparr>,
      sr_Drop =
        \<lparr>pl_Type = PickupAddress,
         pl_Point = \<lparr>g_Lat = l_Lat (d_Drop d), g_Lng = l_Lng (d_Drop d), g_AccuracyM = Num 0\<rparr>,
         pl_Address = address_zero\<lparr>ad_Street := l_Address (d_Drop d), ad_Floor := l_Floor (d_Drop d),
           ad_Apartment := l_Apartment (d_Drop d), ad_Instructions := l_Instructions (d_Drop d)\<rparr>,
         pl_LockerID = [], pl_HubID = []\<rparr>,
      sr_Package = \<lparr>pp_WeightKg = p_WeightKg (a_Package a), pp_LengthCm = Num 0, pp_WidthCm = Num 0,
        pp_HeightCm = Num 0, pp_DeclaredValueMinor = 0, pp_DeclaredValueCcy = [],
        pp_Description = [], pp_Fragile = False\<rparr>,
      sr_Recipient = \<lparr>rc_Name = [], rc_Phone = [], rc_Email = []\<rparr>,
      sr_ScheduledStart = d_ScheduledWindowStart d, sr_ScheduledEnd = d_ScheduledWindowEnd d,
      sr_Notes = [], sr_RequirePhotoPOD = True\<rparr>"

text \<open>The delivery after the carrier has accepted the shipment.\<close>

definition dispatched :: "gotime \<Rightarrow> delivery \<Rightarrow> capabilities \<Rightarrow> shipment_response \<Rightarrow> goerror + delivery" where
  "dispatched now d caps resp =
     Transition now (d\<lparr>d_CarrierID := c_ID caps, d_CarrierExternalID := sp_ExternalID resp,
                       d_EstimatedPickupAt := sp_EstimatedPickupAt resp,
                       d_EstimatedDropAt := sp_EstimatedDropAt resp\<rparr>) StateAssigned []"

definition DispatchDelivery ::
  "('s, 'w) dispatch_deps \<Rightarrow> dispatch_env \<Rightarrow> uuid \<Rightarrow> 's \<times> 'w \<Rightarrow> goerror option \<times> 's \<times> 'w" where
  "DispatchDelivery deps env deliveryID sw =
     (case sw of (s, w) \<Rightarrow>
      case dr_GetByID (dp_Deliveries deps) deliveryID s of
        Inl err \<Rightarrow> (Some err, s, w)
      | Inr d \<Rightarrow>
          if d_State d \<noteq> StatePending
          then (Some (Errorf ''dispatch: delivery %s not pending (state=%s)''
                        [FUuid deliveryID, FStr (state_string (d_State d))]), s, w)
          else case ar_GetByID (dp_AWBs deps) (d_AWBID d) s of
            Inl err \<Rightarrow> (Some err, s, w)
          | Inr a \<Rightarrow>
              (let req = buildShipmentRequest a d in
               case Decide (dp_Routing deps) (dv_now_decide env) req RoleLastMile w of
                 (Inl err, w1) \<Rightarrow> (Some (Wrapf ''dispatch: routing: %w'' [] err), s, w1)
               | (Inr dec, w1) \<Rightarrow>
                   (let caps = cp_Capabilities (dc_Chosen dec);
                        (_, s1) = rr_Save (dp_RoutingLog deps) deliveryID
                           \<lparr>rd_Strategy = dc_Strategy dec, rd_ChosenID = c_ID caps, rd_Score = dc_Score dec,
                            rd_Reasoning = dc_Reasoning dec, rd_Candidates = []\<rparr> s
                    in case cp_CreateShipment (dc_Chosen dec) req w1 of
                         (Inl err, w2) \<Rightarrow> (Some (Wrapf ''dispatch: carrier create: %w'' [] err), s1, w2)
                       | (Inr resp, w2) \<Rightarrow>
                           (case dispatched (dv_now_state env) d caps resp of
                              Inl err \<Rightarrow> (Some err, s1, w2)
                            | Inr d' \<Rightarrow>
                                (case dr_Save (dp_Deliveries deps) d' s1 of
                                   (Some err, s2) \<Rightarrow> (Some err, s2, w2)
                                 | (None, s2) \<Rightarrow>
                                     (let (_, s3) = eb_Publish (dp_Bus deps)
                                         [RiderAssignedEvent
                                            \<lparr>b_Type = ''rider.assigned'', b_Time = dc_DecidedAt dec,
                                             b_ExtID = sp_ExternalID resp, b_CarrierID = c_ID caps\<rparr>
                                            \<lparr>pr_ID = [], pr_Name = [], pr_Phone = [], pr_Vehicle = []\<rparr>] s2
                                      in (None, s3, w2)))))))"

text \<open>
  The same as a process, which stops at every call of a repository, of the engine, of the carrier and
  of the bus, where other goroutines run in between.
\<close>

datatype 'w dispatch_pc =
    DStart
  | DLoaded delivery
  | DParcel delivery awb
  | DDecided delivery shipment_request "'w decision"
  | DLogged delivery shipment_request "'w decision"
  | DCreated delivery domain_event
  | DSaved domain_event
  | DDone "goerror option"

fun dispatch_step ::
  "('s, 'w) dispatch_deps \<Rightarrow> dispatch_env \<Rightarrow> uuid \<Rightarrow> 'w dispatch_pc \<Rightarrow> 's \<times> 'w \<Rightarrow> 'w dispatch_pc \<times> 's \<times> 'w" where
  "dispatch_step deps env i DStart (s, w) =
     (case dr_GetByID (dp_Deliveries deps) i s of
        Inl err \<Rightarrow> (DDone (Some err), s, w)
      | Inr d \<Rightarrow>
          (if d_State d \<noteq> StatePending
           then DDone (Some (Errorf ''dispatch: delivery %s not pending (state=%s)''
                               [FUuid i, FStr (state_string (d_State d))]))
           else DLoaded d, s, w))"
| "dispatch_step deps env i (DLoaded d) (s, w) =
     (case ar_GetByID (dp_AWBs deps) (d_AWBID d) s of
        Inl err \<Rightarrow> (DDone (Some err), s, w)
      | Inr a \<Rightarrow> (DParcel d a, s, w))"
| "dispatch_step deps env i (DParcel d a) (s, w) =
     (case Decide (dp_Routing deps) (dv_now_decide env) (buildShipmentRequest a d) RoleLastMile w of
        (Inl err, w') \<Rightarrow> (DDone (Some (Wrapf ''dispatch: routing: %w'' [] err)), s, w')
      | (Inr dec, w') \<Rightarrow> (DDecided d (buildShipmentRequest a d) dec, s, w'))"
| "dispatch_step deps env i (DDecided d req dec) (s, w) =
     (case rr_Save (dp_RoutingLog deps) i
             \<lparr>rd_Strategy = dc_Strategy dec, rd_ChosenID = c_ID (cp_Capabilities (dc_Chosen dec)),
              rd_Score = dc_Score dec, rd_Reasoning = dc_Reasoning dec, rd_Candidates = []\<rparr> s of
        (_, s') \<Rightarrow> (DLogged d req dec, s', w))"
| "dispatch_step deps env i (DLogged d req dec) (s, w) =
     (case cp_CreateShipment (dc_Chosen dec) req w of
        (Inl err, w') \<Rightarrow> (DDone (Some (Wrapf ''dispatch: carrier create: %w'' [] err)), s, w')
      | (Inr resp, w') \<Rightarrow>
          (case dispatched (dv_now_state env) d (cp_Capabilities (dc_Chosen dec)) resp of
             Inl err \<Rightarrow> (DDone (Some err), s, w')
           | Inr d' \<Rightarrow>
               (DCreated d' (RiderAssignedEvent
                  \<lparr>b_Type = ''rider.assigned'', b_Time = dc_DecidedAt dec,
                   b_ExtID = sp_ExternalID resp, b_CarrierID = c_ID (cp_Capabilities (dc_Chosen dec))\<rparr>
                  \<lparr>pr_ID = [], pr_Name = [], pr_Phone = [], pr_Vehicle = []\<rparr>), s, w')))"
| "dispatch_step deps env i (DCreated d' ev) (s, w) =
     (case dr_Save (dp_Deliveries deps) d' s of
        (Some err, s') \<Rightarrow> (DDone (Some err), s', w)
      | (None, s') \<Rightarrow> (DSaved ev, s', w))"
| "dispatch_step deps env i (DSaved ev) (s, w) =
     (case eb_Publish (dp_Bus deps) [ev] s of (_, s') \<Rightarrow> (DDone None, s', w))"
| "dispatch_step deps env i (DDone r) (s, w) = (DDone r, s, w)"

fun dispatch_steps ::
  "('s, 'w) dispatch_deps \<Rightarrow> dispatch_env \<Rightarrow> uuid \<Rightarrow> nat \<Rightarrow> 'w dispatch_pc \<Rightarrow> 's \<times> 'w \<Rightarrow> 'w dispatch_pc \<times> 's \<times> 'w" where
  "dispatch_steps deps env i 0 pc sw = (pc, sw)"
| "dispatch_steps deps env i (Suc n) pc sw =
     (case dispatch_step deps env i pc sw of (pc', sw') \<Rightarrow> dispatch_steps deps env i n pc' sw')"

text \<open>Run without interruption, the seven steps are \<open>DispatchDelivery\<close>.\<close>

lemma dispatch_steps_done: "dispatch_steps deps env i n (DDone r) (s, w) = (DDone r, s, w)"
  by (induction n) simp_all

theorem dispatch_seven_steps:
  "dispatch_steps deps env i 7 DStart sw =
     (case DispatchDelivery deps env i sw of (r, sw') \<Rightarrow> (DDone r, sw'))"
  by (cases sw) (simp add: DispatchDelivery_def Let_def eval_nat_numeral dispatch_steps_done
      split: sum.split option.split prod.split)

text \<open>\<open>envs n\<close> is what the \<open>n\<close>-th dispatch of the batch draws from outside.\<close>

fun dispatch_each ::
  "('s, 'w) dispatch_deps \<Rightarrow> (nat \<Rightarrow> dispatch_env) \<Rightarrow> nat \<Rightarrow> delivery list \<Rightarrow> nat \<Rightarrow> 's \<times> 'w \<Rightarrow> nat \<times> 's \<times> 'w" where
  "dispatch_each deps envs n [] ok sw = (ok, sw)"
| "dispatch_each deps envs n (d # ds) ok sw =
     (case DispatchDelivery deps (envs n) (d_ID d) sw of
        (Some _, sw1) \<Rightarrow> dispatch_each deps envs (Suc n) ds ok sw1
      | (None, sw1) \<Rightarrow> dispatch_each deps envs (Suc n) ds (ok + 1) sw1)"

definition DispatchPending ::
  "('s, 'w) dispatch_deps \<Rightarrow> (nat \<Rightarrow> dispatch_env) \<Rightarrow> int \<Rightarrow> 's \<times> 'w \<Rightarrow> (goerror + nat) \<times> 's \<times> 'w" where
  "DispatchPending deps envs limit sw =
     (let limit = (if limit \<le> 0 then 20 else limit)
      in case dr_ListByState (dp_Deliveries deps) StatePending limit (fst sw) of
           Inl err \<Rightarrow> (Inl err, sw)
         | Inr pending \<Rightarrow>
             (case dispatch_each deps envs 0 pending 0 sw of (ok, sw') \<Rightarrow> (Inr ok, sw')))"

section \<open>Facts\<close>

definition assigned :: "gotime \<Rightarrow> delivery \<Rightarrow> capabilities \<Rightarrow> shipment_response \<Rightarrow> delivery" where
  "assigned now d caps resp =
     d\<lparr>d_CarrierID := c_ID caps, d_CarrierExternalID := sp_ExternalID resp,
       d_EstimatedPickupAt := sp_EstimatedPickupAt resp, d_EstimatedDropAt := sp_EstimatedDropAt resp,
       d_State := StateAssigned, d_StateReason := [], d_UpdatedAt := time_UTC now\<rparr>"

lemma dispatched_pending:
  "d_State d = StatePending \<Longrightarrow> dispatched now d caps resp = Inr (assigned now d caps resp)"
  by (simp add: dispatched_def Transition_cases assigned_def)

lemma assigned_simps [simp]:
  "d_ID (assigned now d caps resp) = d_ID d" "d_AWBID (assigned now d caps resp) = d_AWBID d"
  "d_State (assigned now d caps resp) = StateAssigned"
  "d_IdempotencyKey (assigned now d caps resp) = d_IdempotencyKey d"
  "d_Pickup (assigned now d caps resp) = d_Pickup d"
  "d_CarrierID (assigned now d caps resp) = c_ID caps"
  "d_CarrierExternalID (assigned now d caps resp) = sp_ExternalID resp"
  by (simp_all add: assigned_def)

lemma buildShipmentRequest_simps [simp]:
  "rc_Phone (sr_Recipient (buildShipmentRequest a d)) = []"
  "sr_IdempotencyKey (buildShipmentRequest a d) = d_IdempotencyKey d"
  "pl_Type (sr_Pickup (buildShipmentRequest a d)) = toPickupMode (l_Type (d_Pickup d))"
  by (simp_all add: buildShipmentRequest_def)

text \<open>What a dispatch does to the state of a delivery, and a delivery it has read as pending.\<close>

definition dispatch_edge :: "dstate \<Rightarrow> dstate \<Rightarrow> bool" where
  "dispatch_edge a b \<longleftrightarrow> a = StatePending \<and> b = StateAssigned"

lemma dispatch_edge_state: "dispatch_edge a b \<Longrightarrow> state_edge a b"
  by (simp add: dispatch_edge_def)

lemma dispatch_edges: "dispatch_edge\<^sup>*\<^sup>* a b \<longleftrightarrow> a = b \<or> a = StatePending \<and> b = StateAssigned"
proof
  assume "dispatch_edge\<^sup>*\<^sup>* a b"
  then show "a = b \<or> a = StatePending \<and> b = StateAssigned"
    by induction (auto simp: dispatch_edge_def)
next
  assume "a = b \<or> a = StatePending \<and> b = StateAssigned"
  then show "dispatch_edge\<^sup>*\<^sup>* a b" using r_into_rtranclp [of dispatch_edge a b] by (auto simp: dispatch_edge_def)
qed

lemmas moves_dispatch = moves_def [where E = dispatch_edge, unfolded dispatch_edges]

definition loaded_at :: "(uuid \<rightharpoonup> delivery) \<Rightarrow> uuid \<Rightarrow> delivery \<Rightarrow> bool" where
  "loaded_at m i d \<longleftrightarrow> d_ID d = i \<and> d_State d = StatePending \<and>
     (\<exists>d0. m i = Some d0 \<and> moves dispatch_edge d d0)"

lemma loaded_at_pending: "loaded_at m i d \<Longrightarrow> d_State d = StatePending"
  by (simp add: loaded_at_def)

lemma loaded_at_assigned:
  "loaded_at m i d \<Longrightarrow> d_ID d = i \<and> (\<exists>d0. m i = Some d0 \<and> moves dispatch_edge d0 (assigned now d caps resp))"
  by (auto simp: loaded_at_def moves_dispatch)

lemma DispatchDelivery_cases:
  assumes "DispatchDelivery deps env i (s, w) = (err, s', w')"
  obtains (unread) "err \<noteq> None" "s' = s"
  | (uncreated) x rec where "err \<noteq> None" "rr_Save (dp_RoutingLog deps) i rec s = (x, s')"
  | (created) d a dec w1 rec x s1 resp r s2 where
      "dr_GetByID (dp_Deliveries deps) i s = Inr d" "d_State d = StatePending"
      "ar_GetByID (dp_AWBs deps) (d_AWBID d) s = Inr a"
      "Decide (dp_Routing deps) (dv_now_decide env) (buildShipmentRequest a d) RoleLastMile w = (Inr dec, w1)"
      "rr_Save (dp_RoutingLog deps) i rec s = (x, s1)"
      "cp_CreateShipment (dc_Chosen dec) (buildShipmentRequest a d) w1 = (Inr resp, w')"
      "dr_Save (dp_Deliveries deps) (assigned (dv_now_state env) d (cp_Capabilities (dc_Chosen dec)) resp) s1 = (r, s2)"
      "case r of Some _ \<Rightarrow> err = r \<and> s' = s2 | None \<Rightarrow> err = None \<and> (\<exists>x3 evs. eb_Publish (dp_Bus deps) evs s2 = (x3, s'))"
  using assms
  by (fastforce simp: DispatchDelivery_def Let_def dispatched_pending
      split: sum.splits if_splits prod.splits option.splits)

section \<open>On any storage\<close>

context app_store
begin

text \<open>
  A step of one dispatch, with others under way: the aggregates stay as they are, or a delivery that
  is pending or was assigned in the meantime becomes assigned. What the call has read is still there,
  up to that.
\<close>

fun dispatch_ok :: "'s \<Rightarrow> uuid \<Rightarrow> 'w dispatch_pc \<Rightarrow> bool" where
  "dispatch_ok s i (DLoaded d) \<longleftrightarrow> loaded_at (dels s) i d"
| "dispatch_ok s i (DParcel d a) \<longleftrightarrow> loaded_at (dels s) i d"
| "dispatch_ok s i (DDecided d req dec) \<longleftrightarrow> loaded_at (dels s) i d \<and> sr_IdempotencyKey req = d_IdempotencyKey d"
| "dispatch_ok s i (DLogged d req dec) \<longleftrightarrow> loaded_at (dels s) i d \<and> sr_IdempotencyKey req = d_IdempotencyKey d"
| "dispatch_ok s i (DCreated d' ev) \<longleftrightarrow> d_ID d' = i \<and> d_State d' = StateAssigned \<and>
     (\<exists>d0. dels s i = Some d0 \<and> moves dispatch_edge d0 d')"
| "dispatch_ok s i (DSaved ev) \<longleftrightarrow> (\<exists>d0. dels s i = Some d0 \<and> d_State d0 = StateAssigned)"
| "dispatch_ok s i (DDone (Some err)) \<longleftrightarrow> True"
| "dispatch_ok s i (DDone None) \<longleftrightarrow> (\<exists>d0. dels s i = Some d0 \<and> d_State d0 = StateAssigned)"
| "dispatch_ok s i DStart \<longleftrightarrow> True"

lemma dispatch_ok_mono:
  assumes "dispatch_ok s j pc" "dels_move dels dispatch_edge s s'"
  shows "dispatch_ok s' j pc"
proof -
  have moved: "\<exists>d1. dels s' j = Some d1 \<and> moves dispatch_edge d0 d1" if "dels s j = Some d0" for d0
    using assms(2) that by (auto simp: dels_move_def option_rel_Some1 dest: spec [of _ j])
  show ?thesis
    using assms(1) moved
    by (cases "(s, j, pc)" rule: dispatch_ok.cases)
      (auto simp: loaded_at_def moves_dispatch dest!: moved; blast)+
qed

lemma dispatch_save:
  assumes "inv s" "app_inv H awbs dels chain s" "dels s i = Some d0" "moves dispatch_edge d0 d'"
    "d_ID d' = i" "d_State d' = StateAssigned" "dr_Save del_rp d' s = (r, s')"
  shows "kept inv H awbs dels chain dispatch_edge s s' \<and> chain s' = chain s \<and> awbs s' = awbs s \<and>
    (if r = None then \<exists>d''. same_delivery d' d'' \<and> dels s' = (dels s)(i \<mapsto> d'') else dels s' = dels s)"
proof -
  have d0: "delivery_ok awbs chain s i d0" using app_invD(3) [OF assms(2,3)] .
  then have ok: "delivery_ok awbs chain s i d'"
    using assms(4-6) by (simp add: delivery_ok_def moves_def delivery_evidence_def carried_def)
  have st: "delivery_storable (dels s) d'" by (rule delivery_ok_storable [where m = "dels s", OF ok assms(3,4)])
  note saved = del_saved [OF assms(1) st assms(7)]
  show ?thesis
  proof (cases r)
    case (Some err)
    with saved app_inv_same [OF assms(2)] show ?thesis by (simp add: kept_def)
  next
    case None
    with saved assms(5) obtain d'' where d'': "same_delivery d' d''" "dels s' = (dels s)(i \<mapsto> d'')" by auto
    have "kept inv H awbs dels chain dispatch_edge s s'"
      using app_inv_delivery [OF assms(2) delivery_ok_same [OF ok d''(1)] d''(2)]
        move_upd [OF assms(3) moves_same [OF assms(4) d''(1)] d''(2)] saved by (simp add: kept_def)
    with saved None d'' show ?thesis by auto
  qed
qed

lemma dispatch_step_ok:
  assumes "inv s" "app_inv H awbs dels chain s" "dispatch_ok s i pc"
    and st: "dispatch_step \<lparr>dp_Deliveries = del_rp, dp_AWBs = awb_rp, dp_Routing = eng,
      dp_RoutingLog = rlog, dp_Bus = bus\<rparr> env i pc (s, w) = (pc', s', w')"
  shows "kept inv H awbs dels chain dispatch_edge s s' \<and> chain s' = chain s \<and> awbs s' = awbs s \<and> dispatch_ok s' i pc'"
proof -
  have reads: ?thesis if "awbs s' = awbs s" "dels s' = dels s" "chain s' = chain s" "inv s'" "dispatch_ok s i pc'"
    using that app_inv_same [OF assms(2)] dispatch_ok_mono [OF that(5), of s'] by (simp add: kept_def)
  show ?thesis
  proof (cases pc)
    case DStart
    then show ?thesis
      using st assms(1) by (intro reads) (auto simp: loaded_at_def split: sum.splits if_splits dest!: del_get)
  next
    case (DLogged d req dec)
    then show ?thesis
      using st assms(1,3)
      by (intro reads) (auto simp: loaded_at_assigned dispatched_pending [OF loaded_at_pending] split: sum.splits prod.splits)
  next
    case (DCreated d' ev)
    then obtain d0 r where d0: "dels s i = Some d0" "moves dispatch_edge d0 d'" "d_ID d' = i" "d_State d' = StateAssigned"
      and r: "dr_Save del_rp d' s = (r, s')" "pc' = (case r of Some err \<Rightarrow> DDone (Some err) | None \<Rightarrow> DSaved ev)"
      using st assms(3) by (auto split: prod.splits option.splits)
    with dispatch_save [OF assms(1,2) d0 r(1)] show ?thesis by (auto simp: same_delivery_def split: option.splits)
  qed (use st assms(1,3) in \<open>(intro reads; auto split: sum.splits prod.splits dest: rlog_frame bus_frame)\<close>)+
qed

text \<open>A dispatch fails and leaves the aggregates alone, or assigns the pending delivery.\<close>

lemma dispatch_delivery:
  assumes "inv s" "app_inv H awbs dels chain s"
    and dis: "DispatchDelivery \<lparr>dp_Deliveries = del_rp, dp_AWBs = awb_rp, dp_Routing = eng,
      dp_RoutingLog = rlog, dp_Bus = bus\<rparr> env i (s, w) = (err, s', w')"
  shows "inv s' \<and> awbs s' = awbs s \<and> chain s' = chain s \<and>
    (case err of
       Some _ \<Rightarrow> dels s' = dels s
     | None \<Rightarrow> \<exists>d a dec w1 resp d'.
         dels s i = Some d \<and> d_ID d = i \<and> d_State d = StatePending \<and> awbs s (d_AWBID d) = Some a \<and>
         Decide eng (dv_now_decide env) (buildShipmentRequest a d) RoleLastMile w = (Inr dec, w1) \<and>
         cp_CreateShipment (dc_Chosen dec) (buildShipmentRequest a d) w1 = (Inr resp, w') \<and>
         same_delivery (assigned (dv_now_state env) d (cp_Capabilities (dc_Chosen dec)) resp) d' \<and>
         dels s' = (dels s)(i \<mapsto> d'))"
  using dis
proof (cases rule: DispatchDelivery_cases)
  case unread
  with assms show ?thesis by auto
next
  case (uncreated x rec)
  with rlog_frame [OF assms(1)] show ?thesis by auto
next
  case (created d a dec w1 rec x s1 resp r s2)
  note created = created [simplified]
  have d: "dels s i = Some d" "d_ID d = i" "awbs s (d_AWBID d) = Some a"
    using del_get awb_get assms(1) created by auto
  note f1 = rlog_frame [OF assms(1) created(5)]
  let ?d' = "assigned (dv_now_state env) d (cp_Capabilities (dc_Chosen dec)) resp"
  have "app_inv H awbs dels chain s1" "dels s1 i = Some d" "moves dispatch_edge d ?d'"
    using app_inv_same [OF assms(2)] f1 d created(2) by (auto simp: moves_dispatch)
  from dispatch_save [OF _ this _ _ created(7)] f1 d
  have f2: "inv s2 \<and> awbs s2 = awbs s \<and> chain s2 = chain s \<and>
      (if r = None then \<exists>d'. same_delivery ?d' d' \<and> dels s2 = (dels s)(i \<mapsto> d') else dels s2 = dels s)"
    by (auto simp: kept_def)
  show ?thesis
  proof (cases r)
    case (Some e)
    with created f2 show ?thesis by simp
  next
    case None
    with created(8) obtain x3 evs where "eb_Publish bus evs s2 = (x3, s')" "err = None" by auto
    with bus_frame [OF _ this(1)] f2 None d created show ?thesis by auto
  qed
qed

lemma dispatch_delivery_step:
  assumes "inv s" "app_inv H awbs dels chain s"
    and dis: "DispatchDelivery \<lparr>dp_Deliveries = del_rp, dp_AWBs = awb_rp, dp_Routing = eng,
      dp_RoutingLog = rlog, dp_Bus = bus\<rparr> env i (s, w) = (err, s', w')"
  shows "kept inv H awbs dels chain state_edge s s' \<and> chain s' = chain s"
proof (cases err)
  case (Some e)
  then show ?thesis
    using dispatch_delivery [OF assms] app_inv_same [OF assms(2)] by (simp add: kept_def)
next
  case None
  with dispatch_delivery [OF assms] obtain d caps resp d' where d: "dels s i = Some d" "d_ID d = i"
      "d_State d = StatePending" "same_delivery (assigned (dv_now_state env) d caps resp) d'"
    and s': "dels s' = (dels s)(i \<mapsto> d')" "awbs s' = awbs s"
      "chain s' = chain s" "inv s'"
    by auto
  have "delivery_ok awbs chain s i (assigned (dv_now_state env) d caps resp)"
    using app_invD(3) [OF assms(2) d(1)] by (simp add: delivery_ok_def delivery_evidence_def carried_def)
  then have "delivery_ok awbs chain s i d'" by (rule delivery_ok_same [OF _ d(4)])
  moreover have "moves state_edge d (assigned (dv_now_state env) d caps resp)"
    using d(3) by (auto simp: moves_def intro!: r_into_rtranclp)
  then have "moves state_edge d d'" by (rule moves_same [OF _ d(4)])
  ultimately show ?thesis
    using app_inv_delivery [OF assms(2) _ s'(1-3)] move_upd [OF d(1) _ s'(1)] s' by (simp add: kept_def)
qed

lemma dispatch_each_step:
  assumes "inv s" "app_inv H awbs dels chain s"
    and "dispatch_each \<lparr>dp_Deliveries = del_rp, dp_AWBs = awb_rp, dp_Routing = eng,
      dp_RoutingLog = rlog, dp_Bus = bus\<rparr> envs n ds ok (s, w) = (ok', s', w')"
  shows "kept inv H awbs dels chain state_edge s s' \<and> chain s' = chain s"
  using assms
proof (induction ds arbitrary: n ok s w)
  case Nil
  then show ?case using keep_refl by simp
next
  case (Cons d ds)
  obtain r s1 w1 where r: "DispatchDelivery \<lparr>dp_Deliveries = del_rp, dp_AWBs = awb_rp, dp_Routing = eng,
      dp_RoutingLog = rlog, dp_Bus = bus\<rparr> (envs n) (d_ID d) (s, w) = (r, s1, w1)"
    by (metis prod_cases3)
  have s1: "kept inv H awbs dels chain state_edge s s1 \<and> chain s1 = chain s"
    using dispatch_delivery_step [OF Cons.prems(1,2) r] .
  obtain m where "dispatch_each \<lparr>dp_Deliveries = del_rp, dp_AWBs = awb_rp, dp_Routing = eng,
      dp_RoutingLog = rlog, dp_Bus = bus\<rparr> envs (Suc n) ds m (s1, w1) = (ok', s', w')"
    using Cons.prems(3) r by (cases r) auto
  with Cons.IH [of s1] s1 have "kept inv H awbs dels chain state_edge s1 s' \<and> chain s' = chain s1"
    by (simp add: kept_def)
  then show ?case using s1 keep_trans [of H state_edge s s1 s'] by simp
qed

lemma dispatch_pending_step:
  assumes "inv s" "app_inv H awbs dels chain s"
    and "DispatchPending \<lparr>dp_Deliveries = del_rp, dp_AWBs = awb_rp, dp_Routing = eng,
      dp_RoutingLog = rlog, dp_Bus = bus\<rparr> envs limit (s, w) = (r, s', w')"
  shows "kept inv H awbs dels chain state_edge s s' \<and> chain s' = chain s"
proof (cases "dr_ListByState del_rp StatePending (if limit \<le> 0 then 20 else limit) s")
  case (Inl err)
  then show ?thesis using assms keep_refl [OF assms(1,2)] by (auto simp: DispatchPending_def Let_def)
next
  case (Inr ds)
  then obtain ok where "dispatch_each \<lparr>dp_Deliveries = del_rp, dp_AWBs = awb_rp, dp_Routing = eng,
      dp_RoutingLog = rlog, dp_Bus = bus\<rparr> envs 0 ds 0 (s, w) = (ok, s', w')"
    using assms(3) by (auto simp: DispatchPending_def Let_def split: prod.splits)
  then show ?thesis by (rule dispatch_each_step [OF assms(1,2)])
qed

end

end
