(* ===== verification/CustodyApp.thy ===== *)
theory CustodyApp
  imports Stores
begin

text \<open>
  \<open>internal/app/custodyapp\<close>: recording a custody event and moving the delivery along with it.
  \<^term>\<open>custody_Record\<close> returns the event, if one was appended, and the error, if there was
  one; the Go method returns both as well. The log line after the last write reads the first
  12 characters of the hash, which has 64. The \<open>Bus\<close> of the Go \<open>Deps\<close> is not used by the service.
\<close>

section \<open>Operations\<close>

record 's custody_deps =
  cu_hash :: hash_fns
  cu_repo :: "'s custody_repo"
  cu_Deliveries :: "'s delivery_repo"

record record_input =
  ri_DeliveryID :: uuid
  ri_Type :: event_type
  ri_Actor :: actor
  ri_Location :: "custody_geo option"
  ri_Photos :: "photo_ref list"
  ri_Reason :: string

text \<open>The new event's identifier and the readings of the clock of one call.\<close>

record record_env =
  rv_eventID :: uuid
  rv_now_event :: gotime
  rv_now_mark :: gotime
  rv_now_state :: gotime

definition applyDeliveryTransition :: "record_env \<Rightarrow> delivery \<Rightarrow> event_type \<Rightarrow> goerror + delivery" where
  "applyDeliveryTransition env d t =
     (case t of
        EventRiderAssigned \<Rightarrow> Transition (rv_now_state env) d StateAssigned []
      | EventRiderArrivedAtLocker \<Rightarrow> Transition (rv_now_state env) d StateEnRoutePickup []
      | EventPackagePickedUp \<Rightarrow> MarkPickedUp (rv_now_state env) d (time_UTC (rv_now_mark env))
      | EventRiderInTransit \<Rightarrow> Transition (rv_now_state env) d StateInTransit []
      | EventRiderArrivedAtDestination \<Rightarrow> Transition (rv_now_state env) d StateEnRouteDrop []
      | EventPackageDelivered \<Rightarrow> MarkDelivered (rv_now_state env) d (time_UTC (rv_now_mark env))
      | EventDeliveryFailed \<Rightarrow> MarkFailed (rv_now_state env) d ''custody_event''
      | _ \<Rightarrow> Inr d)"

definition record_event :: "record_env \<Rightarrow> record_input \<Rightarrow> event" where
  "record_event env i =
     \<lparr>e_EventID = uuid_Nil, e_DeliveryID = ri_DeliveryID i, e_SequenceNum = 0, e_Type = ri_Type i,
      e_OccurredAt = time_UTC (rv_now_event env), e_CarrierTime = None, e_Actor = ri_Actor i,
      e_Location = ri_Location i, e_Photos = ri_Photos i, e_Signature = None,
      e_Reason = ri_Reason i, e_Metadata = [], e_PrevHash = [], e_Hash = []\<rparr>"

definition custody_Record ::
  "'s custody_deps \<Rightarrow> record_env \<Rightarrow> record_input \<Rightarrow> 's \<Rightarrow> (event option \<times> goerror option) \<times> 's" where
  "custody_Record deps env i s =
     (case dr_GetByID (cu_Deliveries deps) (ri_DeliveryID i) s of
        Inl err \<Rightarrow> ((None, Some err), s)
      | Inr d \<Rightarrow>
          (case Ledger_Record (cu_hash deps) (cu_repo deps) (rv_eventID env) (record_event env i) s of
             (Inl err, s1) \<Rightarrow> ((None, Some err), s1)
           | (Inr recorded, s1) \<Rightarrow>
               (case applyDeliveryTransition env d (ri_Type i) of
                  Inl err \<Rightarrow> ((Some recorded, Some err), s1)
                | Inr d' \<Rightarrow>
                    (case dr_Save (cu_Deliveries deps) d' s1 of
                       (Some err, s2) \<Rightarrow> ((Some recorded, Some err), s2)
                     | (None, s2) \<Rightarrow> ((Some recorded, None), s2)))))"

definition custody_ListEvents :: "'s custody_deps \<Rightarrow> uuid \<Rightarrow> 's \<Rightarrow> goerror + event list" where
  "custody_ListEvents deps d s = Ledger_List (cu_repo deps) d s"

definition custody_VerifyChain :: "'s custody_deps \<Rightarrow> uuid \<Rightarrow> 's \<Rightarrow> goerror option" where
  "custody_VerifyChain deps d s = Ledger_Verify (cu_hash deps) (cu_repo deps) d s"

section \<open>The transition an event implies\<close>

fun event_target :: "event_type \<Rightarrow> dstate option" where
  "event_target EventRiderAssigned = Some StateAssigned"
| "event_target EventRiderArrivedAtLocker = Some StateEnRoutePickup"
| "event_target EventPackagePickedUp = Some StatePickedUp"
| "event_target EventRiderInTransit = Some StateInTransit"
| "event_target EventRiderArrivedAtDestination = Some StateEnRouteDrop"
| "event_target EventPackageDelivered = Some StateDelivered"
| "event_target EventDeliveryFailed = Some StateFailed"
| "event_target _ = None"

definition event_edge :: "event_type \<Rightarrow> dstate \<Rightarrow> dstate \<Rightarrow> bool" where
  "event_edge t a b \<longleftrightarrow> state_edge a b \<and> event_target t = Some b"

text \<open>The fields no transition touches.\<close>

definition same_job :: "delivery \<Rightarrow> delivery \<Rightarrow> bool" where
  "same_job d d' \<longleftrightarrow> d_ID d' = d_ID d \<and> d_AWBID d' = d_AWBID d \<and> d_LegNumber d' = d_LegNumber d \<and>
     d_CarrierID d' = d_CarrierID d \<and> d_CarrierExternalID d' = d_CarrierExternalID d \<and>
     d_Rider d' = d_Rider d \<and> d_IdempotencyKey d' = d_IdempotencyKey d \<and>
     d_PriceQuotedMinor d' = d_PriceQuotedMinor d \<and> d_Pickup d' = d_Pickup d"

lemma apply_target:
  "applyDeliveryTransition env d t = Inr d' \<Longrightarrow>
     same_job d d' \<and>
     (case event_target t of
        None \<Rightarrow> d' = d
      | Some st \<Rightarrow> state_edge (d_State d) st \<and> d_State d' = st)"
  by (cases t)
    (simp_all add: applyDeliveryTransition_def Transition_cases MarkPickedUp_cases MarkDelivered_cases
      MarkFailed_def same_job_def)

lemma apply_error:
  "applyDeliveryTransition env d t = Inl err \<longleftrightarrow>
     (\<exists>st. event_target t = Some st \<and> \<not> state_edge (d_State d) st \<and>
        err = Errorf ''delivery: invalid transition %s -> %s''
                [FStr (state_string (d_State d)), FStr (state_string st)])"
  by (cases t)
    (auto simp: applyDeliveryTransition_def Transition_def canTransitionTo_edge MarkPickedUp_def
      MarkDelivered_def MarkFailed_def split: sum.splits if_splits)

text \<open>A transition never asks for more evidence than the chain with the event has.\<close>

lemma target_evidence:
  assumes ev: "delivery_evidence es st" and edge: "state_edge st st'" and t: "event_target t = Some st'"
    and e: "e_Type e = t" "RequiresPhoto t \<longrightarrow> e_Photos e \<noteq> []" "RequiresGPS t \<longrightarrow> e_Location e \<noteq> None"
  shows "delivery_evidence (es @ [e]) st'"
proof (cases t)
  case EventPackagePickedUp
  then show ?thesis using t e by (auto simp: delivery_evidence_def has_evidence_def)
next
  case EventPackageDelivered
  then have "st \<in> {StateInTransit, StateEnRouteDrop}" using edge t by (auto simp: state_edge_into)
  then show ?thesis
    using EventPackageDelivered ev t e by (auto simp: delivery_evidence_def has_evidence_def carried_def)
next
  case EventRiderInTransit
  then have "st = StatePickedUp" using edge t by (auto simp: state_edge_into)
  then show ?thesis
    using EventRiderInTransit ev t by (auto simp: delivery_evidence_def has_evidence_def carried_def)
next
  case EventRiderArrivedAtDestination
  then have "st \<in> {StatePickedUp, StateInTransit}" using edge t by (auto simp: state_edge_into)
  then show ?thesis
    using EventRiderArrivedAtDestination ev t
    by (auto simp: delivery_evidence_def has_evidence_def carried_def)
qed (use t in \<open>auto simp: delivery_evidence_def carried_def\<close>)

lemma event_target_declared:
  "event_target t = Some st \<Longrightarrow> declared_state st \<and> st \<noteq> StateReturnedToOrigin"
  by (cases t) auto

section \<open>On any storage\<close>

context app_store
begin

text \<open>The four ways a call can end.\<close>

lemma transition_storable:
  assumes "app_inv H awbs dels chain s" "dels s i = Some d" "applyDeliveryTransition env d t = Inr d'"
  shows "delivery_storable (dels s) d'" and "d_ID d' = i" and "moves (event_edge t) d d'"
proof -
  have ok: "delivery_ok awbs chain s i d" by (rule app_invD(3) [OF assms(1,2)])
  have job: "same_job d d'" using apply_target [OF assms(3)] by simp
  show "d_ID d' = i" using ok job by (simp add: delivery_ok_def same_job_def)
  have "declared_state (d_State d')"
    using apply_target [OF assms(3)] ok event_target_declared by (auto simp: delivery_ok_def split: option.splits)
  then show "delivery_storable (dels s) d'"
    using ok job assms(2) by (auto simp: delivery_storable_def delivery_ok_def same_job_def)
  show "moves (event_edge t) d d'"
    using apply_target [OF assms(3)] by (auto simp: moves_def same_job_def event_edge_def split: option.splits)
qed

lemma custody_record:
  assumes "inv s" "app_inv H awbs dels chain s" "fresh_event chain s (rv_eventID env)"
    "fits (record_event env i)"
    and rec: "custody_Record \<lparr>cu_hash = H, cu_repo = repo, cu_Deliveries = del_rp\<rparr> env i s = ((re, err), s')"
  shows "inv s' \<and> ledger_intact H chain s' \<and> awbs s' = awbs s \<and>
    (case re of
       None \<Rightarrow> err \<noteq> None \<and> chain s' = chain s \<and> dels s' = dels s
     | Some e \<Rightarrow> \<exists>d. dels s (ri_DeliveryID i) = Some d \<and> d_ID d = ri_DeliveryID i \<and>
         chain s' = (chain s)(ri_DeliveryID i := chain s (ri_DeliveryID i) @ [keep e]) \<and>
         e_EventID (keep e) = rv_eventID env \<and> same_content (record_event env i) (keep e) \<and>
         Validate (record_event env i) = None \<and>
         (case err of
            Some _ \<Rightarrow> dels s' = dels s
          | None \<Rightarrow> \<exists>d' d''. applyDeliveryTransition env d (ri_Type i) = Inr d' \<and> same_delivery d' d'' \<and>
              dels s' = (dels s)(ri_DeliveryID i \<mapsto> d'')))"
proof (cases "dr_GetByID del_rp (ri_DeliveryID i) s")
  case (Inl e)
  then show ?thesis using assms app_invD(1) [OF assms(2)] by (auto simp: custody_Record_def)
next
  case (Inr d)
  have d: "dels s (ri_DeliveryID i) = Some d" "d_ID d = ri_DeliveryID i"
    using del_get [OF assms(1) Inr] by auto
  obtain r1 s1 where r1: "Ledger_Record H repo (rv_eventID env) (record_event env i) s = (r1, s1)"
    by fastforce
  note led = app_invD(1) [OF assms(2)]
  note frame = record_frame [OF assms(1) r1]
  note rd = recorded [OF assms(1) led assms(3,4) r1]
  have intact: "ledger_intact H chain s1" by (rule record_intact [OF assms(1) led assms(3,4) r1])
  have id: "e_DeliveryID (record_event env i) = ri_DeliveryID i" by (simp add: record_event_def)
  show ?thesis
  proof (cases r1)
    case (Inl e)
    then show ?thesis using rec Inr r1 frame rd intact by (auto simp: custody_Record_def)
  next
    case e: (Inr e)
    note rd' = rd [unfolded e sum.case id]
    show ?thesis
    proof (cases "applyDeliveryTransition env d (ri_Type i)")
      case (Inl er)
      then have "re = Some e" "err = Some er" "s' = s1"
        using rec Inr r1 e by (auto simp: custody_Record_def)
      then show ?thesis using d frame rd' intact by auto
    next
      case d': (Inr d')
      obtain r2 s2 where s2: "dr_Save del_rp d' s1 = (r2, s2)" by fastforce
      note st = transition_storable [OF assms(2) d(1) d']
      have "delivery_storable (dels s1) d'" "inv s1" using st frame by simp_all
      note f2 = del_saved [OF this(2,1) s2, unfolded st(2)]
      have res: "re = Some e" "err = r2" "s' = s2"
        using rec Inr r1 e d' s2 by (auto simp: custody_Record_def split: option.splits)
      have "ledger_intact H chain s2" using intact f2 by (simp add: ledger_intact_def)
      then show ?thesis
        using d d' frame rd' f2 res by (auto split: option.split)
    qed
  qed
qed

lemma applied_delivery_ok:
  assumes ok: "delivery_ok awbs chain s (ri_DeliveryID i) d"
    and ap: "applyDeliveryTransition env d (ri_Type i) = Inr d'"
    and val: "Validate (record_event env i) = None"
    and e: "same_content (record_event env i) (keep e)"
    and ch: "chain s' = (chain s)(ri_DeliveryID i := chain s (ri_DeliveryID i) @ [keep e])"
    and aw: "awbs s' = awbs s"
  shows "delivery_ok awbs chain s' (ri_DeliveryID i) d'"
proof (cases "event_target (ri_Type i)")
  case None
  then have "d' = d" using apply_target [OF ap] by simp
  then show ?thesis using ok aw ch by (simp add: delivery_ok_def evidence_snoc)
next
  case (Some st)
  then have st: "state_edge (d_State d) st" "d_State d' = st" using apply_target [OF ap] by auto
  have "delivery_evidence (chain s (ri_DeliveryID i) @ [keep e]) st"
    using ok st Some e val
    by (intro target_evidence [where st = "d_State d" and t = "ri_Type i"])
      (auto simp: delivery_ok_def Validate_None_iff record_event_def same_content_def)
  moreover have "same_job d d'" using apply_target [OF ap] by simp
  ultimately show ?thesis
    using ok st aw ch event_target_declared [OF Some] by (simp add: delivery_ok_def same_job_def)
qed

lemma custody_record_inv:
  assumes "inv s" "app_inv H awbs dels chain s" "fresh_event chain s (rv_eventID env)"
    "fits (record_event env i)"
    and rec: "custody_Record \<lparr>cu_hash = H, cu_repo = repo, cu_Deliveries = del_rp\<rparr> env i s = ((re, err), s')"
  shows "app_inv H awbs dels chain s'"
proof -
  let ?i = "ri_DeliveryID i"
  note cr = custody_record [OF assms]
  show ?thesis
  proof (cases re)
    case None
    then show ?thesis using cr app_inv_same [OF assms(2)] by auto
  next
    case (Some e)
    with cr obtain d where d: "dels s ?i = Some d" "d_ID d = ?i"
      and ch: "chain s' = (chain s)(?i := chain s ?i @ [keep e])"
      and e: "same_content (record_event env i) (keep e)"
      and val: "Validate (record_event env i) = None"
      and aw: "awbs s' = awbs s" and li: "ledger_intact H chain s'"
      by auto
    show ?thesis
    proof (cases err)
      case er: (Some x)
      then have "dels s' = dels s" using cr Some by auto
      then show ?thesis using app_inv_event [OF assms(2) aw _ ch li] by blast
    next
      case None
      with cr Some d obtain d' d'' where d': "applyDeliveryTransition env d (ri_Type i) = Inr d'"
        "dels s' = (dels s)(?i \<mapsto> d'')" "same_delivery d' d''" by auto
      have "delivery_ok awbs chain s' ?i d'"
        by (rule applied_delivery_ok [OF app_invD(3) [OF assms(2) d(1)] d'(1) val e ch aw])
      then have "delivery_ok awbs chain s' ?i d''" by (rule delivery_ok_same [OF _ d'(3)])
      moreover have "delivery_ok awbs chain s' j dj" if "dels s j = Some dj" "j \<noteq> ?i" for j dj
        using app_invD(3) [OF assms(2) that(1)] aw ch that(2) by (simp add: delivery_ok_def)
      ultimately show ?thesis
        using assms(2) li aw d'(2) by (auto simp: app_inv_def)
    qed
  qed
qed

text \<open>
  One step for the callers: the invariants, the edges the event allows, and only the new
  identifier is used up.
\<close>

lemma custody_record_step:
  assumes "inv s" "app_inv H awbs dels chain s" "fresh_event chain s (rv_eventID env)"
    "fits (record_event env i)"
    and rec: "custody_Record \<lparr>cu_hash = H, cu_repo = repo, cu_Deliveries = del_rp\<rparr> env i s = ((re, err), s')"
  shows "kept inv H awbs dels chain (event_edge (ri_Type i)) s s' \<and>
    (\<forall>j. j \<noteq> rv_eventID env \<longrightarrow> fresh_event chain s j \<longrightarrow> fresh_event chain s' j)"
proof (cases re)
  case None
  then show ?thesis
    using custody_record [OF assms] custody_record_inv [OF assms]
    by (simp add: kept_def fresh_event_def)
next
  case (Some e)
  with custody_record [OF assms]
  obtain d where s': "inv s'" and d: "dels s (ri_DeliveryID i) = Some d"
    and ch: "chain s' = (chain s)(ri_DeliveryID i := chain s (ri_DeliveryID i) @ [keep e])"
      "e_EventID (keep e) = rv_eventID env"
    and fin: "case err of Some _ \<Rightarrow> dels s' = dels s
      | None \<Rightarrow> \<exists>d' d''. applyDeliveryTransition env d (ri_Type i) = Inr d' \<and> same_delivery d' d'' \<and>
          dels s' = (dels s)(ri_DeliveryID i \<mapsto> d'')"
    by auto
  have "dels_move dels (event_edge (ri_Type i)) s s'"
  proof (cases err)
    case None
    with fin obtain d' d'' where d': "applyDeliveryTransition env d (ri_Type i) = Inr d'"
      "same_delivery d' d''" "dels s' = (dels s)(ri_DeliveryID i \<mapsto> d'')" by auto
    have "moves (event_edge (ri_Type i)) d d''"
      using moves_same [OF transition_storable(3) [OF assms(2) d d'(1)] d'(2)] .
    from move_upd [OF d this d'(3)] show ?thesis .
  next
    case (Some x)
    then show ?thesis using fin by simp
  qed
  then show ?thesis
    using s' ch(2) grow_snoc [OF ch(1)] custody_record_inv [OF assms] fresh_snoc [OF _ _ ch(1)]
    by (simp add: kept_def)
qed

lemma custody_verify_ok:
  assumes "inv s" "ledger_intact H chain s"
  shows "custody_VerifyChain \<lparr>cu_hash = H, cu_repo = repo, cu_Deliveries = del_rp\<rparr> i s = None \<or>
    (\<exists>err. cr_ListByDelivery repo i s = Inl err)"
  using verify_iff [OF assms(1)] assms(2)
  by (cases "cr_ListByDelivery repo i s") (auto simp: custody_VerifyChain_def ledger_intact_def)

end

end
