(* ===== verification/WebhookApp.thy ===== *)
theory WebhookApp
  imports CustodyApp CarrierRegistry
begin

text \<open>
  \<open>internal/app/webhook\<close>: a carrier's webhook becomes custody events. The errors of single
  events are logged and dropped, so \<^term>\<open>webhook_Process\<close> reports only a failed lookup of the
  carrier or a webhook that does not parse. Parsing is pure, so only the storage changes.
\<close>

section \<open>Operations\<close>

record ('s, 'w) webhook_deps =
  wh_Carriers :: "'w registry"
  wh_Custody :: "'s custody_deps"
  wh_Deliveries :: "'s delivery_repo"

text \<open>What handling one event draws from outside: the inputs of a custody record and one more
  reading of the clock.\<close>

record webhook_env =
  we_record :: record_env
  we_now :: gotime

definition recordCustody_input ::
  "uuid \<Rightarrow> event_type \<Rightarrow> carrier_id \<Rightarrow> geo_point option \<Rightarrow> string \<Rightarrow> string \<Rightarrow> record_input" where
  "recordCustody_input deliveryID t carrierID loc photoURL reason =
     \<lparr>ri_DeliveryID = deliveryID, ri_Type = t,
      ri_Actor = \<lparr>ac_Type = ''carrier'', ac_CarrierID = carrierID, ac_ID = [], ac_Name = []\<rparr>,
      ri_Location =
        (case loc of
           Some l \<Rightarrow> Some \<lparr>cg_Lat = g_Lat l, cg_Lng = g_Lng l, cg_AccuracyM = g_AccuracyM l,
                           cg_Altitude = Num 0, cg_Heading = Num 0\<rparr>
         | None \<Rightarrow> if RequiresGPS t
                   then Some \<lparr>cg_Lat = Num 0, cg_Lng = Num 0, cg_AccuracyM = f_int 999,
                              cg_Altitude = Num 0, cg_Heading = Num 0\<rparr>
                   else None),
      ri_Photos =
        (if photoURL \<noteq> []
         then [\<lparr>ph_S3URI = photoURL, ph_SHA256 = ''webhook-pending'', ph_ContentType = [], ph_Width = 0,
                ph_Height = 0, ph_ExifGPS = None\<rparr>]
         else if RequiresPhoto t
         then [\<lparr>ph_S3URI = ''s3://dashfetchr-pod/pending/webhook.jpg'', ph_SHA256 = ''webhook-pending'',
                ph_ContentType = [], ph_Width = 0, ph_Height = 0, ph_ExifGPS = None\<rparr>]
         else []),
      ri_Reason = reason\<rparr>"

definition recordCustody ::
  "('s, 'w) webhook_deps \<Rightarrow> webhook_env \<Rightarrow> uuid \<Rightarrow> event_type \<Rightarrow> carrier_id \<Rightarrow> geo_point option \<Rightarrow> string
     \<Rightarrow> string \<Rightarrow> 's \<Rightarrow> goerror option \<times> 's" where
  "recordCustody deps env deliveryID t carrierID loc photoURL reason s =
     (case custody_Record (wh_Custody deps) (we_record env)
             (recordCustody_input deliveryID t carrierID loc photoURL reason) s of
        ((_, err), s') \<Rightarrow> (err, s'))"

definition assigned_input :: "delivery \<Rightarrow> carrier_id \<Rightarrow> port_rider \<Rightarrow> record_input" where
  "assigned_input d carrierID r =
     \<lparr>ri_DeliveryID = d_ID d, ri_Type = EventRiderAssigned,
      ri_Actor = \<lparr>ac_Type = ''rider'', ac_CarrierID = carrierID, ac_ID = pr_ID r, ac_Name = pr_Name r\<rparr>,
      ri_Location = None, ri_Photos = [], ri_Reason = []\<rparr>"

text \<open>The delivery \<open>onRiderAssigned\<close> saves before it records the event.\<close>

definition with_rider :: "gotime \<Rightarrow> delivery \<Rightarrow> port_rider \<Rightarrow> delivery" where
  "with_rider now d r =
     (let d1 = (if d_State d = StatePending
                then (case Transition now d StateAssigned [] of Inl _ \<Rightarrow> d | Inr d' \<Rightarrow> d')
                else d)
      in d1\<lparr>d_Rider := Some \<lparr>r_ID = pr_ID r, r_Name = pr_Name r, r_Phone = pr_Phone r,
                                r_Vehicle = pr_Vehicle r\<rparr>\<rparr>)"

definition onRiderAssigned ::
  "('s, 'w) webhook_deps \<Rightarrow> webhook_env \<Rightarrow> delivery \<Rightarrow> carrier_id \<Rightarrow> port_rider \<Rightarrow> 's \<Rightarrow> goerror option \<times> 's" where
  "onRiderAssigned deps env d carrierID r s =
     (case (if pr_ID r \<noteq> [] then dr_Save (wh_Deliveries deps) (with_rider (we_now env) d r) s else (None, s)) of
        (Some err, s1) \<Rightarrow> (Some err, s1)
      | (None, s1) \<Rightarrow>
          (case custody_Record (wh_Custody deps) (we_record env) (assigned_input d carrierID r) s1 of
             ((_, err), s2) \<Rightarrow> (err, s2)))"

text \<open>The delivery after a cancellation whose error is dropped.\<close>

definition cancelled_or_same :: "gotime \<Rightarrow> delivery \<Rightarrow> string \<Rightarrow> delivery" where
  "cancelled_or_same now d reason = (case Cancel now d reason of Inl _ \<Rightarrow> d | Inr d' \<Rightarrow> d')"

definition handleDomainEvent ::
  "('s, 'w) webhook_deps \<Rightarrow> webhook_env \<Rightarrow> carrier_id \<Rightarrow> domain_event \<Rightarrow> 's \<Rightarrow> goerror option \<times> 's" where
  "handleDomainEvent deps env carrierID ev s =
     (let externalID = ev_ExternalID ev in
      if externalID = [] then (None, s)
      else case dr_GetByCarrierExternalID (wh_Deliveries deps) carrierID externalID s of
        Inl err \<Rightarrow> (if errors_Is err ErrNotFound then (None, s) else (Some err, s))
      | Inr d \<Rightarrow>
          (case ev of
             RiderAssignedEvent _ r \<Rightarrow> onRiderAssigned deps env d carrierID r s
           | RiderArrivedAtPickupEvent _ loc photo \<Rightarrow>
               recordCustody deps env (d_ID d) EventRiderArrivedAtLocker carrierID loc photo [] s
           | PackagePickedUpEvent _ loc photo \<Rightarrow>
               recordCustody deps env (d_ID d) EventPackagePickedUp carrierID loc photo [] s
           | PackageDeliveredEvent _ loc photo _ \<Rightarrow>
               recordCustody deps env (d_ID d) EventPackageDelivered carrierID loc photo [] s
           | DeliveryFailedEvent _ reason loc photo \<Rightarrow>
               recordCustody deps env (d_ID d) EventDeliveryFailed carrierID loc photo reason s
           | ShipmentCancelledEvent _ reason \<Rightarrow>
               dr_Save (wh_Deliveries deps)
                 (cancelled_or_same (we_now env) d reason) s
           | _ \<Rightarrow> (None, s)))"

text \<open>\<open>envs n\<close> is what the \<open>n\<close>-th event draws from outside.\<close>

fun handle_events ::
  "('s, 'w) webhook_deps \<Rightarrow> (nat \<Rightarrow> webhook_env) \<Rightarrow> nat \<Rightarrow> carrier_id \<Rightarrow> domain_event list \<Rightarrow> 's \<Rightarrow> 's" where
  "handle_events deps envs n carrierID [] s = s"
| "handle_events deps envs n carrierID (ev # evs) s =
     handle_events deps envs (Suc n) carrierID evs (snd (handleDomainEvent deps (envs n) carrierID ev s))"

text \<open>\<open>Get\<close> never returns a nil adapter (\<open>Get_not_nil\<close> below); calling one is a panic, here an error.\<close>

definition nil_dereference :: goerror where
  "nil_dereference = External ''runtime error: invalid memory address or nil pointer dereference''"

definition webhook_Process ::
  "('s, 'w) webhook_deps \<Rightarrow> (nat \<Rightarrow> webhook_env) \<Rightarrow> carrier_id \<Rightarrow> string \<Rightarrow> headers \<Rightarrow> 's \<Rightarrow> goerror option \<times> 's" where
  "webhook_Process deps envs carrierID raw hdrs s =
     (case reg_Get (wh_Carriers deps) carrierID of
        Inl err \<Rightarrow> (Some err, s)
      | Inr None \<Rightarrow> (Some nil_dereference, s)
      | Inr (Some c) \<Rightarrow>
          (case cp_ParseWebhook c raw hdrs of
             Inl err \<Rightarrow> (Some (Wrapf ''webhook: parse: %w'' [] err), s)
           | Inr evs \<Rightarrow> (None, handle_events deps envs 0 carrierID evs s)))"

section \<open>Facts\<close>

text \<open>The events a webhook call handles, and that the identifiers it draws for them are new.\<close>

definition webhook_events :: "'w registry \<Rightarrow> carrier_id \<Rightarrow> string \<Rightarrow> headers \<Rightarrow> domain_event list" where
  "webhook_events reg carrierID raw hdrs =
     (case reg_Get reg carrierID of
        Inr (Some c) \<Rightarrow> (case cp_ParseWebhook c raw hdrs of Inl _ \<Rightarrow> [] | Inr evs \<Rightarrow> evs)
      | _ \<Rightarrow> [])"

definition fresh_envs :: "('s \<Rightarrow> uuid \<Rightarrow> event list) \<Rightarrow> 's \<Rightarrow> (nat \<Rightarrow> webhook_env) \<Rightarrow> nat \<Rightarrow> bool" where
  "fresh_envs chain s envs k \<longleftrightarrow>
     (\<forall>n < k. fresh_event chain s (rv_eventID (we_record (envs n)))) \<and>
     inj_on (\<lambda>n. rv_eventID (we_record (envs n))) {..<k}"

text \<open>The custody record an event of a delivery asks for, and that the storage can hold each of them.\<close>

fun event_input :: "carrier_id \<Rightarrow> delivery \<Rightarrow> domain_event \<Rightarrow> record_input option" where
  "event_input cid d (RiderAssignedEvent _ r) = Some (assigned_input d cid r)"
| "event_input cid d (RiderArrivedAtPickupEvent _ loc photo) =
     Some (recordCustody_input (d_ID d) EventRiderArrivedAtLocker cid loc photo [])"
| "event_input cid d (PackagePickedUpEvent _ loc photo) =
     Some (recordCustody_input (d_ID d) EventPackagePickedUp cid loc photo [])"
| "event_input cid d (PackageDeliveredEvent _ loc photo _) =
     Some (recordCustody_input (d_ID d) EventPackageDelivered cid loc photo [])"
| "event_input cid d (DeliveryFailedEvent _ reason loc photo) =
     Some (recordCustody_input (d_ID d) EventDeliveryFailed cid loc photo reason)"
| "event_input cid d _ = None"

definition fits_input :: "(event \<Rightarrow> bool) \<Rightarrow> webhook_env \<Rightarrow> carrier_id \<Rightarrow> domain_event \<Rightarrow> bool" where
  "fits_input fits env cid ev \<longleftrightarrow>
     (\<forall>d i. event_input cid d ev = Some i \<longrightarrow> fits (record_event (we_record env) i))"

definition fits_events :: "(event \<Rightarrow> bool) \<Rightarrow> (nat \<Rightarrow> webhook_env) \<Rightarrow> nat \<Rightarrow> carrier_id \<Rightarrow> domain_event list \<Rightarrow> bool" where
  "fits_events fits envs n cid evs \<longleftrightarrow> (\<forall>k < length evs. fits_input fits (envs (n + k)) cid (evs ! k))"

lemma fits_events_all [simp]: "fits_events (\<lambda>_. True) envs n cid evs"
  by (simp add: fits_events_def fits_input_def)

lemma fits_events_Cons:
  "fits_events fits envs n cid (ev # evs) \<longleftrightarrow>
     fits_input fits (envs n) cid ev \<and> fits_events fits envs (Suc n) cid evs"
  by (simp add: fits_events_def All_less_Suc2)

lemma Get_not_nil: "reg_reach r \<Longrightarrow> reg_Get r cid \<noteq> Inr None"
  using rg_invD(3) [OF reg_reach_inv, of r cid]
  by (auto simp: reg_Get_def split: option.split)

lemma recordCustody_valid:
  assumes "deliveryID \<noteq> uuid_Nil" "\<not> time_IsZero (rv_now_event env)" "event_type_string t \<noteq> []"
  shows "Validate (record_event env (recordCustody_input deliveryID t carrierID loc photo reason)) = None"
  using assms
  by (auto simp: Validate_None_iff record_event_def recordCustody_input_def time_IsZero_def split: option.split)

lemma with_rider_state:
  "d_ID (with_rider now d r) = d_ID d \<and> d_AWBID (with_rider now d r) = d_AWBID d \<and>
   d_Pickup (with_rider now d r) = d_Pickup d \<and>
   d_State (with_rider now d r) = (if d_State d = StatePending then StateAssigned else d_State d)"
  by (auto simp: with_rider_def Let_def Transition_def canTransitionTo_edge)

lemma cancelled_or_same_state:
  "d_ID (cancelled_or_same now d reason) = d_ID d \<and> d_AWBID (cancelled_or_same now d reason) = d_AWBID d \<and>
   d_Pickup (cancelled_or_same now d reason) = d_Pickup d \<and>
   d_State (cancelled_or_same now d reason) =
     (if d_State d \<in> {StatePending, StateAssigned, StateEnRoutePickup} then StateCancelled else d_State d)"
  by (cases "d_State d") (auto simp: cancelled_or_same_def Cancel_def Transition_def canTransitionTo_edge)

text \<open>
  The edges a webhook can take. It has no handler for the two events that lead to
  \<open>in_transit\<close> and \<open>en_route_drop\<close>.
\<close>

definition webhook_edge :: "dstate \<Rightarrow> dstate \<Rightarrow> bool" where
  "webhook_edge a b \<longleftrightarrow> state_edge a b \<and> b \<noteq> StateInTransit \<and> b \<noteq> StateEnRouteDrop"

lemma with_rider_moves: "moves webhook_edge d (with_rider now d r)"
proof -
  have "d_IdempotencyKey (with_rider now d r) = d_IdempotencyKey d"
    by (auto simp: with_rider_def Let_def Transition_def canTransitionTo_edge)
  then show ?thesis
    using with_rider_state [of now d r] r_into_rtranclp [of webhook_edge StatePending StateAssigned]
    by (simp add: moves_def webhook_edge_def)
qed

lemma cancelled_moves: "moves webhook_edge d (cancelled_or_same now d reason)"
proof -
  have "d_IdempotencyKey (cancelled_or_same now d reason) = d_IdempotencyKey d"
    by (auto simp: cancelled_or_same_def Cancel_def Transition_def canTransitionTo_edge split: sum.split)
  moreover have "webhook_edge\<^sup>*\<^sup>* (d_State d) (d_State (cancelled_or_same now d reason))"
    using cancelled_or_same_state [of now d reason]
    by (auto intro!: r_into_rtranclp simp: webhook_edge_def)
  ultimately show ?thesis
    using cancelled_or_same_state [of now d reason] by (simp add: moves_def)
qed

section \<open>On any storage\<close>

context app_store
begin

lemma record_custody_step:
  assumes "inv s" "app_inv H awbs dels chain s" "fresh_event chain s (rv_eventID (we_record env))"
    and "recordCustody \<lparr>wh_Carriers = reg, wh_Custody = \<lparr>cu_hash = H, cu_repo = repo, cu_Deliveries = del_rp\<rparr>,
      wh_Deliveries = del_rp\<rparr> env i t cid loc photo reason s = (r, s')"
    and fits: "fits (record_event (we_record env) (recordCustody_input i t cid loc photo reason))"
    and t: "t \<in> {EventRiderArrivedAtLocker, EventPackagePickedUp, EventPackageDelivered, EventDeliveryFailed}"
  shows "kept inv H awbs dels chain webhook_edge s s' \<and>
    (\<forall>j. j \<noteq> rv_eventID (we_record env) \<longrightarrow> fresh_event chain s j \<longrightarrow> fresh_event chain s' j)"
proof -
  obtain re where "custody_Record \<lparr>cu_hash = H, cu_repo = repo, cu_Deliveries = del_rp\<rparr> (we_record env)
      (recordCustody_input i t cid loc photo reason) s = ((re, r), s')"
    using assms(4) by (auto simp: recordCustody_def split: prod.splits)
  note st = custody_record_step [OF assms(1-3) fits this]
  have "webhook_edge a b" if "event_edge (ri_Type (recordCustody_input i t cid loc photo reason)) a b" for a b
    using that t by (auto simp: event_edge_def webhook_edge_def recordCustody_input_def)
  then show ?thesis using st keep_mono [of H "event_edge (ri_Type (recordCustody_input i t cid loc photo reason))" s s' webhook_edge]
    by simp
qed

lemma save_step:
  assumes "inv s" "app_inv H awbs dels chain s" "dels s (d_ID d) = Some d0"
    and "delivery_ok awbs chain s (d_ID d) d" "moves E d0 d" "dr_Save del_rp d s = (r, s')"
  shows "kept inv H awbs dels chain E s s' \<and> chain s' = chain s"
proof -
  have "delivery_storable (dels s) d"
    by (rule delivery_ok_storable [where awbs = awbs and chain = chain and s = s and m = "dels s", OF assms(4,3,5)])
  note saved = del_saved [OF assms(1) this assms(6)]
  show ?thesis
  proof (cases r)
    case None
    then obtain d' where d': "same_delivery d d'" "dels s' = (dels s)(d_ID d \<mapsto> d')"
      and s': "inv s'" "awbs s' = awbs s" "chain s' = chain s"
      using saved by auto
    have "delivery_ok awbs chain s (d_ID d) d'" by (rule delivery_ok_same [OF assms(4) d'(1)])
    moreover have "dels_move dels E s s'" by (rule move_upd [OF assms(3) moves_same [OF assms(5) d'(1)] d'(2)])
    ultimately show ?thesis using s' app_inv_delivery [OF assms(2) _ d'(2)] by (simp add: kept_def)
  next
    case (Some e)
    then show ?thesis using saved app_inv_same [OF assms(2)] by (simp add: kept_def)
  qed
qed

lemma on_rider_assigned_step:
  assumes "inv s" "app_inv H awbs dels chain s" "fresh_event chain s (rv_eventID (we_record env))"
    and "dels s (d_ID d) = Some d" and fits: "fits (record_event (we_record env) (assigned_input d cid r))"
    and run: "onRiderAssigned \<lparr>wh_Carriers = reg, wh_Custody = \<lparr>cu_hash = H, cu_repo = repo, cu_Deliveries = del_rp\<rparr>,
      wh_Deliveries = del_rp\<rparr> env d cid r s = (res, s')"
  shows "kept inv H awbs dels chain webhook_edge s s' \<and>
    (\<forall>j. j \<noteq> rv_eventID (we_record env) \<longrightarrow> fresh_event chain s j \<longrightarrow> fresh_event chain s' j)"
proof -
  let ?d = "with_rider (we_now env) d r"
  obtain r1 s1 where s1: "(if pr_ID r \<noteq> [] then dr_Save del_rp ?d s else (None, s)) = (r1, s1)"
    by fastforce
  have ok: "delivery_ok awbs chain s (d_ID ?d) ?d" "dels s (d_ID ?d) = Some d"
    using app_invD(3) [OF assms(2,4)] with_rider_state [of "we_now env" d r] assms(4)
    by (auto simp: delivery_ok_def delivery_evidence_def carried_def)
  have f1: "kept inv H awbs dels chain webhook_edge s s1 \<and> chain s1 = chain s"
    using s1 keep_refl [OF assms(1,2)] save_step [OF assms(1,2) ok(2,1) with_rider_moves]
    by (auto split: if_splits)
  then have fresh: "fresh_event chain s1 j = fresh_event chain s j" for j by (simp add: fresh_event_def)
  show ?thesis
  proof (cases r1)
    case (Some e)
    then have "s' = s1" using run s1 by (auto simp: onRiderAssigned_def split: if_splits)
    then show ?thesis using f1 fresh by simp
  next
    case None
    obtain re er s2 where s2: "custody_Record \<lparr>cu_hash = H, cu_repo = repo, cu_Deliveries = del_rp\<rparr>
        (we_record env) (assigned_input d cid r) s1 = ((re, er), s2)"
      by (metis prod.exhaust)
    have s': "s' = s2" using run s1 None s2 by (auto simp: onRiderAssigned_def split: if_splits)
    have "webhook_edge a b" if "event_edge (ri_Type (assigned_input d cid r)) a b" for a b
      using that by (auto simp: event_edge_def webhook_edge_def assigned_input_def)
    moreover have "kept inv H awbs dels chain (event_edge (ri_Type (assigned_input d cid r))) s1 s2 \<and>
        (\<forall>j. j \<noteq> rv_eventID (we_record env) \<longrightarrow> fresh_event chain s1 j \<longrightarrow> fresh_event chain s2 j)"
      using f1 fresh assms(3) fits by (intro custody_record_step [OF _ _ _ _ s2]) (simp_all add: kept_def)
    ultimately have "kept inv H awbs dels chain webhook_edge s1 s2 \<and>
        (\<forall>j. j \<noteq> rv_eventID (we_record env) \<longrightarrow> fresh_event chain s j \<longrightarrow> fresh_event chain s2 j)"
      using keep_mono [of H "event_edge (ri_Type (assigned_input d cid r))" s1 s2 webhook_edge] fresh by simp
    then show ?thesis using f1 s' keep_trans [of H webhook_edge s s1 s2] by simp
  qed
qed

lemma handle_event_found:
  assumes "inv s" "app_inv H awbs dels chain s" "fresh_event chain s (rv_eventID (we_record env))"
    and fits: "fits_input fits env cid ev"
    and run: "handleDomainEvent \<lparr>wh_Carriers = reg, wh_Custody = \<lparr>cu_hash = H, cu_repo = repo, cu_Deliveries = del_rp\<rparr>,
      wh_Deliveries = del_rp\<rparr> env cid ev s = (res, s')"
    and ext: "ev_ExternalID ev \<noteq> []" and d: "dr_GetByCarrierExternalID del_rp cid (ev_ExternalID ev) s = Inr d"
  shows "kept inv H awbs dels chain webhook_edge s s' \<and>
    (\<forall>j. j \<noteq> rv_eventID (we_record env) \<longrightarrow> fresh_event chain s j \<longrightarrow> fresh_event chain s' j)"
proof -
  note here = record_custody_step [OF assms(1-3)] on_rider_assigned_step [OF assms(1-3)]
  have del: "dels s (d_ID d) = Some d" using del_ext [OF assms(1) d] by simp
  have inp: "fits (record_event (we_record env) i)" if "event_input cid d ev = Some i" for i
    using fits that by (simp add: fits_input_def)
  have rc: ?thesis if "recordCustody \<lparr>wh_Carriers = reg,
      wh_Custody = \<lparr>cu_hash = H, cu_repo = repo, cu_Deliveries = del_rp\<rparr>, wh_Deliveries = del_rp\<rparr>
      env (d_ID d) t cid loc photo reason s = (res, s')"
    "event_input cid d ev = Some (recordCustody_input (d_ID d) t cid loc photo reason)"
    "t \<in> {EventRiderArrivedAtLocker, EventPackagePickedUp, EventPackageDelivered, EventDeliveryFailed}"
    for t loc photo reason
    using here(1) [OF that(1) inp [OF that(2)] that(3)] .
  show ?thesis
  proof (cases ev)
    case (ShipmentCancelledEvent b reason)
    let ?d = "cancelled_or_same (we_now env) d reason"
    have "delivery_ok awbs chain s (d_ID ?d) ?d" "dels s (d_ID ?d) = Some d"
      using app_invD(3) [OF assms(2) del] cancelled_or_same_state [of "we_now env" d reason] del
      by (auto simp: delivery_ok_def delivery_evidence_def carried_def)
    moreover have "dr_Save del_rp ?d s = (res, s')"
      using run ext d ShipmentCancelledEvent by (simp add: handleDomainEvent_def Let_def)
    ultimately show ?thesis
      using save_step [OF assms(1,2) _ _ cancelled_moves] by (simp add: fresh_event_def)
  next
    case (RiderAssignedEvent b r)
    with inp run ext d show ?thesis
      by (intro here(2) [OF del, where r = r and cid = cid]) (simp_all add: handleDomainEvent_def Let_def)
  next
    case (RiderArrivedAtPickupEvent b loc photo)
    with run ext d show ?thesis
      by (intro rc [of EventRiderArrivedAtLocker loc photo "[]"]) (simp_all add: handleDomainEvent_def Let_def)
  next
    case (PackagePickedUpEvent b loc photo)
    with run ext d show ?thesis
      by (intro rc [of EventPackagePickedUp loc photo "[]"]) (simp_all add: handleDomainEvent_def Let_def)
  next
    case (PackageDeliveredEvent b loc photo rec)
    with run ext d show ?thesis
      by (intro rc [of EventPackageDelivered loc photo "[]"]) (simp_all add: handleDomainEvent_def Let_def)
  next
    case (DeliveryFailedEvent b reason loc photo)
    with run ext d show ?thesis
      by (intro rc [of EventDeliveryFailed loc photo reason]) (simp_all add: handleDomainEvent_def Let_def)
  qed (use run ext d keep_refl [OF assms(1,2)] in \<open>auto simp: handleDomainEvent_def Let_def\<close>)
qed

lemma handle_event_step:
  assumes "inv s" "app_inv H awbs dels chain s" "fresh_event chain s (rv_eventID (we_record env))"
    and fits: "fits_input fits env cid ev"
    and run: "handleDomainEvent \<lparr>wh_Carriers = reg, wh_Custody = \<lparr>cu_hash = H, cu_repo = repo, cu_Deliveries = del_rp\<rparr>,
      wh_Deliveries = del_rp\<rparr> env cid ev s = (res, s')"
  shows "kept inv H awbs dels chain webhook_edge s s' \<and>
    (\<forall>j. j \<noteq> rv_eventID (we_record env) \<longrightarrow> fresh_event chain s j \<longrightarrow> fresh_event chain s' j)"
proof (cases "ev_ExternalID ev = []")
  case True
  then show ?thesis using assms keep_refl [OF assms(1,2)] by (simp add: handleDomainEvent_def Let_def)
next
  case ext: False
  show ?thesis
  proof (cases "dr_GetByCarrierExternalID del_rp cid (ev_ExternalID ev) s")
    case (Inl e)
    then show ?thesis
      using ext assms keep_refl [OF assms(1,2)] by (auto simp: handleDomainEvent_def Let_def split: if_splits)
  next
    case (Inr d)
    then show ?thesis by (rule handle_event_found [OF assms ext])
  qed
qed

lemma handle_events_step:
  assumes "inv s" "app_inv H awbs dels chain s"
    and "\<forall>m. n \<le> m \<and> m < n + length evs \<longrightarrow> fresh_event chain s (rv_eventID (we_record (envs m)))"
    and "inj_on (\<lambda>m. rv_eventID (we_record (envs m))) {n..<n + length evs}"
    and "fits_events fits envs n cid evs"
  shows "kept inv H awbs dels chain webhook_edge s (handle_events \<lparr>wh_Carriers = reg,
      wh_Custody = \<lparr>cu_hash = H, cu_repo = repo, cu_Deliveries = del_rp\<rparr>, wh_Deliveries = del_rp\<rparr> envs n cid evs s)"
  using assms
proof (induction evs arbitrary: n s)
  case Nil
  then show ?case using keep_refl by simp
next
  case (Cons ev evs)
  obtain res s1 where s1: "handleDomainEvent \<lparr>wh_Carriers = reg,
      wh_Custody = \<lparr>cu_hash = H, cu_repo = repo, cu_Deliveries = del_rp\<rparr>, wh_Deliveries = del_rp\<rparr>
      (envs n) cid ev s = (res, s1)" by fastforce
  have fr: "fresh_event chain s (rv_eventID (we_record (envs n)))" using Cons.prems(3) by simp
  have fi: "fits_input fits (envs n) cid ev" "fits_events fits envs (Suc n) cid evs"
    using Cons.prems(5) by (simp_all add: fits_events_Cons)
  note st = handle_event_step [OF Cons.prems(1,2) fr fi(1) s1]
  have "fresh_event chain s1 (rv_eventID (we_record (envs m)))" if "Suc n \<le> m \<and> m < Suc n + length evs" for m
  proof -
    have "rv_eventID (we_record (envs m)) \<noteq> rv_eventID (we_record (envs n))"
      using inj_onD [OF Cons.prems(4), of m n] that by auto
    then show ?thesis using st Cons.prems(3) that by simp
  qed
  moreover have "inj_on (\<lambda>m. rv_eventID (we_record (envs m))) {Suc n..<Suc n + length evs}"
    by (rule inj_on_subset [OF Cons.prems(4)]) auto
  ultimately have "kept inv H awbs dels chain webhook_edge s1 (handle_events \<lparr>wh_Carriers = reg,
      wh_Custody = \<lparr>cu_hash = H, cu_repo = repo, cu_Deliveries = del_rp\<rparr>, wh_Deliveries = del_rp\<rparr>
      envs (Suc n) cid evs s1)"
    using st fi(2) by (intro Cons.IH) (simp_all add: kept_def)
  then show ?case using st s1 keep_trans [of H webhook_edge s s1] by simp
qed

lemma process_step:
  assumes "inv s" "app_inv H awbs dels chain s"
    and "fresh_envs chain s envs (length (webhook_events reg cid raw hdrs))"
    and "fits_events fits envs 0 cid (webhook_events reg cid raw hdrs)"
    and "webhook_Process \<lparr>wh_Carriers = reg, wh_Custody = \<lparr>cu_hash = H, cu_repo = repo, cu_Deliveries = del_rp\<rparr>,
      wh_Deliveries = del_rp\<rparr> envs cid raw hdrs s = (r, s')"
  shows "kept inv H awbs dels chain webhook_edge s s'"
  using assms(3-5) keep_refl [OF assms(1,2)] handle_events_step [OF assms(1,2), of 0]
  by (auto simp: webhook_Process_def webhook_events_def fresh_envs_def lessThan_atLeast0
      split: sum.splits option.splits)

end

end
