(* ===== verification/Bolt.thy ===== *)
theory Bolt
  imports Routing "HOL-Library.AList"
begin

text \<open>
  \<open>internal/adapters/carriers/bolt\<close>, the one carrier adapter, and \<open>internal/carrier/wire.go\<close>.
  The adapter turns requests of the ports into requests of Bolt's API and back. What is not in
  the repository is the record \<open>bolt_env\<close>: the HTTP exchange with Bolt, on a state
  \<open>'w\<close> of the outside world, the JSON codec on the package's own structures, HMAC-SHA256, and
  the conversion of an out-of-range \<open>float64\<close>.
\<close>

section \<open>Types of Bolt's API\<close>

record bolt_location =
  bl_Lat :: f64
  bl_Lng :: f64
  bl_Address :: string
  bl_Floor :: string
  bl_Apartment :: string
  bl_Notes :: string

record bolt_package_dims =
  bd_LengthCm :: int64
  bd_WidthCm :: int64
  bd_HeightCm :: int64

record bolt_package =
  bp_WeightGrams :: int64
  bp_Dimensions :: bolt_package_dims
  bp_Description :: string
  bp_Value :: int64
  bp_Currency :: string

record bolt_recipient =
  br_Name :: string
  br_Phone :: string

record bolt_create_order_request =
  bc_ExternalRef :: string
  bc_Pickup :: bolt_location
  bc_Drop :: bolt_location
  bc_Package :: bolt_package
  bc_Recipient :: bolt_recipient
  bc_ServiceArea :: string
  bc_RequiresPhotoPOD :: bool
  bc_ScheduledFor :: "gotime option"

record bolt_money =
  bm_Cents :: int64
  bm_Currency :: string

record bolt_rider =
  bri_ID :: string
  bri_Name :: string
  bri_Phone :: string
  bri_Vehicle :: string

record bolt_order =
  bo_OrderID :: string
  bo_Status :: string
  bo_Price :: bolt_money
  bo_EstimatedPickup :: "gotime option"
  bo_EstimatedDrop :: "gotime option"
  bo_TrackingURL :: string
  bo_Rider :: "bolt_rider option"
  bo_LastLocation :: "bolt_location option"
  bo_UpdatedAt :: gotime

record bolt_estimate_request =
  be_Pickup :: bolt_location
  be_Drop :: bolt_location
  be_Package :: bolt_package
  be_ServiceArea :: string
  be_ScheduledFor :: "gotime option"

record bolt_estimate_response =
  ber_Price :: bolt_money
  ber_EstimatedETASec :: int64
  ber_Confidence :: f64

record bolt_webhook =
  bw_Event :: string
  bw_OrderID :: string
  bw_Timestamp :: gotime
  bw_Rider :: "bolt_rider option"
  bw_Location :: "bolt_location option"
  bw_PhotoURL :: string
  bw_Reason :: string

record bolt_config =
  bf_BaseURL :: string
  bf_APIKey :: string
  bf_WebhookSecret :: string
  bf_RiderSecret :: string
  bf_ServiceArea :: string
  bf_Sandbox :: bool

section \<open>The environment\<close>

text \<open>The bodies the client marshals, and an HTTP exchange.\<close>

datatype bolt_body =
    BodyOrder bolt_create_order_request
  | BodyEstimate bolt_estimate_request
  | BodyReason string

record http_request =
  hq_Method :: string
  hq_URL :: string
  hq_Body :: "string option"
  hq_Headers :: headers

record http_response =
  hp_StatusCode :: int
  hp_Body :: string

record 'w bolt_env =
  env_Do :: "http_request \<Rightarrow> 'w \<Rightarrow> (goerror + http_response) \<times> 'w"
  env_NewRequest :: "string \<Rightarrow> string \<Rightarrow> goerror option"
  env_Marshal :: "bolt_body \<Rightarrow> goerror + string"
  env_DecodeOrder :: "string \<Rightarrow> goerror + bolt_order"
  env_DecodeEstimate :: "string \<Rightarrow> goerror + bolt_estimate_response"
  env_UnmarshalWebhook :: "string \<Rightarrow> goerror + bolt_webhook"
  env_HMAC :: "string \<Rightarrow> string \<Rightarrow> string"
  env_oob :: "f64 \<Rightarrow> int64"

section \<open>Webhook signature\<close>

definition char_lower :: "char \<Rightarrow> char" where
  "char_lower c = (let n = of_char c :: nat in if 65 \<le> n \<and> n \<le> 90 then char_of (n + 32) else c)"

text \<open>\<open>strings.ToLower\<close> on header names, which are ASCII tokens.\<close>

definition strings_ToLower :: "string \<Rightarrow> string" where
  "strings_ToLower s = map char_lower s"

definition strings_TrimPrefix :: "string \<Rightarrow> string \<Rightarrow> string" where
  "strings_TrimPrefix s p = (if take (length p) s = p then drop (length p) s else s)"

fun header_range :: "headers \<Rightarrow> string \<Rightarrow> string" where
  "header_range [] low = []"
| "header_range ((k, v) # h) low = (if strings_ToLower k = low then v else header_range h low)"

definition headerLookup :: "headers \<Rightarrow> string \<Rightarrow> string" where
  "headerLookup h key =
     (case map_of h key of
        Some v \<Rightarrow> v
      | None \<Rightarrow> header_range h (strings_ToLower key))"

definition verifySignature :: "'w bolt_env \<Rightarrow> string \<Rightarrow> headers \<Rightarrow> string \<Rightarrow> goerror option" where
  "verifySignature env body h secret =
     (if secret = [] then Some (errors_New ''bolt: webhook secret not configured'')
      else let provided = headerLookup h ''X-Bolt-Signature''
           in if provided = [] then Some (errors_New ''bolt: missing X-Bolt-Signature header'')
              else let provided = strings_TrimPrefix provided ''sha256='';
                       expected = hex_EncodeToString (env_HMAC env secret body)
                   in if provided \<noteq> expected then Some (errors_New ''bolt: signature mismatch'')
                      else None)"

section \<open>HTTP client\<close>

text \<open>
  \<open>do\<close>: \<open>out\<close> decodes the response into the caller's variable. Where the Go code passes \<open>nil\<close>
  the response is not read: \<open>no_out\<close>, which never fails.
  \<open>range\<close> over the extra headers sees at most one.
\<close>

definition no_out :: "string \<Rightarrow> goerror + unit" where
  "no_out body = Inr ()"

definition header_set :: "headers \<Rightarrow> string \<Rightarrow> string \<Rightarrow> headers" where
  "header_set h k v = AList.update k v h"

fun set_extra :: "headers \<Rightarrow> headers \<Rightarrow> headers" where
  "set_extra h [] = h"
| "set_extra h ((k, v) # es) = set_extra (if v \<noteq> [] then header_set h k v else h) es"

definition client_do ::
  "'w bolt_env \<Rightarrow> bolt_config \<Rightarrow> string \<Rightarrow> string \<Rightarrow> bolt_body option \<Rightarrow> (string \<Rightarrow> goerror + 'o)
     \<Rightarrow> headers \<Rightarrow> 'w \<Rightarrow> (goerror + 'o) \<times> 'w" where
  "client_do env cfg meth path body out extraHeaders w =
     (case (case body of
              None \<Rightarrow> Inr None
            | Some b \<Rightarrow> (case env_Marshal env b of Inl err \<Rightarrow> Inl err | Inr s \<Rightarrow> Inr (Some s))) of
        Inl err \<Rightarrow> (Inl err, w)
      | Inr payload \<Rightarrow>
          case env_NewRequest env meth (bf_BaseURL cfg @ path) of
            Some err \<Rightarrow> (Inl err, w)
          | None \<Rightarrow>
              let h1 = header_set [] ''Authorization'' (''Bearer '' @ bf_APIKey cfg);
                  h2 = header_set h1 ''Content-Type'' ''application/json'';
                  h3 = header_set h2 ''Accept'' ''application/json'';
                  (r, w') = env_Do env \<lparr>hq_Method = meth, hq_URL = bf_BaseURL cfg @ path,
                              hq_Body = payload, hq_Headers = set_extra h3 extraHeaders\<rparr> w
              in case r of
                   Inl err \<Rightarrow> (Inl (TransportError err), w')
                 | Inr resp \<Rightarrow>
                     if hp_StatusCode resp \<ge> 400
                     then (Inl (HttpError (hp_StatusCode resp) (hp_Body resp)), w')
                     else (case out (hp_Body resp) of
                             Inl err \<Rightarrow> (Inl (Wrapf ''bolt: decode response: %w'' [] err), w')
                           | Inr v \<Rightarrow> (Inr v, w')))"

definition CreateOrder ::
  "'w bolt_env \<Rightarrow> bolt_config \<Rightarrow> bolt_create_order_request \<Rightarrow> string \<Rightarrow> 'w \<Rightarrow> (goerror + bolt_order) \<times> 'w" where
  "CreateOrder env cfg req idempotencyKey w =
     client_do env cfg ''POST'' ''/v1/orders'' (Some (BodyOrder req)) (env_DecodeOrder env)
       [(''Idempotency-Key'', idempotencyKey)] w"

definition GetOrder :: "'w bolt_env \<Rightarrow> bolt_config \<Rightarrow> string \<Rightarrow> 'w \<Rightarrow> (goerror + bolt_order) \<times> 'w" where
  "GetOrder env cfg orderID w =
     client_do env cfg ''GET'' (''/v1/orders/'' @ orderID) None (env_DecodeOrder env) [] w"

definition CancelOrder :: "'w bolt_env \<Rightarrow> bolt_config \<Rightarrow> string \<Rightarrow> string \<Rightarrow> 'w \<Rightarrow> goerror option \<times> 'w" where
  "CancelOrder env cfg orderID reason w =
     (case client_do env cfg ''POST'' (''/v1/orders/'' @ orderID @ ''/cancel'') (Some (BodyReason reason))
             no_out [] w of
        (Inl err, w') \<Rightarrow> (Some err, w')
      | (Inr _, w') \<Rightarrow> (None, w'))"

definition client_Estimate ::
  "'w bolt_env \<Rightarrow> bolt_config \<Rightarrow> bolt_estimate_request \<Rightarrow> 'w \<Rightarrow> (goerror + bolt_estimate_response) \<times> 'w" where
  "client_Estimate env cfg req w =
     client_do env cfg ''POST'' ''/v1/estimate'' (Some (BodyEstimate req)) (env_DecodeEstimate env) [] w"

fun mapClientError :: "goerror \<Rightarrow> goerror" where
  "mapClientError (TransportError e) = WrappedErr (TransportError e) ''carrier unavailable''"
| "mapClientError (HttpError st b) =
     (if st = 401 \<or> st = 403 then WrappedErr (HttpError st b) ''auth failed''
      else if st = 404 then WrappedErr (HttpError st b) ''shipment not found''
      else if st = 409 then WrappedErr (HttpError st b) ''conflict / already cancelled''
      else if st = 422 then WrappedErr (HttpError st b) ''invalid request''
      else if st = 429 then WrappedErr (HttpError st b) ''rate limited''
      else if st \<ge> 500 then WrappedErr (HttpError st b) ''carrier unavailable''
      else HttpError st b)"
| "mapClientError e = e"

section \<open>Mapper\<close>

definition toBoltLocation :: "port_location \<Rightarrow> goerror + bolt_location" where
  "toBoltLocation l =
     (if f_eq (g_Lat (pl_Point l)) (Num 0) \<and> f_eq (g_Lng (pl_Point l)) (Num 0)
      then Inl (errors_New ''bolt: location requires coordinates'')
      else Inr \<lparr>bl_Lat = g_Lat (pl_Point l), bl_Lng = g_Lng (pl_Point l),
                bl_Address = ad_Street (pl_Address l) @ '', '' @ ad_City (pl_Address l),
                bl_Floor = ad_Floor (pl_Address l), bl_Apartment = ad_Apartment (pl_Address l),
                bl_Notes = ad_Instructions (pl_Address l)\<rparr>)"

definition toBoltPackage :: "(f64 \<Rightarrow> int64) \<Rightarrow> port_package \<Rightarrow> goerror + bolt_package" where
  "toBoltPackage oob p =
     (if f_le (pp_WeightKg p) (Num 0) then Inl ErrInvalidRequest
      else Inr \<lparr>bp_WeightGrams = f_to_int64 oob (f_mul (pp_WeightKg p) (f_int 1000)),
                bp_Dimensions = \<lparr>bd_LengthCm = f_to_int64 oob (pp_LengthCm p),
                                 bd_WidthCm = f_to_int64 oob (pp_WidthCm p),
                                 bd_HeightCm = f_to_int64 oob (pp_HeightCm p)\<rparr>,
                bp_Description = pp_Description p, bp_Value = pp_DeclaredValueMinor p,
                bp_Currency = pp_DeclaredValueCcy p\<rparr>)"

definition ToBoltCreateOrder ::
  "(f64 \<Rightarrow> int64) \<Rightarrow> string \<Rightarrow> shipment_request \<Rightarrow> goerror + bolt_create_order_request" where
  "ToBoltCreateOrder oob serviceArea r =
     (if rc_Phone (sr_Recipient r) = [] then Inl (errors_New ''bolt: recipient phone required'')
      else case toBoltLocation (sr_Pickup r) of
        Inl err \<Rightarrow> Inl err
      | Inr pickup \<Rightarrow>
          (case toBoltLocation (sr_Drop r) of
             Inl err \<Rightarrow> Inl err
           | Inr dropLoc \<Rightarrow>
               (case toBoltPackage oob (sr_Package r) of
                  Inl err \<Rightarrow> Inl err
                | Inr pkg \<Rightarrow>
                    Inr \<lparr>bc_ExternalRef = sr_IdempotencyKey r, bc_Pickup = pickup, bc_Drop = dropLoc,
                         bc_Package = pkg,
                         bc_Recipient = \<lparr>br_Name = rc_Name (sr_Recipient r),
                                         br_Phone = rc_Phone (sr_Recipient r)\<rparr>,
                         bc_ServiceArea = serviceArea, bc_RequiresPhotoPOD = True,
                         bc_ScheduledFor = sr_ScheduledStart r\<rparr>)))"

definition ToBoltEstimate ::
  "(f64 \<Rightarrow> int64) \<Rightarrow> string \<Rightarrow> estimate_request \<Rightarrow> goerror + bolt_estimate_request" where
  "ToBoltEstimate oob serviceArea r =
     (case toBoltLocation (eq_Pickup r) of
        Inl err \<Rightarrow> Inl err
      | Inr pickup \<Rightarrow>
          (case toBoltLocation (eq_Drop r) of
             Inl err \<Rightarrow> Inl err
           | Inr dropLoc \<Rightarrow>
               (case toBoltPackage oob (eq_Package r) of
                  Inl err \<Rightarrow> Inl err
                | Inr pkg \<Rightarrow>
                    Inr \<lparr>be_Pickup = pickup, be_Drop = dropLoc, be_Package = pkg,
                         be_ServiceArea = serviceArea, be_ScheduledFor = eq_When r\<rparr>)))"

definition fromBoltStatus :: "string \<Rightarrow> shipment_state" where
  "fromBoltStatus s =
     (if s = ''pending'' then ShipmentPending
      else if s = ''assigned'' then ShipmentAssigned
      else if s = ''picking_up'' \<or> s = ''en_route_pickup'' then ShipmentRiderEnRouteToPickup
      else if s = ''picked_up'' then ShipmentPickedUp
      else if s = ''delivering'' \<or> s = ''in_transit'' then ShipmentInTransit
      else if s = ''arrived_at_drop'' then ShipmentRiderEnRouteToDrop
      else if s = ''delivered'' \<or> s = ''completed'' then ShipmentDelivered
      else if s = ''failed'' then ShipmentFailed
      else if s = ''cancelled'' then ShipmentCancelled
      else ShipmentUnknown)"

definition FromBoltOrder :: "bolt_order \<Rightarrow> shipment_response" where
  "FromBoltOrder ord =
     \<lparr>sp_ExternalID = bo_OrderID ord, sp_State = fromBoltStatus (bo_Status ord),
      sp_EstimatedCost = \<lparr>mo_Currency = bm_Currency (bo_Price ord), mo_Minor = bm_Cents (bo_Price ord)\<rparr>,
      sp_EstimatedPickupAt = bo_EstimatedPickup ord, sp_EstimatedDropAt = bo_EstimatedDrop ord,
      sp_TrackingURL = bo_TrackingURL ord\<rparr>"

definition fromBoltGeo :: "bolt_location option \<Rightarrow> geo_point option" where
  "fromBoltGeo l =
     (case l of None \<Rightarrow> None | Some p \<Rightarrow> Some \<lparr>g_Lat = bl_Lat p, g_Lng = bl_Lng p, g_AccuracyM = Num 0\<rparr>)"

definition fromBoltRider :: "bolt_rider \<Rightarrow> port_rider" where
  "fromBoltRider r = \<lparr>pr_ID = bri_ID r, pr_Name = bri_Name r, pr_Phone = bri_Phone r,
                      pr_Vehicle = bri_Vehicle r\<rparr>"

definition FromBoltOrderStatus :: "bolt_order \<Rightarrow> shipment_status" where
  "FromBoltOrderStatus ord =
     \<lparr>ss_ExternalID = bo_OrderID ord, ss_State = fromBoltStatus (bo_Status ord),
      ss_Rider = (case bo_Rider ord of None \<Rightarrow> None | Some r \<Rightarrow> Some (fromBoltRider r)),
      ss_LastLocation = (case bo_LastLocation ord of None \<Rightarrow> None
        | Some p \<Rightarrow> Some \<lparr>g_Lat = bl_Lat p, g_Lng = bl_Lng p, g_AccuracyM = Num 0\<rparr>),
      ss_LastUpdatedAt = bo_UpdatedAt ord\<rparr>"

definition FromBoltEstimate :: "bolt_estimate_response \<Rightarrow> estimate" where
  "FromBoltEstimate e =
     \<lparr>es_Cost = \<lparr>mo_Currency = bm_Currency (ber_Price e), mo_Minor = bm_Cents (ber_Price e)\<rparr>,
      es_EstimatedETA = ber_EstimatedETASec e * 1000000000,
      es_WindowStartAt = None, es_WindowEndAt = None, es_ConfidenceScore = ber_Confidence e\<rparr>"

definition rider_zero :: port_rider where
  "rider_zero = \<lparr>pr_ID = [], pr_Name = [], pr_Phone = [], pr_Vehicle = []\<rparr>"

definition ToDomainEvents :: "bolt_webhook \<Rightarrow> domain_event list" where
  "ToDomainEvents wh =
     (let base = (\<lambda>t. \<lparr>b_Type = t, b_Time = bw_Timestamp wh, b_ExtID = bw_OrderID wh,
                       b_CarrierID = ''bolt_food''\<rparr>);
          loc = fromBoltGeo (bw_Location wh)
      in if bw_Event wh = ''order.assigned''
         then [RiderAssignedEvent (base ''rider.assigned'')
                 (case bw_Rider wh of None \<Rightarrow> rider_zero | Some r \<Rightarrow> fromBoltRider r)]
         else if bw_Event wh = ''order.arrived_at_pickup''
         then [RiderArrivedAtPickupEvent (base ''rider.arrived_at_pickup'') loc (bw_PhotoURL wh)]
         else if bw_Event wh = ''order.picked_up''
         then [PackagePickedUpEvent (base ''package.picked_up'') loc (bw_PhotoURL wh)]
         else if bw_Event wh = ''order.in_transit''
         then [RiderInTransitEvent (base ''rider.in_transit'') loc]
         else if bw_Event wh = ''order.arrived_at_drop''
         then [RiderArrivedAtDestinationEvent (base ''rider.arrived_at_destination'') loc]
         else if bw_Event wh = ''order.delivered''
         then [PackageDeliveredEvent (base ''package.delivered'') loc (bw_PhotoURL wh) []]
         else if bw_Event wh = ''order.failed''
         then [DeliveryFailedEvent (base ''delivery.failed'') (bw_Reason wh) loc (bw_PhotoURL wh)]
         else if bw_Event wh = ''order.cancelled''
         then [ShipmentCancelledEvent (base ''shipment.cancelled'') (bw_Reason wh)]
         else [])"

section \<open>Adapter\<close>

definition bucharestZones :: "geo_zone list" where
  "bucharestZones =
     [\<lparr>z_Name = ''bucharest_sector_1'',
       z_Coordinates = map (map f_const)
         [[2605 / 100, 4450 / 100], [2615 / 100, 4450 / 100], [2615 / 100, 4455 / 100],
          [2605 / 100, 4455 / 100], [2605 / 100, 4450 / 100]]\<rparr>]"

definition buildCapabilities :: "bolt_config \<Rightarrow> capabilities" where
  "buildCapabilities cfg =
     \<lparr>c_ID = ''bolt_food'', c_Name = ''Bolt Food (Bolt Delivery)'', c_Roles = [RoleLastMile],
      c_MaxWeightKg = f_int 15, c_MaxDimensionsCm = (f_int 60, f_int 40, f_int 40),
      c_Zones = bucharestZones, c_DeliveryModes = [DeliveryInstant, DeliveryScheduled],
      c_PickupModes = [PickupAddress, PickupHub], c_POD = [ProofPhoto, ProofGPS],
      c_SLA = \<lparr>sl_AvgPickupTime = 12 * 60000000000, sl_AvgDeliveryTime = 25 * 60000000000,
               sl_MaxDelay = 15 * 60000000000\<rparr>,
      c_SupportsLocker = False, c_AuthScheme = AuthBearerToken,
      c_APIRateLimit = \<lparr>rl_Requests = 60, rl_PerSecond = f_int 1\<rparr>,
      c_Quirks =
        [''Bolt riders cannot natively open Sameday lockers; pickup requires pre-opened drop or partner human at pickup'',
         ''Webhook retries up to 5 times with exponential backoff; idempotency required on consumer side'',
         ''Service area metadata in capabilities is approximate; engine should still call GetEstimate to confirm'']\<rparr>"

definition bolt_CreateShipment ::
  "'w bolt_env \<Rightarrow> bolt_config \<Rightarrow> shipment_request \<Rightarrow> 'w \<Rightarrow> (goerror + shipment_response) \<times> 'w" where
  "bolt_CreateShipment env cfg req w =
     (case ToBoltCreateOrder (env_oob env) (bf_ServiceArea cfg) req of
        Inl err \<Rightarrow> (Inl err, w)
      | Inr boltReq \<Rightarrow>
          (case CreateOrder env cfg boltReq (sr_IdempotencyKey req) w of
             (Inl err, w') \<Rightarrow> (Inl (mapClientError err), w')
           | (Inr resp, w') \<Rightarrow> (Inr (FromBoltOrder resp), w')))"

definition bolt_GetShipmentStatus ::
  "'w bolt_env \<Rightarrow> bolt_config \<Rightarrow> string \<Rightarrow> 'w \<Rightarrow> (goerror + shipment_status) \<times> 'w" where
  "bolt_GetShipmentStatus env cfg externalID w =
     (case GetOrder env cfg externalID w of
        (Inl err, w') \<Rightarrow> (Inl (mapClientError err), w')
      | (Inr ord, w') \<Rightarrow> (Inr (FromBoltOrderStatus ord), w'))"

definition bolt_CancelShipment ::
  "'w bolt_env \<Rightarrow> bolt_config \<Rightarrow> string \<Rightarrow> string \<Rightarrow> 'w \<Rightarrow> goerror option \<times> 'w" where
  "bolt_CancelShipment env cfg externalID reason w =
     (case CancelOrder env cfg externalID reason w of
        (None, w') \<Rightarrow> (None, w')
      | (Some err, w') \<Rightarrow> (Some (mapClientError err), w'))"

definition bolt_GetEstimate ::
  "'w bolt_env \<Rightarrow> bolt_config \<Rightarrow> estimate_request \<Rightarrow> 'w \<Rightarrow> (goerror + estimate) \<times> 'w" where
  "bolt_GetEstimate env cfg req w =
     (case ToBoltEstimate (env_oob env) (bf_ServiceArea cfg) req of
        Inl err \<Rightarrow> (Inl err, w)
      | Inr boltReq \<Rightarrow>
          (case client_Estimate env cfg boltReq w of
             (Inl err, w') \<Rightarrow> (Inl (mapClientError err), w')
           | (Inr resp, w') \<Rightarrow> (Inr (FromBoltEstimate resp), w')))"

definition bolt_ParseWebhook ::
  "'w bolt_env \<Rightarrow> bolt_config \<Rightarrow> string \<Rightarrow> headers \<Rightarrow> goerror + domain_event list" where
  "bolt_ParseWebhook env cfg raw h =
     (case verifySignature env raw h (bf_WebhookSecret cfg) of
        Some _ \<Rightarrow> Inl ErrInvalidSignature
      | None \<Rightarrow>
          (case env_UnmarshalWebhook env raw of
             Inl _ \<Rightarrow> Inl ErrInvalidRequest
           | Inr wh \<Rightarrow> Inr (ToDomainEvents wh)))"

definition bolt_New :: "'w bolt_env \<Rightarrow> bolt_config \<Rightarrow> 'w carrier_port" where
  "bolt_New env cfg =
     \<lparr>cp_Capabilities = buildCapabilities cfg,
      cp_CreateShipment = bolt_CreateShipment env cfg,
      cp_GetShipmentStatus = bolt_GetShipmentStatus env cfg,
      cp_CancelShipment = bolt_CancelShipment env cfg,
      cp_GetEstimate = bolt_GetEstimate env cfg,
      cp_ParseWebhook = bolt_ParseWebhook env cfg\<rparr>"

text \<open>\<open>carrier.Wire\<close>: the registry of the running program.\<close>

definition Wire :: "'w bolt_env \<Rightarrow> bolt_config \<Rightarrow> goerror + 'w registry" where
  "Wire env cfg =
     (case Register ''v1'' (Some (bolt_New env cfg)) NewRegistry of
        (Some err, _) \<Rightarrow> Inl err
      | (None, r) \<Rightarrow> Inr r)"

section \<open>Facts\<close>

lemma hex_not_prefixed: "take 7 (hex_EncodeToString d) \<noteq> ''sha256=''"
proof
  assume a: "take 7 (hex_EncodeToString d) = ''sha256=''"
  then have "CHR ''s'' \<in> set (take 7 (hex_EncodeToString d))" by simp
  then have "CHR ''s'' \<in> set (hex_EncodeToString d)" by (rule in_set_takeD)
  from hex_EncodeToString_chars [OF this] show False by simp
qed

lemma TrimPrefix_sha256:
  "strings_TrimPrefix v ''sha256='' = (if take 7 v = ''sha256='' then drop 7 v else v)"
  by (simp add: strings_TrimPrefix_def eval_nat_numeral)

lemma TrimPrefix_hex:
  "strings_TrimPrefix v ''sha256='' = hex_EncodeToString d \<longleftrightarrow>
     v = hex_EncodeToString d \<or> v = ''sha256='' @ hex_EncodeToString d"
proof (cases "take 7 v = ''sha256=''")
  case True
  then have v: "v = ''sha256='' @ drop 7 v" by (metis append_take_drop_id)
  have "v \<noteq> hex_EncodeToString d" using True hex_not_prefixed by metis
  moreover have "strings_TrimPrefix v ''sha256='' = drop 7 v"
    using True by (simp add: TrimPrefix_sha256)
  ultimately show ?thesis by (metis v same_append_eq)
next
  case False
  then have "strings_TrimPrefix v ''sha256='' = v" by (simp only: TrimPrefix_sha256 if_False)
  moreover have "v \<noteq> ''sha256='' @ hex_EncodeToString d" using False by auto
  ultimately show ?thesis by simp
qed

lemma verifySignature_None:
  "verifySignature env raw h secret = None \<longleftrightarrow>
     secret \<noteq> [] \<and> headerLookup h ''X-Bolt-Signature'' \<noteq> [] \<and>
     strings_TrimPrefix (headerLookup h ''X-Bolt-Signature'') ''sha256='' =
       hex_EncodeToString (env_HMAC env secret raw)"
  by (simp add: verifySignature_def Let_def)

lemma header_range_found:
  "header_range h low \<noteq> [] \<Longrightarrow> \<exists>k. (k, header_range h low) \<in> set h \<and> strings_ToLower k = low"
  by (induction h low rule: header_range.induct) (auto split: if_splits)

lemma headerLookup_found:
  "headerLookup h key \<noteq> [] \<Longrightarrow>
     \<exists>k. (k, headerLookup h key) \<in> set h \<and> strings_ToLower k = strings_ToLower key"
  using header_range_found [of h "strings_ToLower key"]
  by (auto simp: headerLookup_def split: option.splits dest: map_of_SomeD)

lemma ToBoltCreateOrder_ok:
  "ToBoltCreateOrder oob area r = Inr q \<Longrightarrow>
     bc_RequiresPhotoPOD q \<and> bc_ExternalRef q = sr_IdempotencyKey r \<and>
     br_Phone (bc_Recipient q) = rc_Phone (sr_Recipient r) \<and> rc_Phone (sr_Recipient r) \<noteq> []"
  by (auto simp: ToBoltCreateOrder_def split: if_splits sum.splits)

lemma ToDomainEvents_le_1: "length (ToDomainEvents wh) \<le> 1"
  by (simp add: ToDomainEvents_def Let_def)

section \<open>Properties\<close>

text \<open>
  C32: A webhook yields events exactly when a webhook secret is configured, the signature header
  is the hex HMAC of the raw body under it (with or without the sha256= prefix), and the body
  decodes.
\<close>

theorem ParseWebhook_authentic:
  "bolt_ParseWebhook env cfg raw h = Inr evs \<longleftrightarrow>
     (\<exists>wh. bf_WebhookSecret cfg \<noteq> [] \<and>
        headerLookup h ''X-Bolt-Signature'' \<in>
          {hex_EncodeToString (env_HMAC env (bf_WebhookSecret cfg) raw),
           ''sha256='' @ hex_EncodeToString (env_HMAC env (bf_WebhookSecret cfg) raw)} - {[]} \<and>
        env_UnmarshalWebhook env raw = Inr wh \<and> evs = ToDomainEvents wh)"
proof -
  have "bolt_ParseWebhook env cfg raw h = Inr evs \<longleftrightarrow>
      verifySignature env raw h (bf_WebhookSecret cfg) = None \<and>
      (\<exists>wh. env_UnmarshalWebhook env raw = Inr wh \<and> evs = ToDomainEvents wh)"
    by (auto simp: bolt_ParseWebhook_def split: option.split sum.split)
  then show ?thesis unfolding verifySignature_None TrimPrefix_hex by blast
qed

theorem ToDomainEvents_spec:
  "length (ToDomainEvents wh) \<le> 1 \<and>
   (\<forall>ev \<in> set (ToDomainEvents wh). ev_ExternalID ev = bw_OrderID wh \<and> ev_OccurredAt ev = bw_Timestamp wh \<and>
      b_CarrierID (event_base ev) = ''bolt_food'' \<and>
      (bw_Event wh, ev_EventType ev) \<in>
        {(''order.assigned'', ''rider.assigned''),
         (''order.arrived_at_pickup'', ''rider.arrived_at_pickup''),
         (''order.picked_up'', ''package.picked_up''),
         (''order.in_transit'', ''rider.in_transit''),
         (''order.arrived_at_drop'', ''rider.arrived_at_destination''),
         (''order.delivered'', ''package.delivered''),
         (''order.failed'', ''delivery.failed''),
         (''order.cancelled'', ''shipment.cancelled'')}) \<and>
   (ToDomainEvents wh = [] \<longleftrightarrow> bw_Event wh \<notin>
      {''order.assigned'', ''order.arrived_at_pickup'', ''order.picked_up'', ''order.in_transit'',
       ''order.arrived_at_drop'', ''order.delivered'', ''order.failed'', ''order.cancelled''})"
  by (simp add: ToDomainEvents_def Let_def ev_ExternalID_def ev_OccurredAt_def ev_EventType_def)

theorem CreateShipment_request:
  "bolt_CreateShipment env cfg req w =
     (case ToBoltCreateOrder (env_oob env) (bf_ServiceArea cfg) req of
        Inl err \<Rightarrow> (Inl err, w)
      | Inr q \<Rightarrow>
          (case env_Marshal env (BodyOrder q) of
             Inl err \<Rightarrow> (Inl (mapClientError err), w)
           | Inr body \<Rightarrow>
               (case env_NewRequest env ''POST'' (bf_BaseURL cfg @ ''/v1/orders'') of
                  Some err \<Rightarrow> (Inl (mapClientError err), w)
                | None \<Rightarrow>
                    (case env_Do env
                        \<lparr>hq_Method = ''POST'', hq_URL = bf_BaseURL cfg @ ''/v1/orders'', hq_Body = Some body,
                         hq_Headers =
                           [(''Authorization'', ''Bearer '' @ bf_APIKey cfg),
                            (''Content-Type'', ''application/json''), (''Accept'', ''application/json'')] @
                           (if sr_IdempotencyKey req = [] then []
                            else [(''Idempotency-Key'', sr_IdempotencyKey req)])\<rparr> w of
                       (Inl err, w') \<Rightarrow> (Inl (WrappedErr (TransportError err) ''carrier unavailable''), w')
                     | (Inr resp, w') \<Rightarrow>
                         if hp_StatusCode resp \<ge> 400
                         then (Inl (mapClientError (HttpError (hp_StatusCode resp) (hp_Body resp))), w')
                         else (case env_DecodeOrder env (hp_Body resp) of
                                 Inl err \<Rightarrow> (Inl (Wrapf ''bolt: decode response: %w'' [] err), w')
                               | Inr ord \<Rightarrow> (Inr (FromBoltOrder ord), w'))))))"
  by (simp add: bolt_CreateShipment_def CreateOrder_def client_do_def header_set_def Let_def
      split: sum.split option.split prod.split)

text \<open>
  What the contract of \<open>ports.CarrierPort\<close> asks of an adapter, standardized errors, is not what
  \<open>mapClientError\<close> gives: a transport failure or an HTTP error never matches a sentinel.
\<close>

theorem mapClientError_no_sentinel:
  "\<not> errors_Is (mapClientError (HttpError st b)) (errors_New msg) \<and>
   (errors_Is (mapClientError (TransportError cause)) (errors_New msg) \<longleftrightarrow> errors_Is cause (errors_New msg))"
  by (simp add: errors_New_def)

lemma Bolt_never_from_locker:
  "pl_Type (sr_Pickup req) = PickupLocker \<Longrightarrow> \<not> eligible_one req role (bolt_New env cfg)"
  by (simp add: eligible_one_iff bolt_New_def buildCapabilities_def)

end
