(* ===== verification/AppRun.thy ===== *)
theory AppRun
  imports Booking Dispatch WebhookApp Bolt
begin

text \<open>
  \<open>internal/app/app.go\<close>: the composition root, and the runs of the program it builds, on any
  storage. \<^term>\<open>app_with\<close> wires the services to a set of repositories, \<^term>\<open>app_exec\<close> is one call of
  an application service, on the storage and on the world the carriers live in, and a run is a
  sequence of such calls from an initial storage, one after the other, where \<open>uuid.New\<close> never returns
  an identifier twice. Calls that overlap are in the theories \<open>Concurrency\<close> and \<open>DispatchRace\<close>.
  The lemmas are proved in the locale \<open>app_store\<close>; \<open>App\<close> uses them on the in-memory storage,
  \<open>AppPg\<close> on Postgres.
\<close>

section \<open>Wiring\<close>

text \<open>
  What is not in the repository: the two hash functions, \<open>math\<close>, the environment of the Bolt
  adapter, and the orders in which \<open>range\<close> visits the two maps.
\<close>

record 'w runtime =
  rt_hash :: hash_fns
  rt_math :: go_math
  rt_bolt :: "'w bolt_env"
  rt_del_order :: "(uuid \<rightharpoonup> delivery) \<Rightarrow> uuid list"
  rt_reg_order :: "(carrier_id \<rightharpoonup> string) \<Rightarrow> carrier_id list"

text \<open>The repositories and the bus that \<open>New\<close> chooses.\<close>

record 's repos =
  rp_AWBs :: "'s awb_repo"
  rp_Deliveries :: "'s delivery_repo"
  rp_Routing :: "'s routing_repo"
  rp_Custody :: "'s custody_repo"
  rp_Bus :: "'s event_bus"

record ('s, 'w) app =
  app_Carriers :: "'w registry"
  app_Booking :: "'s booking_deps"
  app_Dispatch :: "('s, 'w) dispatch_deps"
  app_Custody :: "'s custody_deps"
  app_Webhook :: "('s, 'w) webhook_deps"
  app_RiderSecrets :: "string \<rightharpoonup> string"

text \<open>
  The routing engine asks the registry. A panic of \<open>ListByRole\<close> cannot happen
  (the registry never points at a missing adapter); the model has no carriers there.
\<close>

definition registry_lister :: "'w runtime \<Rightarrow> 'w registry \<Rightarrow> carrier_role \<Rightarrow> 'w carrier_port list" where
  "registry_lister rt reg role =
     (case ListByRole reg (rt_reg_order rt (rg_primary reg)) role of None \<Rightarrow> [] | Some cs \<Rightarrow> cs)"

definition app_with :: "'w runtime \<Rightarrow> 's repos \<Rightarrow> bolt_config \<Rightarrow> goerror + ('s, 'w) app" where
  "app_with rt rp cfg =
     (case Wire (rt_bolt rt) cfg of
        Inl err \<Rightarrow> Inl (Wrapf ''wire carriers: %w'' [] err)
      | Inr reg \<Rightarrow>
          (let router = \<lparr>en_ListByRole = registry_lister rt reg, en_strategy = CheapestStrategy\<rparr>;
               custodySvc = \<lparr>cu_hash = rt_hash rt, cu_repo = rp_Custody rp, cu_Deliveries = rp_Deliveries rp\<rparr>
           in Inr \<lparr>app_Carriers = reg,
                   app_Booking = \<lparr>bk_AWBs = rp_AWBs rp, bk_Deliveries = rp_Deliveries rp,
                                  bk_Pricing = pricing_Default, bk_math = rt_math rt\<rparr>,
                   app_Dispatch = \<lparr>dp_Deliveries = rp_Deliveries rp, dp_AWBs = rp_AWBs rp, dp_Routing = router,
                                   dp_RoutingLog = rp_Routing rp, dp_Bus = rp_Bus rp\<rparr>,
                   app_Custody = custodySvc,
                   app_Webhook = \<lparr>wh_Carriers = reg, wh_Custody = custodySvc,
                                  wh_Deliveries = rp_Deliveries rp\<rparr>,
                   app_RiderSecrets = [''bolt_food'' \<mapsto> bf_RiderSecret cfg]\<rparr>))"

text \<open>\<open>PingDB\<close>: without a pool there is nothing to ping.\<close>

definition PingDB :: "('s \<Rightarrow> goerror option) option \<Rightarrow> 's \<Rightarrow> goerror option" where
  "PingDB pool s = (case pool of None \<Rightarrow> None | Some ping \<Rightarrow> ping s)"

section \<open>Runs\<close>

datatype app_op =
    OpBook booking_env booking_input
  | OpRecord record_env record_input
  | OpDispatch dispatch_env uuid
  | OpDispatchPending "nat \<Rightarrow> dispatch_env" int
  | OpWebhook "nat \<Rightarrow> webhook_env" carrier_id string headers

fun app_exec :: "('s, 'w) app \<Rightarrow> app_op \<Rightarrow> 's \<times> 'w \<Rightarrow> 's \<times> 'w" where
  "app_exec a (OpBook env i) (s, w) = (snd (CreateBooking (app_Booking a) env i s), w)"
| "app_exec a (OpRecord env i) (s, w) = (snd (custody_Record (app_Custody a) env i s), w)"
| "app_exec a (OpDispatch env i) (s, w) = snd (DispatchDelivery (app_Dispatch a) env i (s, w))"
| "app_exec a (OpDispatchPending envs limit) (s, w) = snd (DispatchPending (app_Dispatch a) envs limit (s, w))"
| "app_exec a (OpWebhook envs cid raw hdrs) (s, w) =
     (snd (webhook_Process (app_Webhook a) envs cid raw hdrs s), w)"

text \<open>
  How a storage is looked at: what is stored, the events it holds without a change to what is
  hashed, and how it starts. An operation is \<open>op_fresh\<close> when the identifiers it draws are new and the
  events it records are such events.
\<close>

record 's view =
  vw_awbs :: "'s \<Rightarrow> uuid \<rightharpoonup> awb"
  vw_dels :: "'s \<Rightarrow> uuid \<rightharpoonup> delivery"
  vw_chain :: "'s \<Rightarrow> uuid \<Rightarrow> event list"
  vw_fits :: "event \<Rightarrow> bool"
  vw_init :: "'s \<Rightarrow> bool"

fun op_fresh :: "'s view \<Rightarrow> ('s, 'w) app \<Rightarrow> 's \<Rightarrow> app_op \<Rightarrow> bool" where
  "op_fresh V a s (OpBook env i) \<longleftrightarrow>
     vw_dels V s (bv_deliveryID env) = None \<and> vw_awbs V s (bv_awbID env) = None"
| "op_fresh V a s (OpRecord env i) \<longleftrightarrow>
     fresh_event (vw_chain V) s (rv_eventID env) \<and> vw_fits V (record_event env i)"
| "op_fresh V a s (OpWebhook envs cid raw hdrs) \<longleftrightarrow>
     fresh_envs (vw_chain V) s envs (length (webhook_events (app_Carriers a) cid raw hdrs)) \<and>
     fits_events (vw_fits V) envs 0 cid (webhook_events (app_Carriers a) cid raw hdrs)"
| "op_fresh V a s _ \<longleftrightarrow> True"

inductive step_of :: "'s view \<Rightarrow> ('s, 'w) app \<Rightarrow> 's \<times> 'w \<Rightarrow> 's \<times> 'w \<Rightarrow> bool" for V a where
  step: "op_fresh V a s p \<Longrightarrow> step_of V a (s, w) (app_exec a p (s, w))"

inductive run_of :: "'s view \<Rightarrow> ('s, 'w) app \<Rightarrow> 's \<times> 'w \<Rightarrow> bool" for V a where
  start: "vw_init V s \<Longrightarrow> run_of V a (s, w)"
| more: "run_of V a sw \<Longrightarrow> step_of V a sw sw' \<Longrightarrow> run_of V a sw'"

inductive_cases step_ofE: "step_of V a (s, w) sw'"

section \<open>The wired program\<close>

lemma Wire_ok:
  "Wire env cfg = Inr \<lparr>rg_byID = [''bolt_food'' \<mapsto> [''v1'' \<mapsto> bolt_New env cfg]],
     rg_primary = [''bolt_food'' \<mapsto> ''v1''], rg_enabled = [(''bolt_food'', ''v1'') \<mapsto> True]\<rparr>"
  by (simp add: Wire_def Register_def Let_def NewRegistry_def bolt_New_def buildCapabilities_def
      rg_adapter_def)

lemma Wire_only_bolt:
  assumes "Wire env cfg = Inr reg" "reg_Get reg cid = Inr (Some port)"
  shows "port = bolt_New env cfg"
  using assms by (auto simp: Wire_ok reg_Get_def rg_adapter_def split: option.splits if_splits)

lemma Wire_reach: "Wire env cfg = Inr reg \<Longrightarrow> reg_reach reg"
  unfolding Wire_def
  by (auto split: prod.splits option.splits intro: reg_reach.reg [OF reg_reach.new])

definition app_wired :: "'w runtime \<Rightarrow> 's repos \<Rightarrow> ('s, 'w) app \<Rightarrow> bool" where
  "app_wired rt rp a \<longleftrightarrow>
     app_Custody a = \<lparr>cu_hash = rt_hash rt, cu_repo = rp_Custody rp, cu_Deliveries = rp_Deliveries rp\<rparr> \<and>
     bk_AWBs (app_Booking a) = rp_AWBs rp \<and> bk_Deliveries (app_Booking a) = rp_Deliveries rp \<and>
     (\<exists>eng. app_Dispatch a = \<lparr>dp_Deliveries = rp_Deliveries rp, dp_AWBs = rp_AWBs rp, dp_Routing = eng,
        dp_RoutingLog = rp_Routing rp, dp_Bus = rp_Bus rp\<rparr>) \<and>
     app_Webhook a = \<lparr>wh_Carriers = app_Carriers a, wh_Custody = app_Custody a,
       wh_Deliveries = rp_Deliveries rp\<rparr>"

lemma app_with_wired: "app_with rt rp cfg = Inr a \<Longrightarrow> app_wired rt rp a"
  by (auto simp: app_with_def app_wired_def Let_def Wire_ok split: sum.splits)

text \<open>How one step changes the storage.\<close>

definition store_step :: "('s \<Rightarrow> uuid \<rightharpoonup> delivery) \<Rightarrow> ('s \<Rightarrow> uuid \<Rightarrow> event list) \<Rightarrow> 's \<Rightarrow> 's \<Rightarrow> bool" where
  "store_step dels chain s s' \<longleftrightarrow> chain_grows chain s s' \<and>
     (\<forall>i d. dels s i = Some d \<longrightarrow> (\<exists>d'. dels s' i = Some d' \<and> moves state_edge d d'))"

lemma dels_move_step:
  "dels_move dels E s s' \<Longrightarrow> (\<And>a b. E a b \<Longrightarrow> state_edge a b) \<Longrightarrow> dels s i = Some d \<Longrightarrow>
     \<exists>d'. dels s' i = Some d' \<and> moves state_edge d d'"
  using dels_move_mono [of dels E s s' state_edge]
  by (metis dels_move_def option_rel_Some1)

lemma kept_store_step:
  assumes "kept invar H awbs dels chain E s s'" "\<And>a b. E a b \<Longrightarrow> state_edge a b"
  shows "invar s' \<and> app_inv H awbs dels chain s' \<and> store_step dels chain s s'"
  using assms(1) dels_move_step [of dels E s s', OF _ assms(2)] by (auto simp: kept_def store_step_def)

lemma store_step_refl: "store_step dels chain s s"
  by (auto simp: store_step_def)

lemma store_step_trans: "store_step dels chain s t \<Longrightarrow> store_step dels chain t u \<Longrightarrow> store_step dels chain s u"
  unfolding store_step_def using chain_grows_trans [of chain s t u] moves_trans by metis

section \<open>On any storage\<close>

context app_store
begin

lemma booking_step:
  assumes "inv s" "app_inv H awbs dels chain s" "dels s (bv_deliveryID env) = None"
    "CreateBooking deps env i s = (r, s')" "bk_AWBs deps = awb_rp" "bk_Deliveries deps = del_rp"
  shows "inv s' \<and> app_inv H awbs dels chain s' \<and> store_step dels chain s s'"
proof -
  note cb = create_booking [OF assms(1,3-6)]
  have "\<exists>d'. dels s' j = Some d' \<and> moves state_edge d d'" if "dels s j = Some d" for j d
  proof (cases r)
    case (Inl err)
    then show ?thesis using cb that by simp
  next
    case (Inr res)
    then obtain x y y' where "booking_delivery deps env i x = Inr y"
      "dels s' = (dels s)(d_ID y \<mapsto> y')" using cb by auto
    then show ?thesis using booking_delivery_ok assms(3) that by fastforce
  qed
  then show ?thesis
    using cb create_booking_inv [OF assms] by (simp add: store_step_def)
qed

text \<open>One operation of the wired program.\<close>

lemma app_exec_step:
  assumes wired: "app_wired rt \<lparr>rp_AWBs = awb_rp, rp_Deliveries = del_rp, rp_Routing = rlog,
      rp_Custody = repo, rp_Bus = bus\<rparr> a"
    and inv: "inv s" "app_inv (rt_hash rt) awbs dels chain s"
    and fresh: "op_fresh \<lparr>vw_awbs = awbs, vw_dels = dels, vw_chain = chain, vw_fits = fits, vw_init = init\<rparr> a s p"
    and ex: "app_exec a p (s, w) = (s', w')"
  shows "inv s' \<and> app_inv (rt_hash rt) awbs dels chain s' \<and> store_step dels chain s s'"
proof (cases p)
  case (OpBook env i)
  obtain r where r: "CreateBooking (app_Booking a) env i s = (r, s')"
    using ex OpBook by (metis app_exec.simps(1) prod.collapse prod.inject)
  show ?thesis
    using wired fresh OpBook by (intro booking_step [OF inv _ r]) (simp_all add: app_wired_def)
next
  case (OpRecord env i)
  obtain re er where rec: "custody_Record \<lparr>cu_hash = rt_hash rt, cu_repo = repo, cu_Deliveries = del_rp\<rparr> env i s =
      ((re, er), s')"
    using ex OpRecord wired unfolding app_wired_def repos.simps
    by (metis app_exec.simps(2) prod.collapse prod.inject)
  have "fresh_event chain s (rv_eventID env)" "fits (record_event env i)" using fresh OpRecord by simp_all
  then have "kept inv (rt_hash rt) awbs dels chain (event_edge (ri_Type i)) s s'"
    using custody_record_step [OF inv _ _ rec] by blast
  then show ?thesis by (rule kept_store_step) (simp add: event_edge_def)
next
  case (OpDispatch env i)
  from wired obtain eng where eng: "app_Dispatch a = \<lparr>dp_Deliveries = del_rp, dp_AWBs = awb_rp,
      dp_Routing = eng, dp_RoutingLog = rlog, dp_Bus = bus\<rparr>" by (auto simp: app_wired_def)
  obtain er where r: "DispatchDelivery (app_Dispatch a) env i (s, w) = (er, s', w')"
    using ex OpDispatch by (metis app_exec.simps(3) prod.collapse)
  have "kept inv (rt_hash rt) awbs dels chain state_edge s s'"
    using dispatch_delivery_step [OF inv r [unfolded eng]] by simp
  then show ?thesis by (rule kept_store_step)
next
  case (OpDispatchPending envs limit)
  from wired obtain eng where eng: "app_Dispatch a = \<lparr>dp_Deliveries = del_rp, dp_AWBs = awb_rp,
      dp_Routing = eng, dp_RoutingLog = rlog, dp_Bus = bus\<rparr>" by (auto simp: app_wired_def)
  obtain x where r: "DispatchPending (app_Dispatch a) envs limit (s, w) = (x, s', w')"
    using ex OpDispatchPending by (metis app_exec.simps(4) prod.collapse)
  have "kept inv (rt_hash rt) awbs dels chain state_edge s s'"
    using dispatch_pending_step [OF inv r [unfolded eng]] by simp
  then show ?thesis by (rule kept_store_step)
next
  case (OpWebhook envs cid raw hdrs)
  obtain r where r: "webhook_Process (app_Webhook a) envs cid raw hdrs s = (r, s')"
    using ex OpWebhook by (metis app_exec.simps(5) prod.collapse prod.inject)
  have deps: "app_Webhook a = \<lparr>wh_Carriers = app_Carriers a, wh_Custody = \<lparr>cu_hash = rt_hash rt,
      cu_repo = repo, cu_Deliveries = del_rp\<rparr>, wh_Deliveries = del_rp\<rparr>"
    using wired by (simp add: app_wired_def)
  have "kept inv (rt_hash rt) awbs dels chain webhook_edge s s'"
    using fresh OpWebhook by (intro process_step [OF inv _ _ r [unfolded deps]]) simp_all
  then show ?thesis by (rule kept_store_step) (simp add: webhook_edge_def)
qed

lemma app_run_inv:
  assumes wired: "app_wired rt \<lparr>rp_AWBs = awb_rp, rp_Deliveries = del_rp, rp_Routing = rlog,
      rp_Custody = repo, rp_Bus = bus\<rparr> a"
    and init: "\<And>s. init s \<Longrightarrow> inv s \<and> app_inv (rt_hash rt) awbs dels chain s"
    and run: "run_of \<lparr>vw_awbs = awbs, vw_dels = dels, vw_chain = chain, vw_fits = fits, vw_init = init\<rparr> a sw"
  shows "inv (fst sw) \<and> app_inv (rt_hash rt) awbs dels chain (fst sw)"
  using run
proof (induction rule: run_of.induct)
  case (start s w)
  then show ?case using init by simp
next
  case (more sw sw')
  obtain s w where sw: "sw = (s, w)" by fastforce
  obtain s' w' where sw': "sw' = (s', w')" by fastforce
  from more.hyps(2) [unfolded sw] obtain p where
    p: "op_fresh \<lparr>vw_awbs = awbs, vw_dels = dels, vw_chain = chain, vw_fits = fits, vw_init = init\<rparr> a s p"
      "app_exec a p (s, w) = (s', w')"
    unfolding sw' by (rule step_ofE) auto
  have "inv s" "app_inv (rt_hash rt) awbs dels chain s" using more.IH sw by auto
  from app_exec_step [OF wired this p] show ?case by (simp add: sw')
qed

lemma app_runs:
  assumes wired: "app_wired rt \<lparr>rp_AWBs = awb_rp, rp_Deliveries = del_rp, rp_Routing = rlog,
      rp_Custody = repo, rp_Bus = bus\<rparr> a"
    and init: "\<And>s. init s \<Longrightarrow> inv s \<and> app_inv (rt_hash rt) awbs dels chain s"
    and run: "run_of \<lparr>vw_awbs = awbs, vw_dels = dels, vw_chain = chain, vw_fits = fits, vw_init = init\<rparr> a sw"
    and steps: "(step_of \<lparr>vw_awbs = awbs, vw_dels = dels, vw_chain = chain, vw_fits = fits, vw_init = init\<rparr> a)\<^sup>*\<^sup>* sw sw'"
  shows "run_of \<lparr>vw_awbs = awbs, vw_dels = dels, vw_chain = chain, vw_fits = fits, vw_init = init\<rparr> a sw' \<and>
    store_step dels chain (fst sw) (fst sw')"
  using steps
proof (induction rule: rtranclp_induct)
  case base
  then show ?case using run store_step_refl by simp
next
  case (step y z)
  obtain s w s' w' where yz: "y = (s, w)" "z = (s', w')" by fastforce
  from step.hyps(2) [unfolded yz] obtain p where
    p: "op_fresh \<lparr>vw_awbs = awbs, vw_dels = dels, vw_chain = chain, vw_fits = fits, vw_init = init\<rparr> a s p"
      "app_exec a p (s, w) = (s', w')"
    by (rule step_ofE) auto
  have "inv s" "app_inv (rt_hash rt) awbs dels chain s"
    using app_run_inv [OF wired init step.IH [THEN conjunct1]] yz by auto
  from app_exec_step [OF wired this p]
  have "store_step dels chain (fst y) (fst z)" by (simp add: yz)
  moreover have "run_of \<lparr>vw_awbs = awbs, vw_dels = dels, vw_chain = chain, vw_fits = fits, vw_init = init\<rparr> a z"
    using step run_of.more by blast
  ultimately show ?case using step.IH store_step_trans [of dels chain "fst sw" "fst y" "fst z"] by blast
qed

end

section \<open>What no run can do\<close>

text \<open>A terminal state has no way out, however many steps follow.\<close>

lemma terminal_stuck: "IsTerminal s \<Longrightarrow> state_edge\<^sup>*\<^sup>* s t \<Longrightarrow> t = s"
  by (auto simp: IsTerminal_def elim: converse_rtranclpE)

lemma webhook_stays_off_the_way:
  assumes "webhook_edge\<^sup>*\<^sup>* s t" "s \<notin> {StateInTransit, StateEnRouteDrop, StateDelivered}"
  shows "t \<notin> {StateInTransit, StateEnRouteDrop, StateDelivered}"
  using assms
proof (induction rule: rtranclp_induct)
  case (step y z)
  then show ?case by (auto simp: webhook_edge_def state_edge_into)
qed

lemma ListByRole_loop_adapters:
  "ListByRole_loop r role order = Some l \<Longrightarrow> a \<in> set l \<Longrightarrow> \<exists>cid v. rg_adapter r cid v = Some a"
proof (induction order arbitrary: l)
  case (Cons cid cids)
  then consider l' where "ListByRole_loop r role cids = Some l'" "a \<in> set l'"
    | v where "rg_adapter r cid v = Some a"
    by (auto split: option.splits if_splits)
  then show ?case using Cons.IH by cases blast+
qed simp

lemma wired_lister:
  assumes "Wire env cfg = Inr reg" "c \<in> set (registry_lister rt reg role)"
  shows "c = bolt_New env cfg"
proof -
  have reg: "reg = \<lparr>rg_byID = [''bolt_food'' \<mapsto> [''v1'' \<mapsto> bolt_New env cfg]],
     rg_primary = [''bolt_food'' \<mapsto> ''v1''], rg_enabled = [(''bolt_food'', ''v1'') \<mapsto> True]\<rparr>"
    using assms(1) by (simp add: Wire_ok)
  obtain l where "ListByRole_loop reg role (rt_reg_order rt (rg_primary reg)) = Some l" "c \<in> set l"
    using assms(2)
    by (cases "ListByRole_loop reg role (rt_reg_order rt (rg_primary reg))")
      (simp_all add: registry_lister_def ListByRole_def)
  then obtain cid v where "rg_adapter reg cid v = Some c" using ListByRole_loop_adapters by blast
  then show ?thesis by (auto simp: rg_adapter_def reg split: option.splits if_splits)
qed

lemma wired_not_eligible:
  assumes "Wire env cfg = Inr reg" "pl_Type (sr_Pickup req) = PickupLocker"
  shows "eligible \<lparr>en_ListByRole = registry_lister rt reg, en_strategy = st\<rparr> req role = []"
proof -
  have "\<not> eligible_one req role c" if "c \<in> set (registry_lister rt reg role)" for c
    using wired_lister [OF assms(1) that] assms(2)
    by (simp add: eligible_one_iff bolt_New_def buildCapabilities_def)
  then show ?thesis by (simp add: eligible_def filter_empty_conv)
qed


text \<open>Bolt sends one event at a time.\<close>

lemma Bolt_events_le_1:
  assumes "app_with rt rp cfg = Inr a"
  shows "length (webhook_events (app_Carriers a) cid raw hdrs) \<le> 1"
proof -
  have reg: "Wire (rt_bolt rt) cfg = Inr (app_Carriers a)"
    using assms by (auto simp: app_with_def Let_def split: sum.splits)
  have port: "port = bolt_New (rt_bolt rt) cfg" if "reg_Get (app_Carriers a) cid = Inr (Some port)" for port
    by (rule Wire_only_bolt [OF reg that])
  have "evs = [] \<or> (\<exists>wh. evs = ToDomainEvents wh)"
    if "cp_ParseWebhook (bolt_New (rt_bolt rt) cfg) raw hdrs = Inr evs" for evs
    using that by (auto simp: bolt_New_def bolt_ParseWebhook_def split: option.splits sum.splits)
  then show ?thesis
    using port ToDomainEvents_le_1 by (fastforce simp: webhook_events_def split: sum.split option.split)
qed

lemma fresh_envs_le_1:
  "fresh_event chain s (rv_eventID (we_record (envs 0))) \<Longrightarrow> k \<le> 1 \<Longrightarrow> fresh_envs chain s envs k"
  by (cases k) (auto simp: fresh_envs_def inj_on_def)

end
