(* ===== verification/MemoryStore.thy ===== *)
theory MemoryStore
  imports Stores
begin

text \<open>
  \<open>internal/infra/memory\<close> and \<open>internal/infra/events\<close>: the in-memory repositories and the
  in-process event bus, on one state, the record \<open>mem\<close>. Go's maps are partial functions (a missing
  slice is the empty list), an aggregate is stored and read as a value because the repositories
  clone it on the way in and on the way out, and each method holds its lock throughout.
  The methods that \<open>range\<close> over the deliveries take the order of the keys as the function \<open>ord\<close>.
  The interpretations at the end show that each repository keeps its contract; \<open>App\<close> interprets
  the locale of the services on all of them.
\<close>

section \<open>State\<close>

record mem =
  m_awbByID :: "uuid \<rightharpoonup> awb"
  m_awbByAWB :: "string \<rightharpoonup> uuid"
  m_delByID :: "uuid \<rightharpoonup> delivery"
  m_delByAWB :: "uuid \<Rightarrow> uuid list"
  m_byDel :: "uuid \<Rightarrow> event list"
  m_logs :: "uuid \<Rightarrow> routing_decision_record list"
  m_audit :: "(string \<times> string \<times> gotime) list"

definition mem_empty :: mem where
  "mem_empty = \<lparr>m_awbByID = Map.empty, m_awbByAWB = Map.empty, m_delByID = Map.empty,
     m_delByAWB = (\<lambda>_. []), m_byDel = (\<lambda>_. []), m_logs = (\<lambda>_. []), m_audit = []\<rparr>"

section \<open>AWBs\<close>

definition memAWB_Save :: "awb \<Rightarrow> mem \<Rightarrow> goerror option \<times> mem" where
  "memAWB_Save a m =
     (None, m\<lparr>m_awbByID := (m_awbByID m)(a_ID a \<mapsto> a),
              m_awbByAWB := (m_awbByAWB m)(a_InternalAWB a \<mapsto> a_ID a)\<rparr>)"

definition memAWB_GetByID :: "uuid \<Rightarrow> mem \<Rightarrow> goerror + awb" where
  "memAWB_GetByID i m = (case m_awbByID m i of None \<Rightarrow> Inl ErrNotFound | Some a \<Rightarrow> Inr a)"

text \<open>A dangling index entry would make \<open>cloneAWB(nil)\<close> panic; \<open>mem_inv\<close> rules it out.\<close>

definition nil_awb :: goerror where
  "nil_awb = External ''runtime error: invalid memory address or nil pointer dereference''"

definition memAWB_GetByInternalAWB :: "string \<Rightarrow> mem \<Rightarrow> goerror + awb" where
  "memAWB_GetByInternalAWB x m =
     (case m_awbByAWB m x of
        None \<Rightarrow> Inl ErrNotFound
      | Some i \<Rightarrow> (case m_awbByID m i of None \<Rightarrow> Inl nil_awb | Some a \<Rightarrow> Inr a))"

definition mem_awb_repo :: "mem awb_repo" where
  "mem_awb_repo = \<lparr>ar_Save = memAWB_Save, ar_GetByID = memAWB_GetByID,
                   ar_GetByInternalAWB = memAWB_GetByInternalAWB\<rparr>"

section \<open>Deliveries\<close>

definition memDel_Save :: "delivery \<Rightarrow> mem \<Rightarrow> goerror option \<times> mem" where
  "memDel_Save d m =
     (let m1 = m\<lparr>m_delByID := (m_delByID m)(d_ID d \<mapsto> d)\<rparr>;
          ids = m_delByAWB m1 (d_AWBID d);
          found = (\<exists>i \<in> set ids. i = d_ID d)
      in (None, if found then m1
                else m1\<lparr>m_delByAWB := (m_delByAWB m1)(d_AWBID d := ids @ [d_ID d])\<rparr>))"

definition memDel_GetByID :: "uuid \<Rightarrow> mem \<Rightarrow> goerror + delivery" where
  "memDel_GetByID i m = (case m_delByID m i of None \<Rightarrow> Inl ErrNotFound | Some d \<Rightarrow> Inr d)"

definition memDel_ListByAWB :: "uuid \<Rightarrow> mem \<Rightarrow> goerror + delivery list" where
  "memDel_ListByAWB awbID m = Inr (List.map_filter (m_delByID m) (m_delByAWB m awbID))"

definition memDel_GetByCarrierExternalID ::
  "((uuid \<rightharpoonup> delivery) \<Rightarrow> uuid list) \<Rightarrow> string \<Rightarrow> string \<Rightarrow> mem \<Rightarrow> goerror + delivery" where
  "memDel_GetByCarrierExternalID ord carrierID externalID m =
     (case List.find (\<lambda>d. d_CarrierID d = carrierID \<and> d_CarrierExternalID d = externalID)
             (range_values (m_delByID m) (ord (m_delByID m))) of
        None \<Rightarrow> Inl ErrNotFound
      | Some d \<Rightarrow> Inr d)"

fun list_by_state :: "dstate \<Rightarrow> int \<Rightarrow> delivery list \<Rightarrow> delivery list \<Rightarrow> delivery list" where
  "list_by_state st limit out [] = out"
| "list_by_state st limit out (d # ds) =
     (if d_State d = st
      then (if int (length (out @ [d])) \<ge> limit then out @ [d] else list_by_state st limit (out @ [d]) ds)
      else list_by_state st limit out ds)"

definition memDel_ListByState ::
  "((uuid \<rightharpoonup> delivery) \<Rightarrow> uuid list) \<Rightarrow> dstate \<Rightarrow> int \<Rightarrow> mem \<Rightarrow> goerror + delivery list" where
  "memDel_ListByState ord st limit m =
     (let limit = (if limit \<le> 0 then 50 else limit)
      in Inr (list_by_state st limit [] (range_values (m_delByID m) (ord (m_delByID m)))))"

definition mem_delivery_repo :: "((uuid \<rightharpoonup> delivery) \<Rightarrow> uuid list) \<Rightarrow> mem delivery_repo" where
  "mem_delivery_repo ord =
     \<lparr>dr_Save = memDel_Save, dr_GetByID = memDel_GetByID,
      dr_GetByCarrierExternalID = memDel_GetByCarrierExternalID ord,
      dr_ListByAWB = memDel_ListByAWB, dr_ListByState = memDel_ListByState ord\<rparr>"

section \<open>Custody events\<close>

definition memCus_Append :: "event \<Rightarrow> mem \<Rightarrow> goerror option \<times> mem" where
  "memCus_Append e m =
     (let events = m_byDel m (e_DeliveryID e)
      in if \<exists>x \<in> set events. e_EventID x = e_EventID e then (None, m)
         else (None, m\<lparr>m_byDel := (m_byDel m)(e_DeliveryID e := events @ [e])\<rparr>))"

definition memCus_LastByDelivery :: "uuid \<Rightarrow> mem \<Rightarrow> goerror + event option" where
  "memCus_LastByDelivery i m =
     (let events = m_byDel m i
      in if length events = 0 then Inr None else Inr (Some (events ! (length events - 1))))"

definition memCus_ListByDelivery :: "uuid \<Rightarrow> mem \<Rightarrow> goerror + event list" where
  "memCus_ListByDelivery i m = Inr (m_byDel m i)"

text \<open>A key of the map has at least one event: \<open>Append\<close> is all that sets one.\<close>

definition memCus_VerifyAll :: "uuid \<Rightarrow> mem \<Rightarrow> goerror option" where
  "memCus_VerifyAll i m =
     (if m_byDel m i = [] then Some (Errorf ''memory: no events for %s'' [FUuid i]) else None)"

definition mem_custody_repo :: "mem custody_repo" where
  "mem_custody_repo = \<lparr>cr_Append = memCus_Append, cr_LastByDelivery = memCus_LastByDelivery,
                       cr_ListByDelivery = memCus_ListByDelivery\<rparr>"

section \<open>Routing log and event bus\<close>

definition memRouting_Save :: "uuid \<Rightarrow> routing_decision_record \<Rightarrow> mem \<Rightarrow> goerror option \<times> mem" where
  "memRouting_Save i r m = (None, m\<lparr>m_logs := (m_logs m)(i := m_logs m i @ [r])\<rparr>)"

definition mem_routing_repo :: "mem routing_repo" where
  "mem_routing_repo = \<lparr>rr_Save = memRouting_Save\<rparr>"

text \<open>
  A handler takes an event and the state and may fail; \<open>Publish\<close> calls the handlers in order
  for each event and drops their errors. The one handler the program subscribes appends to the
  audit log.
\<close>

type_synonym 's handler = "domain_event \<Rightarrow> 's \<Rightarrow> goerror option \<times> 's"

definition AuditHandler_Handle :: "mem handler" where
  "AuditHandler_Handle e m =
     (None, m\<lparr>m_audit := m_audit m @ [(ev_EventType e, ev_ExternalID e, ev_OccurredAt e)]\<rparr>)"

fun run_handlers :: "'s handler list \<Rightarrow> domain_event \<Rightarrow> 's \<Rightarrow> 's" where
  "run_handlers [] e m = m"
| "run_handlers (h # hs) e m = run_handlers hs e (snd (h e m))"

fun publish_each :: "'s handler list \<Rightarrow> domain_event list \<Rightarrow> 's \<Rightarrow> 's" where
  "publish_each hs [] m = m"
| "publish_each hs (e # es) m = publish_each hs es (run_handlers hs e m)"

definition bus_Publish :: "'s handler list \<Rightarrow> domain_event list \<Rightarrow> 's \<Rightarrow> goerror option \<times> 's" where
  "bus_Publish hs es m = (None, publish_each hs es m)"

definition mem_bus :: "'s handler list \<Rightarrow> 's event_bus" where
  "mem_bus hs = \<lparr>eb_Publish = bus_Publish hs\<rparr>"

section \<open>Invariant\<close>

definition mem_inv :: "mem \<Rightarrow> bool" where
  "mem_inv m \<longleftrightarrow>
     (\<forall>i a. m_awbByID m i = Some a \<longrightarrow> a_ID a = i) \<and>
     (\<forall>x i. m_awbByAWB m x = Some i \<longrightarrow> m_awbByID m i \<noteq> None) \<and>
     (\<forall>i d. m_delByID m i = Some d \<longrightarrow> d_ID d = i) \<and>
     finite (dom (m_delByID m)) \<and>
     (\<forall>i. distinct (m_delByAWB m i)) \<and>
     (\<forall>i x. x \<in> set (m_delByAWB m i) \<longrightarrow> m_delByID m x \<noteq> None)"

lemma mem_inv_empty: "mem_inv mem_empty"
  by (simp add: mem_inv_def mem_empty_def)

lemma mem_inv_cong:
  "m_awbByID m' = m_awbByID m \<Longrightarrow> m_awbByAWB m' = m_awbByAWB m \<Longrightarrow> m_delByID m' = m_delByID m \<Longrightarrow>
   m_delByAWB m' = m_delByAWB m \<Longrightarrow> mem_inv m' = mem_inv m"
  by (simp add: mem_inv_def)

lemma memAWB_Save_inv: "mem_inv m \<Longrightarrow> memAWB_Save a m = (r, m') \<Longrightarrow> mem_inv m'"
  by (auto simp: memAWB_Save_def mem_inv_def split: if_splits)

lemma memDel_Save_inv:
  assumes "mem_inv m" "memDel_Save d m = (r, m')"
  shows "mem_inv m'"
proof (cases "d_ID d \<in> set (m_delByAWB m (d_AWBID d))")
  case True
  then have "m' = m\<lparr>m_delByID := (m_delByID m)(d_ID d \<mapsto> d)\<rparr>"
    using assms(2) by (auto simp: memDel_Save_def Let_def)
  then show ?thesis using assms(1) by (auto simp: mem_inv_def)
next
  case False
  then have "m' = m\<lparr>m_delByID := (m_delByID m)(d_ID d \<mapsto> d),
      m_delByAWB := (m_delByAWB m)(d_AWBID d := m_delByAWB m (d_AWBID d) @ [d_ID d])\<rparr>"
    using assms(2) by (auto simp: memDel_Save_def Let_def)
  then show ?thesis using assms(1) False by (auto simp: mem_inv_def)
qed

lemma list_by_state_subset:
  "d \<in> set (list_by_state st limit out ds) \<Longrightarrow> d \<in> set out \<or> d \<in> set ds \<and> d_State d = st"
  by (induction st limit out ds rule: list_by_state.induct) (auto split: if_splits)

lemma range_values_mem: "v \<in> set (range_values m ks) \<Longrightarrow> \<exists>k. m k = Some v"
  by (induction ks) (auto split: option.splits)

lemma memDel_Save_simps [simp]:
  "fst (memDel_Save d m) = None"
  "m_delByID (snd (memDel_Save d m)) = (m_delByID m)(d_ID d \<mapsto> d)"
  "m_awbByID (snd (memDel_Save d m)) = m_awbByID m"
  "m_byDel (snd (memDel_Save d m)) = m_byDel m"
  by (simp_all add: memDel_Save_def Let_def)

lemma memDel_Save_res:
  assumes "memDel_Save d m = (r, m')"
  shows "r = None" "m_delByID m' = (m_delByID m)(d_ID d \<mapsto> d)" "m_awbByID m' = m_awbByID m"
    "m_byDel m' = m_byDel m"
  using memDel_Save_simps [of d m] by (simp_all only: assms fst_conv snd_conv)

lemma memCus_Append_same:
  "memCus_Append e m = (r, m') \<Longrightarrow> r = None \<and> m_awbByID m' = m_awbByID m \<and> m_awbByAWB m' = m_awbByAWB m \<and>
     m_delByID m' = m_delByID m \<and> m_delByAWB m' = m_delByAWB m"
  by (auto simp: memCus_Append_def Let_def split: if_splits)

lemma audit_frame:
  "m_awbByID (run_handlers [AuditHandler_Handle] e m) = m_awbByID m \<and>
   m_awbByAWB (run_handlers [AuditHandler_Handle] e m) = m_awbByAWB m \<and>
   m_delByID (run_handlers [AuditHandler_Handle] e m) = m_delByID m \<and>
   m_delByAWB (run_handlers [AuditHandler_Handle] e m) = m_delByAWB m \<and>
   m_byDel (run_handlers [AuditHandler_Handle] e m) = m_byDel m"
  by (simp add: AuditHandler_Handle_def)

lemma publish_frame:
  "m_awbByID (publish_each [AuditHandler_Handle] es m) = m_awbByID m \<and>
   m_awbByAWB (publish_each [AuditHandler_Handle] es m) = m_awbByAWB m \<and>
   m_delByID (publish_each [AuditHandler_Handle] es m) = m_delByID m \<and>
   m_delByAWB (publish_each [AuditHandler_Handle] es m) = m_delByAWB m \<and>
   m_byDel (publish_each [AuditHandler_Handle] es m) = m_byDel m"
  by (induction es arbitrary: m) (simp_all add: audit_frame del: run_handlers.simps)

text \<open>What \<open>ListByState\<close> returns: the first deliveries in the state, up to the limit.\<close>

lemma list_by_state_take:
  assumes "0 < limit" "int (length out) < limit"
  shows "list_by_state st limit out ds = out @ take (nat limit - length out) (filter (\<lambda>d. d_State d = st) ds)"
  using assms(2)
proof (induction ds arbitrary: out)
  case (Cons d ds)
  show ?case
  proof (cases "d_State d = st \<and> int (length (out @ [d])) < limit")
    case True
    then have "Suc (length out) < nat limit" by (simp add: nat_less_iff zless_nat_eq_int_zless)
    then have "nat limit - length out = Suc (nat limit - Suc (length out))" by simp
    with Cons.IH [of "out @ [d]"] True show ?thesis by simp
  next
    case False
    show ?thesis
    proof (cases "d_State d = st")
      case True
      with False Cons.prems have "nat limit - length out = Suc 0" by simp
      with True False show ?thesis by simp
    next
      case ne: False
      with Cons show ?thesis by simp
    qed
  qed
qed simp

lemma distinct_range_values:
  assumes "distinct ks" "\<forall>i d. m i = Some d \<longrightarrow> f d = i"
  shows "distinct (map f (range_values m ks))"
  using assms(1)
proof (induction ks)
  case (Cons k ks)
  then have "f d \<in> set ks" if "d \<in> set (range_values m ks)" for d
    using that assms(2) by (induction ks) (auto split: option.splits if_splits)
  with Cons assms(2) show ?case by (auto split: option.split)
qed simp

section \<open>The in-memory repositories are what the services assume\<close>

interpretation mem_awbs: awb_store mem_awb_repo m_awbByID mem_inv
proof unfold_locales
  show "\<exists>a'. same_awb a a' \<and> m_awbByID s' = (m_awbByID s)(a_ID a \<mapsto> a')"
    if "ar_Save mem_awb_repo a s = (None, s')" for s s' a
    using that by (auto simp: mem_awb_repo_def memAWB_Save_def intro!: exI [of _ a])
  show "m_awbByID s' = m_awbByID s" if "ar_Save mem_awb_repo a s = (Some err, s')" for s s' a err
    using that by (simp add: mem_awb_repo_def memAWB_Save_def)
  show "mem_inv s'" if "mem_inv s" "ar_Save mem_awb_repo a s = (r, s')" for s s' a r
    using that memAWB_Save_inv by (auto simp: mem_awb_repo_def)
  show "m_awbByID s i = Some a \<and> a_ID a = i" if "mem_inv s" "ar_GetByID mem_awb_repo i s = Inr a" for s i a
    using that by (auto simp: mem_awb_repo_def memAWB_GetByID_def mem_inv_def split: option.splits)
  show "m_awbByID s i = None" if "ar_GetByID mem_awb_repo i s = Inl ErrNotFound" for s i
    using that by (auto simp: mem_awb_repo_def memAWB_GetByID_def split: option.splits)
qed

interpretation mem_dels: delivery_store "mem_delivery_repo ord" m_delByID mem_inv
  for ord :: "(uuid \<rightharpoonup> delivery) \<Rightarrow> uuid list"
proof unfold_locales
  show "\<exists>d'. same_delivery d d' \<and> m_delByID s' = (m_delByID s)(d_ID d \<mapsto> d')"
    if "dr_Save (mem_delivery_repo ord) d s = (None, s')" for s s' d
    using memDel_Save_res(2) that by (intro exI [of _ d]) (simp add: mem_delivery_repo_def)
  show "m_delByID s' = m_delByID s" if "dr_Save (mem_delivery_repo ord) d s = (Some err, s')" for s s' d err
    using memDel_Save_res(1) that by (fastforce simp: mem_delivery_repo_def)
  show "mem_inv s'" if "mem_inv s" "dr_Save (mem_delivery_repo ord) d s = (r, s')" for s s' d r
    using that memDel_Save_inv by (auto simp: mem_delivery_repo_def)
  show "m_delByID s i = Some d \<and> d_ID d = i"
    if "mem_inv s" "dr_GetByID (mem_delivery_repo ord) i s = Inr d" for s i d
    using that by (auto simp: mem_delivery_repo_def memDel_GetByID_def mem_inv_def split: option.splits)
  show "m_delByID s i = None" if "dr_GetByID (mem_delivery_repo ord) i s = Inl ErrNotFound" for s i
    using that by (auto simp: mem_delivery_repo_def memDel_GetByID_def split: option.splits)
  have stored: "m_delByID s (d_ID d) = Some d"
    if "mem_inv s" "d \<in> set (range_values (m_delByID s) ks)" for s d ks
    using that range_values_mem [OF that(2)] by (auto simp: mem_inv_def)
  show "m_delByID s (d_ID d) = Some d \<and> d_CarrierID d = c \<and> d_CarrierExternalID d = x"
    if "mem_inv s" "dr_GetByCarrierExternalID (mem_delivery_repo ord) c x s = Inr d" for s c x d
    using that stored
    by (auto simp: mem_delivery_repo_def memDel_GetByCarrierExternalID_def split: option.splits dest!: find_SomeD)
  show "m_delByID s (d_ID d) = Some d \<and> d_State d = st"
    if "mem_inv s" "dr_ListByState (mem_delivery_repo ord) st n s = Inr ds" "d \<in> set ds" for s st n ds d
    using that stored
    by (auto simp: mem_delivery_repo_def memDel_ListByState_def Let_def dest!: list_by_state_subset)
qed

interpretation mem_custody: custody_store mem_custody_repo m_byDel mem_inv "\<lambda>e. e" "\<lambda>_. True"
proof unfold_locales
  show "prev = (if m_byDel s d = [] then None else Some (last (m_byDel s d)))"
    if "cr_LastByDelivery mem_custody_repo d s = Inr prev" for s d prev
    using that by (auto simp: mem_custody_repo_def memCus_LastByDelivery_def Let_def last_conv_nth)
  show "es = m_byDel s d" if "cr_ListByDelivery mem_custody_repo d s = Inr es" for s d es
    using that by (simp add: mem_custody_repo_def memCus_ListByDelivery_def)
  show "m_byDel s' = (m_byDel s)(e_DeliveryID e := m_byDel s (e_DeliveryID e) @ [e])"
    if "cr_Append mem_custody_repo e s = (None, s')" "\<forall>d. e_EventID e \<notin> e_EventID ` set (m_byDel s d)" for s s' e
  proof -
    have "\<not> (\<exists>x \<in> set (m_byDel s (e_DeliveryID e)). e_EventID x = e_EventID e)"
      using that(2) by (metis imageI)
    then show ?thesis using that(1) by (auto simp: mem_custody_repo_def memCus_Append_def Let_def)
  qed
  show "m_byDel s' = m_byDel s" if "cr_Append mem_custody_repo e s = (Some err, s')" for s s' e err
    using that memCus_Append_same by (fastforce simp: mem_custody_repo_def)
  show "mem_inv s'" if "mem_inv s" "cr_Append mem_custody_repo e s = (r, s')" for s s' e r
    using that memCus_Append_same [of e s r s'] mem_inv_cong [of s' s] by (simp add: mem_custody_repo_def)
qed (simp_all add: same_links_def)

section \<open>Properties\<close>

theorem GetByCarrierExternalID_order:
  assumes "mem_inv m" "range_order (m_delByID m) (ord (m_delByID m))"
    and uniq: "\<forall>i j d e. m_delByID m i = Some d \<longrightarrow> m_delByID m j = Some e \<longrightarrow>
      d_CarrierID d = c \<and> d_CarrierExternalID d = x \<longrightarrow> d_CarrierID e = c \<and> d_CarrierExternalID e = x \<longrightarrow> i = j"
  shows "memDel_GetByCarrierExternalID ord c x m =
    (if \<exists>i d. m_delByID m i = Some d \<and> d_CarrierID d = c \<and> d_CarrierExternalID d = x
     then Inr (THE d. \<exists>i. m_delByID m i = Some d \<and> d_CarrierID d = c \<and> d_CarrierExternalID d = x)
     else Inl ErrNotFound)"
proof -
  let ?P = "\<lambda>d. d_CarrierID d = c \<and> d_CarrierExternalID d = x"
  let ?vs = "range_values (m_delByID m) (ord (m_delByID m))"
  have vs: "set ?vs = ran (m_delByID m)" by (rule set_range_values [OF assms(2)])
  show ?thesis
  proof (cases "\<exists>i d. m_delByID m i = Some d \<and> ?P d")
    case True
    then obtain i d where d: "m_delByID m i = Some d" "?P d" by blast
    have only: "e = d" if "e \<in> set ?vs" "?P e" for e
    proof -
      obtain j where j: "m_delByID m j = Some e" using \<open>e \<in> set ?vs\<close> unfolding vs ran_def by blast
      then have "i = j" using uniq d that(2) by blast
      then show ?thesis using j d(1) by simp
    qed
    have "List.find ?P ?vs = Some d"
    proof (rule find_Some_unique)
      show "d \<in> set ?vs" using d unfolding vs by (auto intro: ranI)
      show "?P d" by (rule d(2))
      show "\<forall>y \<in> set ?vs. ?P y \<longrightarrow> y = d" using only by blast
    qed
    moreover have "(THE e. \<exists>i. m_delByID m i = Some e \<and> ?P e) = d"
      using d only unfolding vs by (intro the_equality) (blast intro: ranI)+
    ultimately show ?thesis using True by (simp add: memDel_GetByCarrierExternalID_def)
  next
    case False
    then have "List.find ?P ?vs = None"
      by (intro find_None_unique) (auto simp: vs ran_def)
    then show ?thesis using False by (simp add: memDel_GetByCarrierExternalID_def)
  qed
qed

theorem ListByState_spec:
  assumes "mem_inv m" "range_order (m_delByID m) (ord (m_delByID m))" "0 < limit"
  shows "\<exists>ds. memDel_ListByState ord st limit m = Inr ds \<and> distinct (map d_ID ds) \<and>
    int (length ds) = min limit (int (card {i. \<exists>d. m_delByID m i = Some d \<and> d_State d = st})) \<and>
    (\<forall>d \<in> set ds. m_delByID m (d_ID d) = Some d \<and> d_State d = st)"
proof -
  let ?vs = "range_values (m_delByID m) (ord (m_delByID m))"
  let ?fs = "filter (\<lambda>d. d_State d = st) ?vs"
  have id: "\<forall>i d. m_delByID m i = Some d \<longrightarrow> d_ID d = i" using assms(1) by (simp add: mem_inv_def)
  have vs: "set ?vs = ran (m_delByID m)" by (rule set_range_values [OF assms(2)])
  have dist: "distinct (map d_ID ?vs)"
    using assms(2) by (intro distinct_range_values [OF _ id]) (simp add: range_order_def)
  then have distf: "distinct (map d_ID ?fs)" by (rule distinct_map_filter)
  have "set (map d_ID ?fs) = {i. \<exists>d. m_delByID m i = Some d \<and> d_State d = st}"
    using id by (auto simp: vs ran_def image_iff)
  then have card: "card {i. \<exists>d. m_delByID m i = Some d \<and> d_State d = st} = length ?fs"
    using distinct_card [OF distf] by simp
  have res: "memDel_ListByState ord st limit m = Inr (take (nat limit) ?fs)"
    using assms(3) list_by_state_take [of limit "[]" st ?vs] by (simp add: memDel_ListByState_def)
  have sound: "\<forall>d \<in> set (take (nat limit) ?fs). m_delByID m (d_ID d) = Some d \<and> d_State d = st"
    using id by (auto simp: vs ran_def dest!: in_set_takeD)
  have dist_take: "distinct (map d_ID (take (nat limit) ?fs))"
    using distf by (metis distinct_take take_map)
  have len: "int (length (take (nat limit) ?fs)) =
      min limit (int (card {i. \<exists>d. m_delByID m i = Some d \<and> d_State d = st}))"
    unfolding card using assms(3) by (simp only: length_take)
  show ?thesis
    by (rule exI [of _ "take (nat limit) ?fs"]) (intro conjI res dist_take len sound)
qed

end
