(* ===== verification/App.thy ===== *)
theory App
  imports AppRun MemoryStore
begin

text \<open>
  \<open>internal/app/app.go\<close> with \<open>USE_MEMORY_STORE\<close>: the program on the in-memory storage. The theorems
  about its runs come from the lemmas of the locale \<open>app_store\<close>, through its interpretation here.
\<close>

section \<open>The in-memory storage is what the services assume\<close>

interpretation memory: app_store mem_awb_repo m_awbByID "mem_delivery_repo ord" m_delByID
    mem_custody_repo m_byDel mem_inv
    "\<lambda>e. e" "\<lambda>_. True" mem_routing_repo "mem_bus [AuditHandler_Handle]"
  for ord :: "(uuid \<rightharpoonup> delivery) \<Rightarrow> uuid list"
proof unfold_locales
  show "m_delByID s' = m_delByID s \<and> m_byDel s' = m_byDel s" if "ar_Save mem_awb_repo a s = (r, s')" for s s' a r
    using that by (auto simp: mem_awb_repo_def memAWB_Save_def)
  show "m_awbByID s' = m_awbByID s \<and> m_byDel s' = m_byDel s"
    if "dr_Save (mem_delivery_repo ord) d s = (r, s')" for s s' d r
    using memDel_Save_res(3,4) that by (simp add: mem_delivery_repo_def)
  show "m_awbByID s' = m_awbByID s \<and> m_delByID s' = m_delByID s"
    if "cr_Append mem_custody_repo e s = (r, s')" for s s' e r
    using that memCus_Append_same by (auto simp: mem_custody_repo_def)
  show "m_awbByID s' = m_awbByID s \<and> m_delByID s' = m_delByID s \<and> m_byDel s' = m_byDel s \<and> mem_inv s'"
    if "mem_inv s" "rr_Save mem_routing_repo i rec s = (r, s')" for s s' i rec r
    using that by (auto simp: mem_routing_repo_def memRouting_Save_def mem_inv_def)
  show "m_awbByID s' = m_awbByID s \<and> m_delByID s' = m_delByID s \<and> m_byDel s' = m_byDel s \<and> mem_inv s'"
    if "mem_inv s" "eb_Publish (mem_bus [AuditHandler_Handle]) evs s = (r, s')" for s s' evs r
    using that publish_frame [of evs s] mem_inv_cong [of s' s] by (auto simp: mem_bus_def bus_Publish_def)
qed

section \<open>The program with the in-memory repositories\<close>

definition mem_repos :: "'w runtime \<Rightarrow> mem repos" where
  "mem_repos rt =
     \<lparr>rp_AWBs = mem_awb_repo, rp_Deliveries = mem_delivery_repo (rt_del_order rt),
      rp_Routing = mem_routing_repo, rp_Custody = mem_custody_repo, rp_Bus = mem_bus [AuditHandler_Handle]\<rparr>"

definition app_New :: "'w runtime \<Rightarrow> bolt_config \<Rightarrow> goerror + (mem, 'w) app" where
  "app_New rt cfg = app_with rt (mem_repos rt) cfg"

definition mem_view :: "mem view" where
  "mem_view = \<lparr>vw_awbs = m_awbByID, vw_dels = m_delByID, vw_chain = m_byDel, vw_fits = (\<lambda>_. True),
     vw_init = (\<lambda>m. m = mem_empty)\<rparr>"

abbreviation app_step :: "(mem, 'w) app \<Rightarrow> mem \<times> 'w \<Rightarrow> mem \<times> 'w \<Rightarrow> bool" where
  "app_step \<equiv> step_of mem_view"

abbreviation app_run :: "(mem, 'w) app \<Rightarrow> mem \<times> 'w \<Rightarrow> bool" where
  "app_run \<equiv> run_of mem_view"

lemma app_New_wired: "app_New rt cfg = Inr a \<Longrightarrow> app_wired rt (mem_repos rt) a"
  by (simp add: app_New_def app_with_wired)

lemma app_New_Custody:
  "app_New rt cfg = Inr a \<Longrightarrow> app_Custody a =
     \<lparr>cu_hash = rt_hash rt, cu_repo = mem_custody_repo, cu_Deliveries = mem_delivery_repo (rt_del_order rt)\<rparr>"
  using app_New_wired [of rt cfg a] by (simp add: app_wired_def mem_repos_def)

lemma app_inv_empty: "app_inv H m_awbByID m_delByID m_byDel mem_empty"
  by (simp add: app_inv_def ledger_intact_def mem_empty_def)

lemma run_inv:
  assumes "app_New rt cfg = Inr a" "app_run a mw"
  shows "mem_inv (fst mw) \<and> app_inv (rt_hash rt) m_awbByID m_delByID m_byDel (fst mw)"
  using memory.app_run_inv [OF app_New_wired [OF assms(1), unfolded mem_repos_def] _ assms(2) [unfolded mem_view_def]]
    mem_inv_empty app_inv_empty by blast

lemma run_steps:
  assumes "app_New rt cfg = Inr a" "app_run a mw" "(app_step a)\<^sup>*\<^sup>* mw mw'"
  shows "app_run a mw' \<and> store_step m_delByID m_byDel (fst mw) (fst mw')"
  using memory.app_runs [OF app_New_wired [OF assms(1), unfolded mem_repos_def] _ assms(2,3) [unfolded mem_view_def]]
    mem_inv_empty app_inv_empty unfolding mem_view_def by blast

section \<open>Recording and booking on the in-memory storage, branch by branch\<close>

definition mem_custody_deps :: "hash_fns \<Rightarrow> ((uuid \<rightharpoonup> delivery) \<Rightarrow> uuid list) \<Rightarrow> mem custody_deps" where
  "mem_custody_deps H ord = \<lparr>cu_hash = H, cu_repo = mem_custody_repo, cu_Deliveries = mem_delivery_repo ord\<rparr>"

text \<open>The event a record appends, when it hashes.\<close>

definition next_event :: "hash_fns \<Rightarrow> mem \<Rightarrow> record_env \<Rightarrow> record_input \<Rightarrow> goerror + event" where
  "next_event H m env i =
     (let es = m_byDel m (ri_DeliveryID i);
          e = chain_event H (rv_eventID env) (if es = [] then None else Some (last es)) (record_event env i)
      in case computeHash H e of Inl err \<Rightarrow> Inl err | Inr h \<Rightarrow> Inr (e\<lparr>e_Hash := h\<rparr>))"

lemma next_event_fields:
  "next_event H m env i = Inr e \<Longrightarrow>
     e_EventID e = rv_eventID env \<and> e_DeliveryID e = ri_DeliveryID i \<and> e_Type e = ri_Type i"
  by (auto simp: next_event_def Let_def chain_event_def record_event_def split: sum.splits if_splits)

lemma mem_Ledger_Record:
  assumes "fresh_event m_byDel m (rv_eventID env)"
  shows "Ledger_Record H mem_custody_repo (rv_eventID env) (record_event env i) m =
    (case Validate (record_event env i) of
       Some err \<Rightarrow> (Inl err, m)
     | None \<Rightarrow>
         (case next_event H m env i of
            Inl err \<Rightarrow> (Inl err, m)
          | Inr e \<Rightarrow> (Inr e, m\<lparr>m_byDel := (m_byDel m)(ri_DeliveryID i := m_byDel m (ri_DeliveryID i) @ [e])\<rparr>)))"
proof (cases "Validate (record_event env i)")
  case (Some err)
  then show ?thesis by (simp add: Ledger_Record_def)
next
  case None
  have del: "e_DeliveryID (record_event env i) = ri_DeliveryID i" by (simp add: record_event_def)
  obtain prev where prev: "prev = (if m_byDel m (ri_DeliveryID i) = [] then None
      else Some (last (m_byDel m (ri_DeliveryID i))))" by simp
  have last: "cr_LastByDelivery mem_custody_repo (ri_DeliveryID i) m = Inr prev"
    by (simp add: prev mem_custody_repo_def memCus_LastByDelivery_def Let_def last_conv_nth)
  have next_ev: "next_event H m env i =
      (case computeHash H (chain_event H (rv_eventID env) prev (record_event env i)) of
         Inl err \<Rightarrow> Inl err
       | Inr h \<Rightarrow> Inr ((chain_event H (rv_eventID env) prev (record_event env i))\<lparr>e_Hash := h\<rparr>))"
    by (simp only: next_event_def Let_def prev)
  show ?thesis
  proof (cases "next_event H m env i")
    case (Inl err)
    then show ?thesis
      using None del last by (auto simp: Ledger_Record_def next_ev Let_def split: sum.splits)
  next
    case (Inr e)
    note f = next_event_fields [OF Inr]
    have "\<not> (\<exists>x \<in> set (m_byDel m (ri_DeliveryID i)). e_EventID x = e_EventID e)"
      using assms f unfolding fresh_event_def by (metis imageI)
    then have "cr_Append mem_custody_repo e m =
        (None, m\<lparr>m_byDel := (m_byDel m)(ri_DeliveryID i := m_byDel m (ri_DeliveryID i) @ [e])\<rparr>)"
      using f by (simp add: mem_custody_repo_def memCus_Append_def Let_def)
    then show ?thesis
      using None del last Inr
      by (auto simp: Ledger_Record_def next_ev Let_def split: sum.splits)
  qed
qed

lemma mem_custody_Record:
  assumes "fresh_event m_byDel m (rv_eventID env)"
  shows "custody_Record (mem_custody_deps H ord) env i m =
    (case m_delByID m (ri_DeliveryID i) of
       None \<Rightarrow> ((None, Some ErrNotFound), m)
     | Some d \<Rightarrow>
         (case Validate (record_event env i) of
            Some err \<Rightarrow> ((None, Some err), m)
          | None \<Rightarrow>
              (case next_event H m env i of
                 Inl err \<Rightarrow> ((None, Some err), m)
               | Inr e \<Rightarrow>
                   (let m1 = m\<lparr>m_byDel := (m_byDel m)(ri_DeliveryID i := m_byDel m (ri_DeliveryID i) @ [e])\<rparr>
                    in case applyDeliveryTransition env d (ri_Type i) of
                         Inl err \<Rightarrow> ((Some e, Some err), m1)
                       | Inr d' \<Rightarrow> ((Some e, None), snd (memDel_Save d' m1))))))"
proof -
  have get: "dr_GetByID (mem_delivery_repo ord) (ri_DeliveryID i) m =
      (case m_delByID m (ri_DeliveryID i) of None \<Rightarrow> Inl ErrNotFound | Some d \<Rightarrow> Inr d)"
    by (simp add: mem_delivery_repo_def memDel_GetByID_def)
  have save: "dr_Save (mem_delivery_repo ord) d' m1 = (None, snd (memDel_Save d' m1))" for d' m1
    by (simp add: mem_delivery_repo_def memDel_Save_def Let_def)
  note unfold = custody_Record_def mem_custody_deps_def get save mem_Ledger_Record [OF assms] Let_def
  show ?thesis
  proof (cases "m_delByID m (ri_DeliveryID i)")
    case None
    then show ?thesis by (simp add: unfold)
  next
    case d: (Some d)
    show ?thesis
    proof (cases "Validate (record_event env i)")
      case (Some err)
      then show ?thesis using d by (simp add: unfold)
    next
      case v: None
      show ?thesis
      proof (cases "next_event H m env i")
        case (Inl err)
        then show ?thesis using d v by (simp add: unfold)
      next
        case e: (Inr e)
        show ?thesis
          by (cases "applyDeliveryTransition env d (ri_Type i)") (simp_all add: unfold d v e)
      qed
    qed
  qed
qed

section \<open>Properties\<close>

text \<open>
  C15: Every operation of the in-memory program preserves the storage invariant (indexes agree
  with the records) and the application invariant (intact chains, well-formed parcels and
  deliveries, evidence for every state).
\<close>

theorem run_invariant:
  assumes "app_New rt cfg = Inr a" "app_run a (m, w)"
  shows "mem_inv m \<and> app_inv (rt_hash rt) m_awbByID m_delByID m_byDel m"
  using run_inv [OF assms] by simp

text \<open>
  C2: In every state that the in-memory program reaches when the calls of its services come one
  after the other, each with new identifiers, VerifyChain of any delivery reports no error.
  (Overlapping calls of Record can break a chain: see mem_records_fork.)
\<close>

theorem run_chains_verify:
  assumes "app_New rt cfg = Inr a" "app_run a (m, w)"
  shows "custody_VerifyChain (app_Custody a) i m = None"
proof -
  have inv: "mem_inv m" "ledger_intact (rt_hash rt) m_byDel m"
    using run_inv [OF assms] memory.app_invD(1) by auto
  have "cr_ListByDelivery mem_custody_repo i m = Inr (m_byDel m i)"
    by (simp add: mem_custody_repo_def memCus_ListByDelivery_def)
  then show ?thesis
    using memory.custody_verify_ok [OF inv, where ord = "rt_del_order rt" and i = i]
    by (auto simp: app_New_Custody [OF assms(1)])
qed

text \<open>
  C1: In every state the in-memory program can reach, a delivery in state delivered has in its
  custody chain a picked-up event and a delivered event, each with at least one photo and a
  location.
\<close>

theorem run_delivered_evidence:
  assumes "app_New rt cfg = Inr a" "app_run a (m, w)"
    and "m_delByID m i = Some d" "d_State d = StateDelivered"
  shows "(\<exists>e \<in> set (m_byDel m i). e_Type e = EventPackagePickedUp \<and> e_Photos e \<noteq> [] \<and> e_Location e \<noteq> None) \<and>
         (\<exists>e \<in> set (m_byDel m i). e_Type e = EventPackageDelivered \<and> e_Photos e \<noteq> [] \<and> e_Location e \<noteq> None)"
proof -
  have "delivery_ok m_awbByID m_byDel m i d"
    using run_inv [OF assms(1,2)] assms(3) memory.app_invD(3) by fastforce
  then show ?thesis
    using assms(4) by (simp add: delivery_ok_def delivery_evidence_def has_evidence_def carried_def)
qed

text \<open>
  C3: Custody chains are append-only: whatever operations follow, the chain of a delivery at a
  later time extends its chain at an earlier time.
\<close>

theorem run_append_only:
  assumes "app_New rt cfg = Inr a" "app_run a (m, w)" "(app_step a)\<^sup>*\<^sup>* (m, w) (m', w')"
  shows "prefix (m_byDel m i) (m_byDel m' i)"
  using run_steps [OF assms(1-3)]
  by (simp add: store_step_def chain_grows_def)

text \<open>
  C14: In the in-memory program, whatever calls of its services follow one after the other, each
  with new identifiers, a stored delivery is never lost, keeps its parcel and idempotency key,
  and its state moves only along the edges of the transition graph; a terminal state is final.
  (Overlapping calls can leave the graph: see custody_lost_update.)
\<close>

theorem run_follows_graph:
  assumes "app_New rt cfg = Inr a" "app_run a (m, w)" "(app_step a)\<^sup>*\<^sup>* (m, w) (m', w')"
    and "m_delByID m i = Some d"
  shows "\<exists>d'. m_delByID m' i = Some d' \<and> d_AWBID d' = d_AWBID d \<and> d_IdempotencyKey d' = d_IdempotencyKey d \<and>
    state_edge\<^sup>*\<^sup>* (d_State d) (d_State d') \<and> (IsTerminal (d_State d) \<longrightarrow> d_State d' = d_State d)"
proof -
  have "store_step m_delByID m_byDel m m'" using run_steps [OF assms(1-3)] by simp
  then obtain d' where "m_delByID m' i = Some d'" "moves state_edge d d'"
    using assms(4) by (auto simp: store_step_def)
  then show ?thesis using terminal_stuck by (auto simp: moves_def)
qed

lemma run_awb_at_locker:
  assumes "app_New rt cfg = Inr a" "app_run a (m, w)" "m_awbByID m i = Some x"
  shows "a_State x = AwbAtLocker"
proof -
  have "awb_ok i x"
    using run_inv [OF assms(1,2)] assms(3) memory.app_invD(2) by fastforce
  then show ?thesis by (simp add: awb_ok_def)
qed

lemma run_dispatch_refused:
  assumes new: "app_New rt cfg = Inr a" and run: "app_run a (m, w)"
  shows "DispatchDelivery (app_Dispatch a) env i (m, w) =
    (Some (case m_delByID m i of
       None \<Rightarrow> ErrNotFound
     | Some d \<Rightarrow>
         if d_State d = StatePending then Wrapf ''dispatch: routing: %w'' [] ErrNoEligibleCarrier
         else Errorf ''dispatch: delivery %s not pending (state=%s)''
                [FUuid i, FStr (state_string (d_State d))]), m, w)"
proof -
  obtain reg where reg: "Wire (rt_bolt rt) cfg = Inr reg"
    and dp: "app_Dispatch a = \<lparr>dp_Deliveries = mem_delivery_repo (rt_del_order rt), dp_AWBs = mem_awb_repo,
       dp_Routing = \<lparr>en_ListByRole = registry_lister rt reg, en_strategy = CheapestStrategy\<rparr>,
       dp_RoutingLog = mem_routing_repo, dp_Bus = mem_bus [AuditHandler_Handle]\<rparr>"
    using new by (auto simp: app_New_def app_with_def mem_repos_def Let_def split: sum.splits)
  have inv: "app_inv (rt_hash rt) m_awbByID m_delByID m_byDel m"
    using run_inv [OF new run] by simp
  have get: "dr_GetByID (mem_delivery_repo (rt_del_order rt)) i m = memDel_GetByID i m"
    by (simp add: mem_delivery_repo_def)
  show ?thesis
  proof (cases "m_delByID m i")
    case None
    then show ?thesis by (simp add: DispatchDelivery_def dp get memDel_GetByID_def)
  next
    case (Some d)
    have ok: "delivery_ok m_awbByID m_byDel m i d" using memory.app_invD(3) [OF inv] Some by simp
    then obtain x where x: "m_awbByID m (d_AWBID d) = Some x" by (auto simp: delivery_ok_def)
    have "pl_Type (sr_Pickup (buildShipmentRequest x d)) = PickupLocker"
      using ok by (simp add: delivery_ok_def)
    from wired_not_eligible [OF reg this] have dec: "Decide
        \<lparr>en_ListByRole = registry_lister rt reg, en_strategy = CheapestStrategy\<rparr>
        (dv_now_decide env) (buildShipmentRequest x d) RoleLastMile w = (Inl ErrNoEligibleCarrier, w)"
      by (simp add: Decide_def Let_def)
    have aw: "ar_GetByID mem_awb_repo (d_AWBID d) m = Inr x"
      by (simp add: mem_awb_repo_def memAWB_GetByID_def x)
    show ?thesis
      using Some aw dec by (simp add: DispatchDelivery_def dp get memDel_GetByID_def Let_def)
  qed
qed

text \<open>So no pass over the pending deliveries changes anything.\<close>

lemma dispatch_each_refused:
  assumes "\<And>env i. \<exists>err. DispatchDelivery deps env i sw = (Some err, sw)"
  shows "dispatch_each deps envs n ds ok sw = (ok, sw)"
proof (induction ds arbitrary: n ok)
  case (Cons d ds)
  obtain err where "DispatchDelivery deps (envs n) (d_ID d) sw = (Some err, sw)" using assms by blast
  with Cons show ?case by simp
qed simp

lemma run_pending_refused:
  assumes "app_New rt cfg = Inr a" "app_run a sw"
  shows "DispatchPending (app_Dispatch a) envs limit sw = (Inr 0, sw)"
proof -
  have refused: "\<exists>err. DispatchDelivery (app_Dispatch a) env i sw = (Some err, sw)" for env i
    using run_dispatch_refused [of rt cfg a "fst sw" "snd sw" env i] assms by auto
  have del: "dp_Deliveries (app_Dispatch a) = mem_delivery_repo (rt_del_order rt)"
    using app_New_wired [OF assms(1)] by (auto simp: app_wired_def mem_repos_def)
  show ?thesis
    using dispatch_each_refused [OF refused]
    by (simp add: DispatchPending_def del mem_delivery_repo_def memDel_ListByState_def)
qed

text \<open>And no delivery ever gets an identifier from a carrier, by which a webhook could find it.\<close>

definition no_external :: "mem \<Rightarrow> bool" where
  "no_external m \<longleftrightarrow> (\<forall>i d. m_delByID m i = Some d \<longrightarrow> d_CarrierExternalID d = [])"

lemma no_external_saved: "no_external m \<Longrightarrow> d_CarrierExternalID d = [] \<Longrightarrow> no_external (snd (memDel_Save d m))"
  by (simp add: no_external_def)

lemma Ledger_Record_dels: "m_delByID (snd (Ledger_Record H mem_custody_repo i e m)) = m_delByID m"
proof -
  have "m_delByID (snd (memCus_Append e m)) = m_delByID m" for e
    using memCus_Append_same [of e m "fst (memCus_Append e m)" "snd (memCus_Append e m)"] by simp
  then show ?thesis
    by (simp add: Ledger_Record_def Let_def mem_custody_repo_def case_prod_beta split: option.split sum.split)
qed

lemma no_external_book:
  assumes deps: "bk_AWBs deps = mem_awb_repo" "bk_Deliveries deps = mem_delivery_repo ord"
    and none: "no_external m"
  shows "no_external (snd (CreateBooking deps env i m))"
proof (cases "booking_awb env i")
  case (Inl err)
  then show ?thesis using none by (simp add: CreateBooking_def)
next
  case a: (Inr a)
  show ?thesis
  proof (cases "booking_delivery deps env i a")
    case (Inl err)
    then show ?thesis using none a by (simp add: CreateBooking_def)
  next
    case (Inr d)
    have "d_CarrierExternalID d = []"
      using Inr by (auto simp: booking_delivery_def delivery_New_def Schedule_def Let_def split: sum.splits if_splits)
    moreover have "no_external (snd (memAWB_Save a m))"
      using none by (simp add: no_external_def memAWB_Save_def)
    moreover have "ar_Save (bk_AWBs deps) a m = (None, snd (memAWB_Save a m))"
      by (simp add: deps mem_awb_repo_def memAWB_Save_def)
    moreover have "dr_Save (bk_Deliveries deps) d s = (None, snd (memDel_Save d s))" for s
      by (simp add: deps mem_delivery_repo_def memDel_Save_def Let_def)
    ultimately show ?thesis
      using none a Inr no_external_saved by (simp add: CreateBooking_def)
  qed
qed

lemma apply_external: "applyDeliveryTransition env d t = Inr d' \<Longrightarrow> d_CarrierExternalID d' = d_CarrierExternalID d"
  by (cases t) (auto simp: applyDeliveryTransition_def Transition_cases MarkPickedUp_cases MarkDelivered_cases
      MarkFailed_def split: if_splits)

lemma no_external_record:
  assumes "cu_repo deps = mem_custody_repo" "cu_Deliveries deps = mem_delivery_repo ord" "no_external m"
  shows "no_external (snd (custody_Record deps env i m))"
proof (cases "m_delByID m (ri_DeliveryID i)")
  case None
  then show ?thesis using assms by (simp add: custody_Record_def mem_delivery_repo_def memDel_GetByID_def)
next
  case (Some d)
  obtain r m1 where rec: "Ledger_Record (cu_hash deps) mem_custody_repo (rv_eventID env) (record_event env i) m = (r, m1)"
    by fastforce
  then have m1: "no_external m1"
    using Ledger_Record_dels [of "cu_hash deps" "rv_eventID env" "record_event env i" m] assms(3)
    by (simp add: no_external_def)
  have "d_CarrierExternalID d = []" using Some assms(3) by (simp add: no_external_def)
  then have "no_external (snd (memDel_Save d' m1))" if "applyDeliveryTransition env d (ri_Type i) = Inr d'" for d'
    using apply_external [OF that] no_external_saved [OF m1] by simp
  with m1 show ?thesis
    by (simp add: custody_Record_def assms(1,2) mem_delivery_repo_def memDel_GetByID_def Some rec case_prod_beta
        split: sum.split option.split)
qed

lemma range_values_in: "d \<in> set (range_values m ks) \<Longrightarrow> d \<in> ran m"
  by (auto simp: range_values_def List.map_filter_def ran_def)

lemma handle_events_ignored:
  assumes "no_external m" "wh_Deliveries deps = mem_delivery_repo ord"
  shows "handle_events deps envs n cid evs m = m"
proof (induction evs arbitrary: n)
  case (Cons ev evs)
  have "memDel_GetByCarrierExternalID ord cid x m = Inl ErrNotFound" if "x \<noteq> []" for x
  proof -
    have "d_CarrierExternalID d = []" if "d \<in> set (range_values (m_delByID m) (ord (m_delByID m)))" for d
      using assms(1) range_values_in [OF that] by (auto simp: no_external_def ran_def)
    then have "List.find (\<lambda>d. d_CarrierID d = cid \<and> d_CarrierExternalID d = x)
        (range_values (m_delByID m) (ord (m_delByID m))) = None"
      using \<open>x \<noteq> []\<close> by (auto simp: find_None_iff)
    then show ?thesis by (simp add: memDel_GetByCarrierExternalID_def)
  qed
  then have "handleDomainEvent deps (envs n) cid ev m = (None, m)"
    by (simp add: handleDomainEvent_def assms(2) mem_delivery_repo_def Let_def)
  with Cons show ?case by simp
qed simp

lemma webhook_ignored:
  assumes "no_external m" "wh_Deliveries deps = mem_delivery_repo ord"
  shows "snd (webhook_Process deps envs cid raw hdrs m) = m"
  using handle_events_ignored [OF assms]
  by (simp add: webhook_Process_def split: sum.split option.split)

lemma run_no_external:
  assumes "app_New rt cfg = Inr a" "app_run a mw"
  shows "no_external (fst mw)"
  using assms(2)
proof (induction rule: run_of.induct)
  case (start s w)
  then show ?case by (simp add: mem_view_def no_external_def mem_empty_def)
next
  case (more mw mw')
  note wired = app_New_wired [OF assms(1), unfolded app_wired_def mem_repos_def]
  obtain m w p where mw: "mw = (m, w)" and mw': "mw' = app_exec a p (m, w)"
    using more.hyps(2) by (cases mw) (auto elim: step_ofE)
  have none: "no_external m" using more.IH mw by simp
  show ?case
  proof (cases p)
    case (OpBook env i)
    then show ?thesis using wired none by (simp add: mw' no_external_book)
  next
    case (OpRecord env i)
    then show ?thesis using wired none by (simp add: mw' no_external_record)
  next
    case (OpDispatch env i)
    then show ?thesis using run_dispatch_refused [OF assms(1) more.hyps(1) [unfolded mw], of env i] none by (simp add: mw')
  next
    case (OpDispatchPending envs limit)
    then show ?thesis using run_pending_refused [OF assms(1) more.hyps(1)] none mw by (simp add: mw')
  next
    case (OpWebhook envs cid raw hdrs)
    have "wh_Deliveries (app_Webhook a) = mem_delivery_repo (rt_del_order rt)" using wired by simp
    from webhook_ignored [OF none this] OpWebhook none show ?thesis by (simp add: mw')
  qed
qed

text \<open>
  C25: In every reachable state dispatching any delivery fails and changes nothing: bookings are
  picked up from lockers and the only wired carrier does not serve lockers.
\<close>

theorem run_dispatch_never_succeeds:
  assumes new: "app_New rt cfg = Inr a" and run: "app_run a (m, w)"
  shows "DispatchDelivery (app_Dispatch a) env i (m, w) =
    (Some (case m_delByID m i of
       None \<Rightarrow> ErrNotFound
     | Some d \<Rightarrow>
         if d_State d = StatePending then Wrapf ''dispatch: routing: %w'' [] ErrNoEligibleCarrier
         else Errorf ''dispatch: delivery %s not pending (state=%s)''
                [FUuid i, FStr (state_string (d_State d))]), m, w)"
  by (rule run_dispatch_refused [OF assms])

text \<open>
  C26: In every state the in-memory program can reach a webhook call, signed or not, changes
  nothing: no delivery ever gets the carrier identifier a webhook would be matched by.
\<close>

theorem run_webhooks_ignored:
  assumes "app_New rt cfg = Inr a" "app_run a (m, w)"
  shows "snd (webhook_Process (app_Webhook a) envs cid raw hdrs m) = m"
  using app_New_wired [OF assms(1)] run_no_external [OF assms]
  by (intro webhook_ignored) (auto simp: app_wired_def mem_repos_def)

text \<open>
  C29: In every consistent state, also one where deliveries were assigned to the carrier, no
  webhook call moves a delivery into in_transit, en_route_drop or delivered from any other
  state.
\<close>

theorem webhook_never_delivers:
  assumes "app_New rt cfg = Inr a" "mem_inv m" "app_inv (rt_hash rt) m_awbByID m_delByID m_byDel m"
    and "fresh_event m_byDel m (rv_eventID (we_record (envs 0)))"
    and "webhook_Process (app_Webhook a) envs cid raw hdrs m = (r, m')"
    and "m_delByID m i = Some d" "d_State d \<notin> {StateInTransit, StateEnRouteDrop, StateDelivered}"
  shows "\<exists>d'. m_delByID m' i = Some d' \<and> d_State d' \<notin> {StateInTransit, StateEnRouteDrop, StateDelivered}"
proof -
  note inv = assms(2,3)
  have deps: "app_Webhook a = \<lparr>wh_Carriers = app_Carriers a, wh_Custody = \<lparr>cu_hash = rt_hash rt,
      cu_repo = mem_custody_repo, cu_Deliveries = mem_delivery_repo (rt_del_order rt)\<rparr>,
      wh_Deliveries = mem_delivery_repo (rt_del_order rt)\<rparr>"
    using app_New_wired [OF assms(1)] app_New_Custody [OF assms(1)] by (simp add: app_wired_def mem_repos_def)
  have fresh: "fresh_envs m_byDel m envs (length (webhook_events (app_Carriers a) cid raw hdrs))"
    by (rule fresh_envs_le_1 [where chain = m_byDel and s = m and envs = envs,
          OF assms(4) Bolt_events_le_1 [OF assms(1) [unfolded app_New_def]]])
  have "kept mem_inv (rt_hash rt) m_awbByID m_delByID m_byDel webhook_edge m m'"
    by (rule memory.process_step [OF inv fresh fits_events_all assms(5) [unfolded deps]])
  then have "rel_option (moves webhook_edge) (m_delByID m i) (m_delByID m' i)"
    by (simp add: kept_def dels_move_def)
  then obtain d' where "m_delByID m' i = Some d'" "moves webhook_edge d d'"
    using assms(6) by (auto simp: option_rel_Some1)
  then show ?thesis using webhook_stays_off_the_way assms(7) by (auto simp: moves_def)
qed

text \<open>
  C24: On the in-memory repositories: when a valid event that can be hashed asks for a
  transition that is not allowed from the current state, Record answers with an invalid-
  transition error, but the event has already been appended to the chain.
\<close>

theorem custody_event_precedes_transition:
  assumes "fresh_event m_byDel m (rv_eventID env)" "m_delByID m (ri_DeliveryID i) = Some d"
    and "Validate (record_event env i) = None" "next_event H m env i = Inr e"
    and "event_target (ri_Type i) = Some st" "\<not> state_edge (d_State d) st"
  shows "custody_Record (mem_custody_deps H ord) env i m =
    ((Some e, Some (Errorf ''delivery: invalid transition %s -> %s''
        [FStr (state_string (d_State d)), FStr (state_string st)])),
     m\<lparr>m_byDel := (m_byDel m)(ri_DeliveryID i := m_byDel m (ri_DeliveryID i) @ [e])\<rparr>)"
proof -
  have "applyDeliveryTransition env d (ri_Type i) = Inl (Errorf ''delivery: invalid transition %s -> %s''
      [FStr (state_string (d_State d)), FStr (state_string st)])"
    using apply_error assms(5,6) by blast
  then show ?thesis using assms(2-4) by (simp add: mem_custody_Record [OF assms(1)] Let_def)
qed

text \<open>The whole state after \<open>Record\<close>: no other field, and no other entry of these three, is written.\<close>

text \<open>
  C20: When Record with a new event identifier succeeds on the in-memory repositories, the whole
  new state is known: exactly the next event of the chain was appended to that delivery's chain,
  the delivery was stored after the transition the event implies, under its identifier and in
  the list of its parcel, and no other field or entry changed. The event passed validation.
\<close>

theorem custody_Record_ok:
  assumes "fresh_event m_byDel m (rv_eventID env)"
    and "custody_Record (mem_custody_deps H ord) env i m = ((re, None), m')"
  shows "\<exists>e d d'. re = Some e \<and> next_event H m env i = Inr e \<and> Validate (record_event env i) = None \<and>
    m_delByID m (ri_DeliveryID i) = Some d \<and> applyDeliveryTransition env d (ri_Type i) = Inr d' \<and>
    d_ID d' = d_ID d \<and> d_AWBID d' = d_AWBID d \<and>
    m' = m\<lparr>m_byDel := (m_byDel m)(ri_DeliveryID i := m_byDel m (ri_DeliveryID i) @ [e]),
           m_delByID := (m_delByID m)(d_ID d \<mapsto> d'),
           m_delByAWB := (m_delByAWB m)(d_AWBID d :=
             (let ids = m_delByAWB m (d_AWBID d) in if d_ID d \<in> set ids then ids else ids @ [d_ID d]))\<rparr>"
proof -
  note rec = assms(2) [unfolded mem_custody_Record [OF assms(1)]]
  obtain d where d: "m_delByID m (ri_DeliveryID i) = Some d"
    using rec by (cases "m_delByID m (ri_DeliveryID i)") auto
  have v: "Validate (record_event env i) = None"
    using rec d by (cases "Validate (record_event env i)") auto
  obtain e where e: "next_event H m env i = Inr e"
    using rec d v by (cases "next_event H m env i") auto
  obtain d' where d': "applyDeliveryTransition env d (ri_Type i) = Inr d'"
    using rec d v e by (cases "applyDeliveryTransition env d (ri_Type i)") (auto simp: Let_def)
  let ?m1 = "m\<lparr>m_byDel := (m_byDel m)(ri_DeliveryID i := m_byDel m (ri_DeliveryID i) @ [e])\<rparr>"
  have "re = Some e" "snd (memDel_Save d' ?m1) = m'"
    using rec d v e d' by (auto simp: Let_def)
  moreover have "d_ID d' = d_ID d" "d_AWBID d' = d_AWBID d"
    using apply_target [OF d'] by (simp_all add: same_job_def)
  ultimately show ?thesis using d v e d' by (auto simp: memDel_Save_def Let_def)
qed

text \<open>
  C23: On the in-memory repositories a refused booking changes nothing; an accepted one can be
  read back by its identifier, is pending, at the locker, with a valid parcel, the quoted price,
  a future slot, and its own identifier as idempotency key.
\<close>

theorem CreateBooking_spec:
  assumes "bk_AWBs deps = mem_awb_repo" "bk_Deliveries deps = mem_delivery_repo ord"
    and "CreateBooking deps env i m = (r, m')"
  shows "case r of
      Inl err \<Rightarrow> m' = m
    | Inr res \<Rightarrow> \<exists>a d.
        GetBooking deps (bkr_DeliveryID res) m' = Inr (d, a) \<and>
        bkr_AWBID res = a_ID a \<and> bkr_InternalAWB res = a_InternalAWB a \<and>
        bkr_QuotedPriceMinor res = mo_Minor (q_Total (booking_quote deps i)) \<and>
        bkr_State res = ''pending'' \<and>
        a_RetailerID a = in_RetailerID i \<and> a_State a = AwbAtLocker \<and> validatePackage (a_Package a) = None \<and>
        d_State d = StatePending \<and> d_AWBID d = a_ID a \<and> d_IdempotencyKey d = uuid_String (d_ID d) \<and>
        d_ScheduledWindowStart d = Some (in_SlotStart i) \<and> d_ScheduledWindowEnd d = Some (in_SlotEnd i) \<and>
        time_Before (in_SlotStart i) (in_SlotEnd i) \<and> \<not> time_Before (in_SlotStart i) (bv_now_check env)"
proof -
  have as: "ar_Save (bk_AWBs deps) a s = (None, snd (memAWB_Save a s))" for a s
    using assms(1) by (simp add: mem_awb_repo_def memAWB_Save_def)
  have ds: "dr_Save (bk_Deliveries deps) d s = (None, snd (memDel_Save d s))" for d s
    using assms(2) by (simp add: mem_delivery_repo_def memDel_Save_def Let_def)
  show ?thesis
  proof (cases r)
    case (Inl err)
    show ?thesis
    proof (cases "booking_awb env i")
      case (Inl e)
      then show ?thesis using assms(3) \<open>r = Inl err\<close> by (simp add: CreateBooking_def split: if_splits)
    next
      case (Inr a)
      then show ?thesis using assms(3) \<open>r = Inl err\<close>
        by (cases "booking_delivery deps env i a") (simp_all add: CreateBooking_def as ds split: if_splits)
    qed
  next
    case (Inr res)
    obtain a where a: "booking_awb env i = Inr a"
      using assms(3) Inr by (cases "booking_awb env i") (simp_all add: CreateBooking_def split: if_splits)
    obtain d where d: "booking_delivery deps env i a = Inr d"
      using assms(3) Inr a
      by (cases "booking_delivery deps env i a") (simp_all add: CreateBooking_def split: if_splits)
    have m': "m' = snd (memDel_Save d (snd (memAWB_Save a m)))"
      and res: "res = \<lparr>bkr_AWBID = a_ID a, bkr_InternalAWB = a_InternalAWB a, bkr_DeliveryID = d_ID d,
          bkr_QuotedPriceMinor = d_PriceQuotedMinor d, bkr_Currency = d_PriceCurrency d,
          bkr_State = state_string (d_State d)\<rparr>"
      using assms(3) Inr a d by (simp_all add: CreateBooking_def as ds split: if_splits)
    have stored: "m_delByID m' (d_ID d) = Some d" "m_awbByID m' (a_ID a) = Some a"
      by (simp_all add: m' memDel_Save_def memAWB_Save_def Let_def)
    have "GetBooking deps (d_ID d) m' = Inr (d, a)"
      using stored booking_delivery_ok [OF d] assms(1,2)
      by (simp add: GetBooking_def mem_delivery_repo_def mem_awb_repo_def memDel_GetByID_def memAWB_GetByID_def)
    then show ?thesis
      using Inr res booking_awb_ok [OF a, THEN conjunct1]
        booking_awb_ok [OF a, THEN conjunct2, THEN conjunct1]
        booking_awb_ok [OF a, THEN conjunct2, THEN conjunct2] booking_delivery_ok [OF d]
      by (simp only: sum.case) (rule exI [of _ a], rule exI [of _ d], auto)
  qed
qed

end
