(* ===== verification/GoText.thy ===== *)
theory GoText
  imports GoFloat GoRuntime
begin

text \<open>
  How the program reads numbers out of text: \<open>strconv.ParseBool\<close>, \<open>strconv.Atoi\<close>,
  \<open>fmt.Sscanf\<close> with \<open>%d\<close> and \<open>time.ParseDuration\<close>. The callers only ask whether there was an
  error, so a failure is \<open>None\<close>. An \<open>int\<close> has 64 bits. The loops over the text are recursive
  functions whose argument gets shorter, and the round trips with the printed form are at the end.
\<close>

section \<open>Digits\<close>

definition is_digit :: "char \<Rightarrow> bool" where
  "is_digit c \<longleftrightarrow> 48 \<le> (of_char c :: int) \<and> (of_char c :: int) \<le> 57"

definition digit_val :: "char \<Rightarrow> int" where
  "digit_val c = of_char c - 48"

fun dec_value :: "int \<Rightarrow> string \<Rightarrow> int" where
  "dec_value x [] = x"
| "dec_value x (c # cs) = dec_value (10 * x + digit_val c) cs"

text \<open>An optional sign, as \<open>Atoi\<close>, \<open>Sscanf\<close> and \<open>ParseDuration\<close> take it off.\<close>

fun cut_sign :: "string \<Rightarrow> bool \<times> string" where
  "cut_sign [] = (False, [])"
| "cut_sign (c # cs) =
     (if c = CHR ''-'' then (True, cs) else if c = CHR ''+'' then (False, cs) else (False, c # cs))"

definition with_sign :: "bool \<Rightarrow> int \<Rightarrow> int" where
  "with_sign neg n = (if neg then - n else n)"

section \<open>\<open>strconv\<close> and \<open>fmt\<close>\<close>

definition ParseBool :: "string \<Rightarrow> bool option" where
  "ParseBool s =
     (if s \<in> set [''1'', ''t'', ''T'', ''TRUE'', ''true'', ''True''] then Some True
      else if s \<in> set [''0'', ''f'', ''F'', ''FALSE'', ''false'', ''False''] then Some False
      else None)"

definition int_of_digits :: "bool \<Rightarrow> string \<Rightarrow> int option" where
  "int_of_digits neg ds =
     (let n = with_sign neg (dec_value 0 ds)
      in if ds \<noteq> [] \<and> list_all is_digit ds \<and> int64_range n then Some n else None)"

definition Atoi :: "string \<Rightarrow> int option" where
  "Atoi s = (case cut_sign s of (neg, ds) \<Rightarrow> int_of_digits neg ds)"

text \<open>
  The runes \<open>Sscanf\<close> skips, in UTF-8; a newline is an error before an operand.
\<close>

definition space_runes :: "string list" where
  "space_runes =
     map (\<lambda>c. [c]) [CHR 0x09, CHR 0x0b, CHR 0x0c, CHR 0x0d, CHR 0x20] @
     [[CHR 0xc2, CHR 0x85], [CHR 0xc2, CHR 0xa0], [CHR 0xe1, CHR 0x9a, CHR 0x80],
      [CHR 0xe2, CHR 0x81, CHR 0x9f], [CHR 0xe3, CHR 0x80, CHR 0x80]] @
     map (\<lambda>c. [CHR 0xe2, CHR 0x80, c])
       [CHR 0x80, CHR 0x81, CHR 0x82, CHR 0x83, CHR 0x84, CHR 0x85, CHR 0x86, CHR 0x87, CHR 0x88,
        CHR 0x89, CHR 0x8a, CHR 0xa8, CHR 0xa9, CHR 0xaf]"

function SkipSpace :: "string \<Rightarrow> string option" where
  "SkipSpace s =
     (if take 1 s = [CHR 0x0A] then None
      else case List.find (\<lambda>p. take (length p) s = p) space_runes of
             None \<Rightarrow> Some s
           | Some p \<Rightarrow> SkipSpace (drop (length p) s))"
  by pat_completeness auto

termination
proof (relation "measure length")
  fix s p
  assume p: "List.find (\<lambda>p. take (length p) s = p) space_runes = Some p"
  then have "p \<in> set space_runes" "take (length p) s = p" by (auto simp: find_Some_iff)
  moreover have "[] \<notin> set space_runes" by (auto simp: space_runes_def)
  ultimately have "p \<noteq> []" "s \<noteq> []" by auto
  then show "(drop (length p) s, s) \<in> measure length" by simp
qed simp

declare SkipSpace.simps [simp del]

text \<open>
  \<open>strings.TrimSpace\<close> takes white space off both ends, the newline included. A rune is taken off the
  end as the bytes of its encoding, which is the last rune there whatever comes before.
\<close>

function strip :: "string list \<Rightarrow> string \<Rightarrow> string" where
  "strip ps s =
     (case List.find (\<lambda>p. p \<noteq> [] \<and> take (length p) s = p) ps of
        None \<Rightarrow> s
      | Some p \<Rightarrow> strip ps (drop (length p) s))"
  by pat_completeness auto

termination
proof (relation "measure (\<lambda>(ps, s). length s)")
  fix ps s p
  assume "List.find (\<lambda>p. p \<noteq> [] \<and> take (length p) s = p) ps = Some p"
  then have "p \<noteq> []" "take (length p) s = p" by (auto simp: find_Some_iff)
  then have "p \<noteq> []" "s \<noteq> []" by auto
  then show "((ps, drop (length p) s), (ps, s)) \<in> measure (\<lambda>(ps, s). length s)" by simp
qed simp

declare strip.simps [simp del]

definition TrimSpace :: "string \<Rightarrow> string" where
  "TrimSpace s =
     (let spaces = [CHR 0x0A] # space_runes
      in rev (strip (map rev spaces) (rev (strip spaces s))))"

definition Sscanf_d :: "string \<Rightarrow> int option" where
  "Sscanf_d s =
     (case SkipSpace s of
        None \<Rightarrow> None
      | Some r \<Rightarrow> (case cut_sign r of (neg, ds) \<Rightarrow> int_of_digits neg (takeWhile is_digit ds)))"

section \<open>\<open>time.ParseDuration\<close>\<close>

type_synonym uint64 = "64 word"

text \<open>The unit \<open>us\<close> is also written with a micro sign or a Greek mu.\<close>

definition unitMap :: "string \<Rightarrow> uint64 option" where
  "unitMap = map_of
     [(''ns'', 1), (''us'', 1000), ([CHR 0xc2, CHR 0xb5, CHR 0x73], 1000),
      ([CHR 0xce, CHR 0xbc, CHR 0x73], 1000), (''ms'', 1000000), (''s'', 1000000000),
      (''m'', 60000000000), (''h'', 3600000000000)]"

fun leadingInt :: "uint64 \<Rightarrow> string \<Rightarrow> (uint64 \<times> string) option" where
  "leadingInt x [] = Some (x, [])"
| "leadingInt x (c # cs) =
     (if \<not> is_digit c then Some (x, c # cs)
      else if 2 ^ 63 div 10 < x then None
      else let x' = x * 10 + word_of_int (digit_val c)
           in if 2 ^ 63 < x' then None else leadingInt x' cs)"

fun leadingFraction :: "uint64 \<Rightarrow> f64 \<Rightarrow> bool \<Rightarrow> string \<Rightarrow> uint64 \<times> f64 \<times> string" where
  "leadingFraction x scale overflow [] = (x, scale, [])"
| "leadingFraction x scale overflow (c # cs) =
     (if \<not> is_digit c then (x, scale, c # cs)
      else if overflow \<or> (2 ^ 63 - 1) div 10 < x then leadingFraction x scale True cs
      else let y = x * 10 + word_of_int (digit_val c)
           in if 2 ^ 63 < y then leadingFraction x scale True cs
              else leadingFraction y (f_mul scale (Num 10)) False cs)"

text \<open>\<open>uint64 (float64 f * (float64 unit / scale))\<close>: a value below the largest unit.\<close>

definition fraction_ns :: "uint64 \<Rightarrow> f64 \<Rightarrow> uint64 \<Rightarrow> uint64" where
  "fraction_ns f scale unit = word_of_int (f_trunc (f_mul (f_int (uint f)) (f_div (f_int (uint unit)) scale)))"

definition unit_char :: "char \<Rightarrow> bool" where
  "unit_char c \<longleftrightarrow> c \<noteq> CHR ''.'' \<and> \<not> is_digit c"

text \<open>One number with its unit, and what follows it.\<close>

definition component :: "string \<Rightarrow> (uint64 \<times> string) option" where
  "component s =
     (if \<not> (take 1 s = ''.'' \<or> list_ex is_digit (take 1 s)) then None
      else case leadingInt 0 s of
             None \<Rightarrow> None
           | Some (v, s1) \<Rightarrow>
               (let pre = (length s \<noteq> length s1);
                    (f, scale, s2) = (if take 1 s1 = ''.'' then leadingFraction 0 (Num 1) False (drop 1 s1)
                                      else (0, Num 1, s1));
                    post = (take 1 s1 = ''.'' \<and> length (drop 1 s1) \<noteq> length s2);
                    u = takeWhile unit_char s2; s3 = dropWhile unit_char s2
                in if \<not> pre \<and> \<not> post then None
                   else if u = [] then None
                   else case unitMap u of
                          None \<Rightarrow> None
                        | Some unit \<Rightarrow>
                            if 2 ^ 63 div unit < v then None
                            else if 0 < f
                            then (let w = v * unit + fraction_ns f scale unit
                                  in if 2 ^ 63 < w then None else Some (w, s3))
                            else Some (v * unit, s3)))"

lemma leadingInt_shorter: "leadingInt x s = Some (y, r) \<Longrightarrow> length r \<le> length s"
  by (induction x s rule: leadingInt.induct) (auto simp: Let_def split: if_splits)

lemma leadingFraction_shorter: "leadingFraction x sc ov s = (y, z, r) \<Longrightarrow> length r \<le> length s"
  by (induction x sc ov s rule: leadingFraction.induct) (auto simp: Let_def split: if_splits)

lemma component_shorter:
  assumes "component s = Some (v, r)"
  shows "length r < length s"
proof -
  from assms obtain x s1 where s1: "leadingInt 0 s = Some (x, s1)"
    by (auto simp: component_def split: if_splits option.splits)
  obtain f sc s2 where s2: "(if take 1 s1 = ''.'' then leadingFraction 0 (Num 1) False (drop 1 s1)
      else (0, Num 1, s1)) = (f, sc, s2)" by (metis prod_cases3)
  with leadingFraction_shorter [of 0 "Num 1" False "drop 1 s1" f sc s2]
  have "length s2 \<le> length s1" by (auto split: if_splits)
  moreover from assms s1 s2 have "takeWhile unit_char s2 \<noteq> []" "r = dropWhile unit_char s2"
    by (auto simp: component_def Let_def split: if_splits option.splits)
  then have "length r < length s2"
    by (cases s2) (auto intro: le_imp_less_Suc length_dropWhile_le split: if_splits)
  ultimately show ?thesis using leadingInt_shorter [OF s1] by simp
qed

function duration_loop :: "uint64 \<Rightarrow> string \<Rightarrow> uint64 option" where
  "duration_loop d s =
     (if s = [] then Some d
      else case component s of
             None \<Rightarrow> None
           | Some (v, r) \<Rightarrow> if 2 ^ 63 < d + v then None else duration_loop (d + v) r)"
  by pat_completeness auto

termination
  by (relation "measure (\<lambda>(d, s). length s)") (auto dest: component_shorter)

declare duration_loop.simps [simp del]

definition ParseDuration :: "string \<Rightarrow> int64 option" where
  "ParseDuration s =
     (case cut_sign s of (neg, r) \<Rightarrow>
        if r = ''0'' then Some 0
        else if r = [] then None
        else case duration_loop 0 r of
               None \<Rightarrow> None
             | Some d \<Rightarrow> if neg then Some (- d) else if 2 ^ 63 - 1 < d then None else Some d)"

section \<open>Reading what was printed\<close>

lemma is_digit_digit: "n < 10 \<Longrightarrow> is_digit (char_of (48 + n :: nat))"
proof -
  assume n: "n < 10"
  then have "(of_char (char_of (48 + n) :: char) :: nat) = 48 + n" by (intro of_char_of_small) simp
  then have "(of_char (char_of (48 + n) :: char) :: int) = int (48 + n)" by (metis of_nat_of_char)
  with n show ?thesis by (simp add: is_digit_def)
qed

lemma digit_val_digit: "n < 10 \<Longrightarrow> digit_val (char_of (48 + n :: nat)) = int n"
proof -
  assume n: "n < 10"
  then have "(of_char (char_of (48 + n) :: char) :: nat) = 48 + n" by (intro of_char_of_small) simp
  then have "(of_char (char_of (48 + n) :: char) :: int) = int (48 + n)" by (metis of_nat_of_char)
  then show ?thesis by (simp add: digit_val_def)
qed

lemma digit_val_range: "is_digit c \<Longrightarrow> 0 \<le> digit_val c \<and> digit_val c \<le> 9"
  by (simp add: is_digit_def digit_val_def)

lemma digit_not_sign: "is_digit c \<Longrightarrow> c \<noteq> CHR ''-'' \<and> c \<noteq> CHR ''+'' \<and> c \<noteq> CHR ''.''"
  by (auto simp: is_digit_def)

lemma dec_value_append: "dec_value x (ds @ es) = dec_value (dec_value x ds) es"
  by (induction ds arbitrary: x) simp_all

lemma dec_value_ge: "list_all is_digit ds \<Longrightarrow> 0 \<le> x \<Longrightarrow> x \<le> dec_value x ds"
proof (induction ds arbitrary: x)
  case (Cons c ds)
  then have "0 \<le> digit_val c" using digit_val_range [of c] by simp
  with Cons.prems have "x \<le> 10 * x + digit_val c" by linarith
  also have "\<dots> \<le> dec_value (10 * x + digit_val c) ds" using Cons \<open>0 \<le> digit_val c\<close> by simp
  finally show ?case by simp
qed simp

lemma dec_digits_spec: "dec_digits n \<noteq> [] \<and> list_all is_digit (dec_digits n) \<and> dec_value 0 (dec_digits n) = int n"
proof (induction n rule: dec_digits.induct)
  case (1 n)
  show ?case
  proof (cases "n < 10")
    case True
    then show ?thesis
      by (simp add: dec_digits.simps [of n] is_digit_digit digit_val_digit)
  next
    case False
    with 1 have IH: "list_all is_digit (dec_digits (n div 10))" "dec_value 0 (dec_digits (n div 10)) = int (n div 10)"
      by simp_all
    have "10 * int (n div 10) + int (n mod 10) = int n"
      by (metis mult_div_mod_eq of_nat_add of_nat_mult of_nat_numeral)
    with IH False show ?thesis
      by (simp add: dec_digits.simps [of n] is_digit_digit digit_val_digit dec_value_append)
  qed
qed

lemma cut_sign_digits: "ds \<noteq> [] \<Longrightarrow> list_all is_digit ds \<Longrightarrow> cut_sign (ds @ t) = (False, ds @ t)"
  using digit_not_sign by (cases ds) auto

lemma cut_sign_fmt_d: "cut_sign (fmt_d i @ t) = (i < 0, dec_digits (nat \<bar>i\<bar>) @ t)"
  using cut_sign_digits [of "dec_digits (nat i)" t] dec_digits_spec [of "nat i"] by (simp add: fmt_d_def)

lemma int_of_digits_printed: "int64_range i \<Longrightarrow> int_of_digits (i < 0) (dec_digits (nat \<bar>i\<bar>)) = Some i"
  using dec_digits_spec [of "nat \<bar>i\<bar>"] by (simp add: int_of_digits_def with_sign_def)

lemma int_of_digits_range: "int_of_digits neg ds = Some i \<Longrightarrow> int64_range i"
  by (auto simp: int_of_digits_def Let_def split: if_splits)

lemma Atoi_range: "Atoi s = Some i \<Longrightarrow> int64_range i"
  by (auto simp: Atoi_def dest: int_of_digits_range split: prod.splits)

lemma Sscanf_d_range: "Sscanf_d s = Some i \<Longrightarrow> int64_range i"
  by (auto simp: Sscanf_d_def dest: int_of_digits_range split: prod.splits option.splits)

lemma Atoi_fmt_d: "int64_range i \<Longrightarrow> Atoi (fmt_d i) = Some i"
  using cut_sign_fmt_d [of i "[]"] by (simp add: Atoi_def int_of_digits_printed)

text \<open>\<open>Sscanf\<close> stops at the first byte that is no digit.\<close>

lemma space_runes_hd:
  "list_all (\<lambda>p. p \<noteq> [] \<and> hd p \<noteq> CHR ''-'' \<and> \<not> is_digit (hd p)) space_runes"
  by (simp add: space_runes_def is_digit_def)

lemma SkipSpace_number:
  assumes "is_digit c \<or> c = CHR ''-''"
  shows "SkipSpace (c # cs) = Some (c # cs)"
proof -
  have "take (length p) (c # cs) \<noteq> p" if "p \<in> set space_runes" for p
    using space_runes_hd that assms by (cases p) (auto simp: list_all_iff)
  then have "List.find (\<lambda>p. take (length p) (c # cs) = p) space_runes = None"
    by (simp add: find_None_iff)
  moreover have "c \<noteq> CHR 0x0A" using assms by (auto simp: is_digit_def)
  ultimately show ?thesis by (subst SkipSpace.simps) simp
qed

lemma Sscanf_d_fmt_d:
  assumes "int64_range i" "t = [] \<or> \<not> is_digit (hd t)"
  shows "Sscanf_d (fmt_d i @ t) = Some i"
proof -
  obtain c cs where c: "fmt_d i @ t = c # cs" "is_digit c \<or> c = CHR ''-''"
    using dec_digits_spec [of "nat i"]
    by (cases "i < 0"; cases "dec_digits (nat i)") (auto simp: fmt_d_def)
  have "takeWhile is_digit t = []" using assms(2) by (cases t) auto
  then have "takeWhile is_digit (dec_digits (nat \<bar>i\<bar>) @ t) = dec_digits (nat \<bar>i\<bar>)"
    using dec_digits_spec [of "nat \<bar>i\<bar>"] by (simp add: takeWhile_append2 list_all_iff)
  then show ?thesis
    using SkipSpace_number [OF c(2), of cs] cut_sign_fmt_d [of i t] int_of_digits_printed [OF assms(1)]
    by (simp add: Sscanf_d_def flip: c(1))
qed

section \<open>Durations\<close>

text \<open>A duration written as whole numbers of units, e.g. \<open>1h30m\<close>, and its value.\<close>

definition duration_text :: "(nat \<times> string) list \<Rightarrow> string" where
  "duration_text cs = concat (map (\<lambda>(n, u). dec_digits n @ u) cs)"

definition duration_ns :: "(nat \<times> string) list \<Rightarrow> int" where
  "duration_ns cs = sum_list (map (\<lambda>(n, u). int n * uint (the (unitMap u))) cs)"

definition units_ok :: "(nat \<times> string) list \<Rightarrow> bool" where
  "units_ok cs \<longleftrightarrow> list_all (\<lambda>(n, u). unitMap u \<noteq> None) cs"

lemma uint_two63: "uint (2 ^ 63 :: uint64) = 2 ^ 63" "uint (2 ^ 63 div 10 :: uint64) = 2 ^ 63 div 10"
  by simp_all

lemma uint_word_of_int64: "0 \<le> i \<Longrightarrow> i \<le> 2 ^ 63 \<Longrightarrow> uint (word_of_int i :: uint64) = i"
  by (simp add: unsigned_of_int take_bit_int_eq_self)

lemma leadingInt_digits:
  assumes "list_all is_digit ds" "t = [] \<or> \<not> is_digit (hd t)" "0 \<le> x" "dec_value x ds \<le> 2 ^ 63"
  shows "leadingInt (word_of_int x) (ds @ t) = Some (word_of_int (dec_value x ds), t)"
  using assms
proof (induction ds arbitrary: x)
  case Nil
  then show ?case by (cases t) auto
next
  case (Cons c ds)
  from Cons.prems have c: "0 \<le> digit_val c" "is_digit c" using digit_val_range [of c] by auto
  have "10 * x + digit_val c \<le> 2 ^ 63"
    using dec_value_ge [of ds "10 * x + digit_val c"] Cons.prems c by simp
  then have "uint (word_of_int x :: uint64) = x"
      "uint (word_of_int (10 * x + digit_val c) :: uint64) = 10 * x + digit_val c"
    using c Cons.prems(3) by (intro uint_word_of_int64; simp)+
  with \<open>10 * x + digit_val c \<le> 2 ^ 63\<close> c have x: "\<not> 2 ^ 63 div 10 < (word_of_int x :: uint64)"
      "\<not> 2 ^ 63 < (word_of_int (10 * x + digit_val c) :: uint64)"
    by (simp_all only: word_less_def uint_two63)
  have "word_of_int x * 10 + word_of_int (digit_val c) = (word_of_int (10 * x + digit_val c) :: uint64)"
    by (simp add: wi_hom_syms mult.commute)
  then have "leadingInt (word_of_int x) ((c # ds) @ t) = leadingInt (word_of_int (10 * x + digit_val c)) (ds @ t)"
    using x c by (simp only: append_Cons leadingInt.simps Let_def if_False not_True_eq_False)
  also have "\<dots> = Some (word_of_int (dec_value x (c # ds)), t)"
    using Cons.IH [of "10 * x + digit_val c"] Cons.prems c by (simp only: dec_value.simps list.pred_inject)
  finally show ?case .
qed

lemma unitMap_key:
  assumes "unitMap u = Some w"
  shows "u \<noteq> [] \<and> list_all unit_char u \<and> 0 < uint w"
proof -
  have "list_all (\<lambda>(u, w). u \<noteq> [] \<and> list_all unit_char u \<and> 0 < uint w)
     [(''ns'', 1 :: uint64), (''us'', 1000), ([CHR 0xc2, CHR 0xb5, CHR 0x73], 1000),
      ([CHR 0xce, CHR 0xbc, CHR 0x73], 1000), (''ms'', 1000000), (''s'', 1000000000),
      (''m'', 60000000000), (''h'', 3600000000000)]"
    by (simp add: unit_char_def is_digit_def)
  with map_of_SomeD [OF assms [unfolded unitMap_def]] show ?thesis by (auto simp only: list_all_iff)
qed

lemma component_whole:
  assumes "unitMap u = Some w" "int n * uint w \<le> 2 ^ 63" "t = [] \<or> is_digit (hd t)"
  shows "component (dec_digits n @ u @ t) = Some (word_of_int (int n * uint w), t)"
proof -
  let ?s = "dec_digits n @ u @ t"
  note u = unitMap_key [OF assms(1)] and n = dec_digits_spec [of n]
  have "int n * 1 \<le> int n * uint w" using u by (intro mult_left_mono) auto
  then have n63: "int n \<le> 2 ^ 63" using assms(2) by simp
  have ut: "u @ t \<noteq> []" "\<not> is_digit (hd (u @ t))" "hd (u @ t) \<noteq> CHR ''.''"
    using u by (cases u; auto simp: unit_char_def)+
  have lead: "leadingInt 0 ?s = Some (word_of_int (int n), u @ t)"
    using leadingInt_digits [of "dec_digits n" "u @ t" 0] n n63 ut by simp
  define r where "r = u @ t"
  define s where "s = dec_digits n @ r"
  have "takeWhile unit_char r = u \<and> dropWhile unit_char r = t"
    using u assms(3) by (cases t) (auto simp: list_all_iff unit_char_def r_def)
  moreover have "take 1 r \<noteq> ''.''" using ut(1,3) unfolding r_def by (cases "u @ t") simp_all
  moreover have "list_ex is_digit (take 1 s)" using n by (cases "dec_digits n") (simp_all add: s_def)
  moreover have "length s \<noteq> length r" using n by (simp add: s_def r_def)
  moreover have "\<not> 2 ^ 63 div w < word_of_int (int n)"
  proof -
    have "int n \<le> 2 ^ 63 div uint w"
      using zdiv_mono1 [OF assms(2), of "uint w"] u by simp
    moreover have "uint (word_of_int (int n) :: uint64) = int n" using n63 by (intro uint_word_of_int64) simp_all
    ultimately show ?thesis by (simp only: word_less_def uint_div uint_two63 not_less)
  qed
  moreover have "word_of_int (int n) * w = word_of_int (int n * uint w)"
    by (simp add: wi_hom_syms)
  ultimately have "component s = Some (word_of_int (int n * uint w), t)"
    using lead [folded r_def, folded s_def] u assms(1) by (simp add: component_def Let_def)
  then show ?thesis by (simp add: s_def r_def)
qed

text \<open>What the loop adds up, as long as the sum fits.\<close>

lemma duration_text_simps [simp]:
  "duration_text [] = []" "duration_text ((n, u) # cs) = dec_digits n @ u @ duration_text cs"
  "duration_ns [] = 0" "duration_ns ((n, u) # cs) = int n * uint (the (unitMap u)) + duration_ns cs"
  by (simp_all add: duration_text_def duration_ns_def)

lemma duration_text_hd: "duration_text cs = [] \<or> is_digit (hd (duration_text cs))"
proof (cases cs)
  case (Cons c cs')
  obtain n u where "c = (n, u)" by fastforce
  with Cons dec_digits_spec [of n] show ?thesis by (cases "dec_digits n") auto
qed simp

lemma duration_ns_nonneg: "units_ok cs \<Longrightarrow> 0 \<le> duration_ns cs"
  by (induction cs) (auto simp: units_ok_def)

lemma duration_loop_text:
  assumes "units_ok cs" "0 \<le> d" "d + duration_ns cs \<le> 2 ^ 63"
  shows "duration_loop (word_of_int d) (duration_text cs) = Some (word_of_int (d + duration_ns cs))"
  using assms
proof (induction cs arbitrary: d)
  case Nil
  then show ?case by (simp add: duration_loop.simps)
next
  case (Cons c cs)
  obtain n u where c: "c = (n, u)" by fastforce
  with Cons.prems obtain w where w: "unitMap u = Some w" "units_ok cs" by (auto simp: units_ok_def)
  let ?v = "int n * uint w"
  have v: "0 \<le> ?v" "d + ?v \<le> 2 ^ 63" "d + ?v + duration_ns cs \<le> 2 ^ 63" "?v \<le> 2 ^ 63"
    using Cons.prems duration_ns_nonneg [OF w(2)] c w by auto
  have "dec_digits n @ u @ duration_text cs \<noteq> []" using dec_digits_spec [of n] by simp
  moreover have "\<not> 2 ^ 63 < (word_of_int (d + ?v) :: uint64)"
    using v(1,2) Cons.prems(2) uint_word_of_int64 [of "d + ?v"]
    by (simp only: word_less_def uint_two63 not_less)
  moreover have "word_of_int d + word_of_int ?v = (word_of_int (d + ?v) :: uint64)" by (simp add: wi_hom_syms)
  ultimately have "duration_loop (word_of_int d) (duration_text (c # cs)) =
      duration_loop (word_of_int (d + ?v)) (duration_text cs)"
    by (subst duration_loop.simps)
      (simp only: c duration_text_simps component_whole [OF w(1) v(4) duration_text_hd] option.case prod.case if_False)
  also have "\<dots> = Some (word_of_int (d + ?v + duration_ns cs))"
    using Cons.IH [OF w(2) _ v(3)] v(1) Cons.prems(2) by simp
  finally show ?case using c w by (simp add: add.assoc)
qed

lemma ParseDuration_text:
  assumes "cs \<noteq> []" "units_ok cs" "duration_ns cs \<le> (if neg then 2 ^ 63 else 2 ^ 63 - 1)"
  shows "ParseDuration ((if neg then ''-'' else []) @ duration_text cs) = Some (word_of_int (with_sign neg (duration_ns cs)))"
proof -
  obtain n u cs' where cs: "cs = (n, u) # cs'" using assms(1) by (cases cs) auto
  obtain w where "unitMap u = Some w" using assms(2) cs by (auto simp: units_ok_def)
  note u = unitMap_key [OF this] and n = dec_digits_spec [of n]
  have nonempty: "duration_text cs \<noteq> []" using cs n by simp
  have not_0: "duration_text cs \<noteq> ''0''"
  proof
    assume "duration_text cs = ''0''"
    then have "list_all is_digit (duration_text cs)" by (simp add: is_digit_def)
    with cs u show False by (cases u) (auto simp: unit_char_def)
  qed
  have sign: "cut_sign ((if neg then ''-'' else []) @ duration_text cs) = (neg, duration_text cs)"
    using cut_sign_digits [of "dec_digits n" "u @ duration_text cs'"] n cs by simp
  have "duration_loop 0 (duration_text cs) = Some (word_of_int (duration_ns cs))"
    using duration_loop_text [OF assms(2), of 0] assms(3) by (cases neg) simp_all
  moreover have "\<not> 2 ^ 63 - 1 < (word_of_int (duration_ns cs) :: uint64)" if "\<not> neg"
  proof -
    have "uint (word_of_int (duration_ns cs) :: uint64) = duration_ns cs"
      using assms(3) that duration_ns_nonneg [OF assms(2)] by (intro uint_word_of_int64) simp_all
    then show ?thesis using assms(3) that by (simp add: word_less_def)
  qed
  ultimately show ?thesis
    using sign nonempty not_0 by (simp add: ParseDuration_def with_sign_def)
qed

end
