(* ===== verification/HttpApi.thy ===== *)
theory HttpApi
  imports App GoText
begin

text \<open>
  \<open>internal/auth\<close>, \<open>internal/infra/http\<close> and the retailer store of \<open>internal/infra/memory\<close>: who
  may call what. A handler gets the request and returns the response and the new state. JSON
  decoding, \<open>uuid.Parse\<close>, \<open>time.Parse(RFC3339)\<close> and SHA-256 are the record \<open>http_env\<close>; the router
  of \<open>go-chi\<close> is the function \<open>route\<close> of method and path segments. An answer is a status with
  its body as data, for an error the code and the message. Request identifiers, the request log and
  the panic handler are in the theory \<open>Middleware\<close>; the timeouts are not modelled.
\<close>

section \<open>API keys\<close>

definition HashAPIKey :: "(string \<Rightarrow> string) \<Rightarrow> string \<Rightarrow> string" where
  "HashAPIKey sha256 raw = hex_EncodeToString (sha256 (TrimSpace raw))"

text \<open>\<open>http.Header.Get\<close> of a canonical name: the first value, or the empty string.\<close>

definition Header_Get :: "headers \<Rightarrow> string \<Rightarrow> string" where
  "Header_Get h k = (case map_of h k of None \<Rightarrow> [] | Some v \<Rightarrow> v)"

definition apiKeyFromRequest :: "headers \<Rightarrow> string" where
  "apiKeyFromRequest h =
     (let a = Header_Get h ''Authorization''
      in if a \<noteq> [] \<and> take 7 a = ''Bearer '' then TrimSpace (drop 7 a)
         else TrimSpace (Header_Get h ''X-API-Key''))"

section \<open>Retailers in memory\<close>

definition DevAPIKey :: string where
  "DevAPIKey = ''df_dev_pilot_2026''"

definition DevRetailerID :: uuid where
  "DevRetailerID = 1"

definition NewRetailerRepo :: "(string \<Rightarrow> string) \<Rightarrow> string \<rightharpoonup> retailer" where
  "NewRetailerRepo sha256 =
     [HashAPIKey sha256 DevAPIKey \<mapsto>
        \<lparr>re_ID = DevRetailerID, re_Name = ''Dev Pilot Retailer'', re_Slug = ''dev-pilot'', re_IsActive = True\<rparr>]"

text \<open>No method writes to the map, so it is not part of the storage state.\<close>

definition memRetailer_GetByAPIKeyHash :: "(string \<rightharpoonup> retailer) \<Rightarrow> string \<Rightarrow> 's \<Rightarrow> goerror + retailer" where
  "memRetailer_GetByAPIKeyHash byKeyHash hash s =
     (case byKeyHash hash of None \<Rightarrow> Inl ErrNotFound | Some r \<Rightarrow> Inr r)"

definition mem_retailer_repo :: "(string \<Rightarrow> string) \<Rightarrow> 's retailer_repo" where
  "mem_retailer_repo sha256 = \<lparr>rt_GetByAPIKeyHash = memRetailer_GetByAPIKeyHash (NewRetailerRepo sha256)\<rparr>"

section \<open>Requests and responses\<close>

record create_booking_request =
  cb_ExternalAWB :: string
  cb_ExternalCarrier :: string
  cb_CustomerPhone :: string
  cb_CustomerName :: string
  cb_PickupLockerID :: string
  cb_PickupLat :: f64
  cb_PickupLng :: f64
  cb_PickupAddress :: string
  cb_DropLat :: f64
  cb_DropLng :: f64
  cb_DropAddress :: string
  cb_DropFloor :: string
  cb_DropApartment :: string
  cb_DropInstructions :: string
  cb_WeightKg :: f64
  cb_SlotStart :: string
  cb_SlotEnd :: string
  cb_LastMileCarrier :: string

record record_custody_request =
  rq_Type :: string
  rq_ActorType :: string
  rq_ActorCarrierID :: string
  rq_ActorID :: string
  rq_ActorName :: string
  rq_Location :: "(f64 \<times> f64 \<times> f64) option"
  rq_Photos :: "(string \<times> string) list"
  rq_Reason :: string

record request =
  hr_Method :: string
  hr_Path :: "string list"
  hr_Headers :: headers
  hr_Body :: string

record http_env =
  he_sha256 :: "string \<Rightarrow> string"
  he_DecodeBooking :: "string \<Rightarrow> goerror + create_booking_request"
  he_DecodeCustody :: "string \<Rightarrow> goerror + record_custody_request"
  he_UuidParse :: "string \<Rightarrow> goerror + uuid"
  he_ParseRFC3339 :: "string \<Rightarrow> goerror + gotime"

text \<open>
  \<open>RErr status code message\<close> is \<open>response.Error\<close>, \<open>RNotReady\<close> the failed readiness check; the router
  itself answers \<open>RNoRoute\<close> and \<open>RBadMethod\<close>, without JSON.
\<close>

datatype http_response_body =
    RErr int string string
  | RNotReady string
  | RNoRoute
  | RBadMethod
  | RBooking booking_result
  | RBookingView delivery awb "event list"
  | RDispatched
  | RCustody uuid int64 string gotime
  | RNoContent
  | RStatus int string

text \<open>What the handlers need of the program: the wired services, the retailers and the pool.\<close>

record ('s, 'w) api =
  api_App :: "('s, 'w) app"
  api_Retailers :: "'s retailer_repo"
  api_Pool :: "('s \<Rightarrow> goerror option) option"
  api_env :: http_env

record api_call =
  ac_book :: booking_env
  ac_record :: record_env
  ac_dispatch :: dispatch_env
  ac_webhook :: "nat \<Rightarrow> webhook_env"

section \<open>Middleware\<close>

definition RequireRetailer :: "('s, 'w) api \<Rightarrow> headers \<Rightarrow> 's \<Rightarrow> http_response_body + retailer" where
  "RequireRetailer api h s =
     (let key = apiKeyFromRequest h
      in if key = [] then Inl (RErr 401 ''missing_api_key''
                        (''provide an API key via '' @ [CHR 0x27] @ ''Authorization: Bearer <key>'' @ [CHR 0x27]))
         else case rt_GetByAPIKeyHash (api_Retailers api) (HashAPIKey (he_sha256 (api_env api)) key) s of
                Inl err \<Rightarrow>
                  if errors_Is err ErrNotFound then Inl (RErr 401 ''invalid_api_key'' ''unknown API key'')
                  else Inl (RErr 500 ''auth_error'' ''could not verify API key'')
              | Inr ret \<Rightarrow>
                  if \<not> re_IsActive ret then Inl (RErr 403 ''retailer_inactive'' ''retailer is deactivated'') else Inr ret)"

text \<open>\<open>strings.Cut(s, ":")\<close>.\<close>

fun cut_colon :: "string \<Rightarrow> string \<times> string \<times> bool" where
  "cut_colon [] = ([], [], False)"
| "cut_colon (c # s) =
     (if c = CHR '':'' then ([], s, True)
      else case cut_colon s of (a, b, ok) \<Rightarrow> (c # a, b, ok))"

definition RequireRider :: "('s, 'w) api \<Rightarrow> headers \<Rightarrow> http_response_body + string" where
  "RequireRider api h =
     (let raw = apiKeyFromRequest h
      in if raw = [] then Inl (RErr 401 ''missing_rider_token''
                        (''provide a rider token via '' @ [CHR 0x27] @ ''Authorization: Bearer {carrier_id}:{secret}'' @ [CHR 0x27]))
         else case cut_colon raw of (carrierID, secret, ok) \<Rightarrow>
           if \<not> ok \<or> carrierID = [] \<or> secret = []
           then Inl (RErr 401 ''invalid_rider_token'' ''token must be in the form {carrier_id}:{secret}'')
           else case app_RiderSecrets (api_App api) carrierID of
                  None \<Rightarrow> Inl (RErr 401 ''invalid_rider_token'' ''unknown carrier or wrong secret'')
                | Some expected \<Rightarrow>
                    if secret \<noteq> expected then Inl (RErr 401 ''invalid_rider_token'' ''unknown carrier or wrong secret'')
                    else Inr carrierID)"

section \<open>Handlers\<close>

definition booking_input_of :: "retailer \<Rightarrow> create_booking_request \<Rightarrow> gotime \<Rightarrow> gotime \<Rightarrow> booking_input" where
  "booking_input_of ret b slotStart slotEnd =
     \<lparr>in_RetailerID = re_ID ret, in_ExternalAWB = cb_ExternalAWB b, in_ExternalCarrier = cb_ExternalCarrier b,
      in_CustomerPhone = cb_CustomerPhone b, in_CustomerName = cb_CustomerName b,
      in_PickupLockerID = cb_PickupLockerID b, in_PickupLat = cb_PickupLat b, in_PickupLng = cb_PickupLng b,
      in_PickupAddress = cb_PickupAddress b, in_DropLat = cb_DropLat b, in_DropLng = cb_DropLng b,
      in_DropAddress = cb_DropAddress b, in_DropFloor = cb_DropFloor b, in_DropApartment = cb_DropApartment b,
      in_DropInstructions = cb_DropInstructions b, in_WeightKg = cb_WeightKg b,
      in_SlotStart = slotStart, in_SlotEnd = slotEnd, in_LastMileCarrier = cb_LastMileCarrier b\<rparr>"

definition Bookings_Create ::
  "('s, 'w) api \<Rightarrow> api_call \<Rightarrow> retailer \<Rightarrow> request \<Rightarrow> 's \<times> 'w \<Rightarrow> http_response_body \<times> 's \<times> 'w" where
  "Bookings_Create api c ret r mw =
     (case he_DecodeBooking (api_env api) (hr_Body r) of
        Inl err \<Rightarrow> (RErr 400 ''invalid_json'' (error_text err), mw)
      | Inr body \<Rightarrow>
          (case he_ParseRFC3339 (api_env api) (cb_SlotStart body) of
             Inl _ \<Rightarrow> (RErr 400 ''invalid_slot_start'' ''use RFC3339'', mw)
           | Inr slotStart \<Rightarrow>
               (case he_ParseRFC3339 (api_env api) (cb_SlotEnd body) of
                  Inl _ \<Rightarrow> (RErr 400 ''invalid_slot_end'' ''use RFC3339'', mw)
                | Inr slotEnd \<Rightarrow>
                    (case CreateBooking (app_Booking (api_App api)) (ac_book c)
                            (booking_input_of ret body slotStart slotEnd) (fst mw) of
                       (Inl err, m') \<Rightarrow> (RErr 422 ''booking_failed'' (error_text err), m', snd mw)
                     | (Inr out, m') \<Rightarrow> (RBooking out, m', snd mw)))))"

definition Bookings_Get ::
  "('s, 'w) api \<Rightarrow> retailer \<Rightarrow> string \<Rightarrow> 's \<times> 'w \<Rightarrow> http_response_body \<times> 's \<times> 'w" where
  "Bookings_Get api ret param mw =
     (case he_UuidParse (api_env api) param of
        Inl _ \<Rightarrow> (RErr 400 ''invalid_id'' ''deliveryID must be UUID'', mw)
      | Inr i \<Rightarrow>
          (case GetBooking (app_Booking (api_App api)) i (fst mw) of
             Inl err \<Rightarrow> (RErr 404 ''not_found'' (error_text err), mw)
           | Inr (d, a) \<Rightarrow>
               if a_RetailerID a \<noteq> re_ID ret then (RErr 404 ''not_found'' ''booking not found'', mw)
               else let events = (case custody_ListEvents (app_Custody (api_App api)) i (fst mw) of
                                    Inl _ \<Rightarrow> [] | Inr es \<Rightarrow> es)
                    in (RBookingView d a events, mw)))"

definition Bookings_Dispatch ::
  "('s, 'w) api \<Rightarrow> api_call \<Rightarrow> retailer \<Rightarrow> string \<Rightarrow> 's \<times> 'w \<Rightarrow> http_response_body \<times> 's \<times> 'w" where
  "Bookings_Dispatch api c ret param mw =
     (case he_UuidParse (api_env api) param of
        Inl _ \<Rightarrow> (RErr 400 ''invalid_id'' ''deliveryID must be UUID'', mw)
      | Inr i \<Rightarrow>
          (case GetBooking (app_Booking (api_App api)) i (fst mw) of
             Inl err \<Rightarrow> (RErr 404 ''not_found'' (error_text err), mw)
           | Inr (_, a) \<Rightarrow>
               if a_RetailerID a \<noteq> re_ID ret then (RErr 404 ''not_found'' ''booking not found'', mw)
               else case DispatchDelivery (app_Dispatch (api_App api)) (ac_dispatch c) i mw of
                      (Some err, mw') \<Rightarrow> (RErr 422 ''dispatch_failed'' (error_text err), mw')
                    | (None, mw') \<Rightarrow> (RDispatched, mw')))"

text \<open>The handler does not look at the carrier the middleware authenticated.\<close>

definition record_input_of :: "uuid \<Rightarrow> record_custody_request \<Rightarrow> record_input" where
  "record_input_of i b =
     \<lparr>ri_DeliveryID = i, ri_Type = EventType_of (rq_Type b),
      ri_Actor = \<lparr>ac_Type = rq_ActorType b, ac_CarrierID = rq_ActorCarrierID b, ac_ID = rq_ActorID b,
                  ac_Name = rq_ActorName b\<rparr>,
      ri_Location = (case rq_Location b of None \<Rightarrow> None
        | Some (lat, lng, acc) \<Rightarrow> Some \<lparr>cg_Lat = lat, cg_Lng = lng, cg_AccuracyM = acc,
                                       cg_Altitude = Num 0, cg_Heading = Num 0\<rparr>),
      ri_Photos = map (\<lambda>(uri, sha). \<lparr>ph_S3URI = uri, ph_SHA256 = sha, ph_ContentType = ''image/jpeg'',
                                     ph_Width = 0, ph_Height = 0, ph_ExifGPS = None\<rparr>) (rq_Photos b),
      ri_Reason = rq_Reason b\<rparr>"

definition Custody_Record ::
  "('s, 'w) api \<Rightarrow> api_call \<Rightarrow> string \<Rightarrow> string \<Rightarrow> request \<Rightarrow> 's \<times> 'w \<Rightarrow> http_response_body \<times> 's \<times> 'w" where
  "Custody_Record api c authCarrier param r mw =
     (case he_UuidParse (api_env api) param of
        Inl _ \<Rightarrow> (RErr 400 ''invalid_id'' ''deliveryID must be UUID'', mw)
      | Inr i \<Rightarrow>
          (case he_DecodeCustody (api_env api) (hr_Body r) of
             Inl err \<Rightarrow> (RErr 400 ''invalid_json'' (error_text err), mw)
           | Inr body \<Rightarrow>
               (case custody_Record (app_Custody (api_App api)) (ac_record c) (record_input_of i body) (fst mw) of
                  ((_, Some err), m') \<Rightarrow> (RErr 422 ''custody_failed'' (error_text err), m', snd mw)
                | ((Some ev, None), m') \<Rightarrow>
                    (RCustody (e_EventID ev) (e_SequenceNum ev) (e_Hash ev) (e_OccurredAt ev), m', snd mw)
                | ((None, None), m') \<Rightarrow>
                    (RCustody uuid_Nil 0 [] time_zero, m', snd mw))))"

text \<open>\<open>MaxBytesReader\<close> refuses a body of more than one MiB.\<close>

definition Webhooks_ingest ::
  "('s, 'w) api \<Rightarrow> api_call \<Rightarrow> request \<Rightarrow> carrier_id \<Rightarrow> 's \<times> 'w \<Rightarrow> http_response_body \<times> 's \<times> 'w" where
  "Webhooks_ingest api c r carrierID mw =
     (if length (hr_Body r) > 2 ^ 20
      then (RErr 400 ''read_body'' ''http: request body too large'', mw)
      else case webhook_Process (app_Webhook (api_App api)) (ac_webhook c) carrierID (hr_Body r)
                  (hr_Headers r) (fst mw) of
             (Some err, m') \<Rightarrow> (RErr 422 ''webhook_failed'' (error_text err), m', snd mw)
           | (None, m') \<Rightarrow> (RNoContent, m', snd mw))"

definition Health_Liveness :: http_response_body where
  "Health_Liveness = RStatus 200 ''ok''"

definition Health_Readiness :: "('s, 'w) api \<Rightarrow> 's \<Rightarrow> http_response_body" where
  "Health_Readiness api s =
     (case PingDB (api_Pool api) s of
        Some err \<Rightarrow> RNotReady (error_text err)
      | None \<Rightarrow> RStatus 200 ''ready'')"

section \<open>Routes\<close>

definition with_retailer ::
  "('s, 'w) api \<Rightarrow> request \<Rightarrow> 's \<times> 'w \<Rightarrow> (retailer \<Rightarrow> http_response_body \<times> 's \<times> 'w) \<Rightarrow> http_response_body \<times> 's \<times> 'w" where
  "with_retailer api r mw next =
     (case RequireRetailer api (hr_Headers r) (fst mw) of Inl e \<Rightarrow> (e, mw) | Inr ret \<Rightarrow> next ret)"

definition with_rider_auth ::
  "('s, 'w) api \<Rightarrow> request \<Rightarrow> 's \<times> 'w \<Rightarrow> (string \<Rightarrow> http_response_body \<times> 's \<times> 'w) \<Rightarrow> http_response_body \<times> 's \<times> 'w" where
  "with_rider_auth api r mw next =
     (case RequireRider api (hr_Headers r) of Inl e \<Rightarrow> (e, mw) | Inr cid \<Rightarrow> next cid)"

text \<open>
  The endpoints of the router, and the one a method and the segments of a path lead to. Where
  there is none, \<open>chi\<close> answers 405 if the path has an endpoint under another method and 404
  otherwise; neither goes through the credentials check.
\<close>

datatype endpoint =
    Liveness
  | Readiness
  | PostBooking
  | GetBookingById string
  | PostDispatch string
  | PostCustody string
  | PostBolt

definition route :: "string \<Rightarrow> string list \<Rightarrow> endpoint option" where
  "route m path =
     (if m = ''GET'' \<and> path = [''healthz''] then Some Liveness
      else if m = ''GET'' \<and> path = [''readyz''] then Some Readiness
      else if m = ''POST'' \<and> path = [''v1'', ''bookings''] then Some PostBooking
      else if m = ''POST'' \<and> path = [''webhooks'', ''bolt''] then Some PostBolt
      else case path of
        [a, b, x] \<Rightarrow>
          if m = ''GET'' \<and> a = ''v1'' \<and> b = ''bookings'' then Some (GetBookingById x) else None
      | [a, b, x, y] \<Rightarrow>
          if m = ''POST'' \<and> a = ''v1'' \<and> b = ''bookings'' \<and> y = ''dispatch'' then Some (PostDispatch x)
          else if m = ''POST'' \<and> a = ''v1'' \<and> b = ''deliveries'' \<and> y = ''custody'' then Some (PostCustody x)
          else None
      | _ \<Rightarrow> None)"

definition NewServer ::
  "('s, 'w) api \<Rightarrow> api_call \<Rightarrow> request \<Rightarrow> 's \<times> 'w \<Rightarrow> http_response_body \<times> 's \<times> 'w" where
  "NewServer api c r mw =
     (case route (hr_Method r) (hr_Path r) of
        None \<Rightarrow>
          (if route ''GET'' (hr_Path r) = None \<and> route ''POST'' (hr_Path r) = None
           then (RNoRoute, mw) else (RBadMethod, mw))
      | Some Liveness \<Rightarrow> (Health_Liveness, mw)
      | Some Readiness \<Rightarrow> (Health_Readiness api (fst mw), mw)
      | Some PostBooking \<Rightarrow> with_retailer api r mw (\<lambda>ret. Bookings_Create api c ret r mw)
      | Some (GetBookingById x) \<Rightarrow> with_retailer api r mw (\<lambda>ret. Bookings_Get api ret x mw)
      | Some (PostDispatch x) \<Rightarrow> with_retailer api r mw (\<lambda>ret. Bookings_Dispatch api c ret x mw)
      | Some (PostCustody x) \<Rightarrow> with_rider_auth api r mw (\<lambda>cid. Custody_Record api c cid x r mw)
      | Some PostBolt \<Rightarrow> Webhooks_ingest api c r ''bolt_food'' mw)"

section \<open>Facts\<close>

lemma cut_colon_spec:
  "cut_colon s = (a, b, True) \<longleftrightarrow> s = a @ '':'' @ b \<and> CHR '':'' \<notin> set a"
proof (induction s arbitrary: a)
  case (Cons c s)
  show ?case
  proof (cases "c = CHR '':''")
    case True
    then show ?thesis by (cases a) auto
  next
    case False
    obtain x y ok where xy: "cut_colon s = (x, y, ok)" by (metis prod_cases3)
    have "cut_colon (c # s) = (a, b, True) \<longleftrightarrow> (\<exists>a'. a = c # a' \<and> cut_colon s = (a', b, True))"
      using False xy by auto
    also have "\<dots> \<longleftrightarrow> (\<exists>a'. a = c # a' \<and> s = a' @ '':'' @ b \<and> CHR '':'' \<notin> set a')"
      by (simp only: Cons.IH)
    also have "\<dots> \<longleftrightarrow> c # s = a @ '':'' @ b \<and> CHR '':'' \<notin> set a"
      using False by (cases a) auto
    finally show ?thesis .
  qed
qed simp

lemma RequireRetailer_ok:
  "RequireRetailer api h s = Inr ret \<longleftrightarrow>
     apiKeyFromRequest h \<noteq> [] \<and> re_IsActive ret \<and>
     rt_GetByAPIKeyHash (api_Retailers api) (HashAPIKey (he_sha256 (api_env api)) (apiKeyFromRequest h)) s = Inr ret"
  by (auto simp: RequireRetailer_def Let_def split: sum.splits if_splits)

lemma RequireRider_ok:
  "RequireRider api h = Inr cid \<longleftrightarrow>
     (\<exists>secret. cut_colon (apiKeyFromRequest h) = (cid, secret, True) \<and> cid \<noteq> [] \<and> secret \<noteq> [] \<and>
        app_RiderSecrets (api_App api) cid = Some secret)"
proof -
  obtain a b ok where cut: "cut_colon (apiKeyFromRequest h) = (a, b, ok)" by (metis prod_cases3)
  consider "apiKeyFromRequest h = []" | "apiKeyFromRequest h \<noteq> []" "\<not> ok \<or> a = [] \<or> b = []"
    | "apiKeyFromRequest h \<noteq> []" "ok" "a \<noteq> []" "b \<noteq> []" by blast
  then show ?thesis
  proof cases
    case 1
    then show ?thesis by (simp add: RequireRider_def)
  next
    case 2
    then have "RequireRider api h = Inl (RErr 401 ''invalid_rider_token'' ''token must be in the form {carrier_id}:{secret}'')"
      using cut by (simp add: RequireRider_def Let_def)
    then show ?thesis using 2 cut by auto
  next
    case 3
    then show ?thesis
      using cut by (cases "app_RiderSecrets (api_App api) a") (auto simp: RequireRider_def Let_def)
  qed
qed

lemma GetBooking_mem:
  assumes "bk_AWBs deps = mem_awb_repo" "bk_Deliveries deps = mem_delivery_repo ord"
  shows "GetBooking deps i m =
    (case m_delByID m i of
       None \<Rightarrow> Inl ErrNotFound
     | Some d \<Rightarrow> (case m_awbByID m (d_AWBID d) of None \<Rightarrow> Inl ErrNotFound | Some a \<Rightarrow> Inr (d, a)))"
  using assms
  by (simp add: GetBooking_def mem_delivery_repo_def mem_awb_repo_def memDel_GetByID_def memAWB_GetByID_def
      split: option.split)

section \<open>Properties\<close>

text \<open>The retailer who owns the booking of a delivery.\<close>

definition owner_of :: "mem \<Rightarrow> uuid \<Rightarrow> uuid option" where
  "owner_of m i =
     (case m_delByID m i of
        None \<Rightarrow> None
      | Some d \<Rightarrow> (case m_awbByID m (d_AWBID d) of None \<Rightarrow> None | Some a \<Rightarrow> Some (a_RetailerID a)))"

text \<open>
  C35: On the in-memory repositories, a retailer asking for, or dispatching, a delivery that is
  not one of theirs gets a 404 not_found and changes nothing; but the message says whether the
  delivery exists: it names the booking if it is another retailer's and is the error of the
  lookup if there is none.
\<close>

theorem booking_only_for_owner:
  assumes "bk_AWBs (app_Booking (api_App api)) = mem_awb_repo"
    and "bk_Deliveries (app_Booking (api_App api)) = mem_delivery_repo ord"
    and "he_UuidParse (api_env api) x = Inr i" "owner_of (fst mw) i \<noteq> Some (re_ID ret)"
    and "msg = (if owner_of (fst mw) i = None then ''not found'' else ''booking not found'')"
  shows "Bookings_Get api ret x mw = (RErr 404 ''not_found'' msg, mw) \<and>
         Bookings_Dispatch api c ret x mw = (RErr 404 ''not_found'' msg, mw)"
proof (cases "m_delByID (fst mw) i")
  case None
  then show ?thesis
    using assms(3,5)
    by (simp add: Bookings_Get_def Bookings_Dispatch_def GetBooking_mem [OF assms(1,2)] owner_of_def ErrNotFound_def)
next
  case (Some d)
  then show ?thesis
    using assms(3-5)
    by (cases "m_awbByID (fst mw) (d_AWBID d)")
      (simp_all add: Bookings_Get_def Bookings_Dispatch_def GetBooking_mem [OF assms(1,2)] owner_of_def ErrNotFound_def)
qed

text \<open>What a caller must show before a request may change anything.\<close>

definition retailer_key :: "('s, 'w) api \<Rightarrow> 's \<Rightarrow> headers \<Rightarrow> bool" where
  "retailer_key api s h \<longleftrightarrow>
     (\<exists>ret. apiKeyFromRequest h \<noteq> [] \<and> re_IsActive ret \<and>
        rt_GetByAPIKeyHash (api_Retailers api) (HashAPIKey (he_sha256 (api_env api)) (apiKeyFromRequest h)) s = Inr ret)"

definition bolt_signed :: "'w runtime \<Rightarrow> bolt_config \<Rightarrow> string \<Rightarrow> headers \<Rightarrow> bool" where
  "bolt_signed rt cfg raw h \<longleftrightarrow>
     bf_WebhookSecret cfg \<noteq> [] \<and>
     headerLookup h ''X-Bolt-Signature'' \<in>
       {hex_EncodeToString (env_HMAC (rt_bolt rt) (bf_WebhookSecret cfg) raw),
        ''sha256='' @ hex_EncodeToString (env_HMAC (rt_bolt rt) (bf_WebhookSecret cfg) raw)}"

lemma route_at:
  assumes "route m path = Some e"
  shows "case e of
      Liveness \<Rightarrow> m = ''GET'' \<and> path = [''healthz'']
    | Readiness \<Rightarrow> m = ''GET'' \<and> path = [''readyz'']
    | PostBooking \<Rightarrow> m = ''POST'' \<and> path = [''v1'', ''bookings'']
    | GetBookingById x \<Rightarrow> m = ''GET'' \<and> path = [''v1'', ''bookings'', x]
    | PostDispatch x \<Rightarrow> m = ''POST'' \<and> path = [''v1'', ''bookings'', x, ''dispatch'']
    | PostCustody x \<Rightarrow> m = ''POST'' \<and> path = [''v1'', ''deliveries'', x, ''custody'']
    | PostBolt \<Rightarrow> m = ''POST'' \<and> path = [''webhooks'', ''bolt'']"
  using assms by (auto simp: route_def split: if_splits list.splits)

lemma get_reads: "snd (Bookings_Get api ret x mw) = mw"
  by (simp add: Bookings_Get_def Let_def split: sum.split prod.split)

lemma with_retailer_changed:
  assumes "with_retailer api r mw next = (resp, mw')" "mw' \<noteq> mw"
  shows "retailer_key api (fst mw) (hr_Headers r)"
  using assms
  by (auto simp: with_retailer_def retailer_key_def RequireRetailer_ok split: sum.splits)

lemma with_retailer_get:
  "snd (with_retailer api r mw (\<lambda>ret. Bookings_Get api ret x mw)) = mw"
  by (simp add: with_retailer_def get_reads split: sum.split)

lemma with_rider_changed:
  assumes "with_rider_auth api r mw next = (resp, mw')" "mw' \<noteq> mw"
    "app_RiderSecrets (api_App api) = [''bolt_food'' \<mapsto> k]"
  shows "k \<noteq> [] \<and> apiKeyFromRequest (hr_Headers r) = ''bolt_food:'' @ k"
proof (cases "RequireRider api (hr_Headers r)")
  case (Inl e)
  then show ?thesis using assms(1,2) by (simp add: with_rider_auth_def)
next
  case (Inr cid)
  then obtain secret where "cut_colon (apiKeyFromRequest (hr_Headers r)) = (cid, secret, True)"
    "secret \<noteq> []" "app_RiderSecrets (api_App api) cid = Some secret" unfolding RequireRider_ok by blast
  then show ?thesis using assms(3) by (simp add: cut_colon_spec split: if_splits)
qed

lemma app_with_parts:
  assumes "app_with rt rp cfg = Inr a"
  shows "app_RiderSecrets a = [''bolt_food'' \<mapsto> bf_RiderSecret cfg]"
    and "Wire (rt_bolt rt) cfg = Inr (wh_Carriers (app_Webhook a))"
  using assms by (auto simp: app_with_def Let_def split: sum.splits)

lemma webhook_changed:
  assumes app: "app_with rt rp cfg = Inr (api_App api)"
    and "Webhooks_ingest api c r cid mw = (resp, mw')" "mw' \<noteq> mw"
  shows "bolt_signed rt cfg (hr_Body r) (hr_Headers r)"
proof -
  let ?deps = "app_Webhook (api_App api)"
  have "snd (webhook_Process ?deps (ac_webhook c) cid (hr_Body r) (hr_Headers r) (fst mw)) \<noteq> fst mw"
    using assms(2,3) by (auto simp: Webhooks_ingest_def split: if_splits prod.splits option.splits)
  then obtain port evs where port: "reg_Get (wh_Carriers ?deps) cid = Inr (Some port)"
    and evs: "cp_ParseWebhook port (hr_Body r) (hr_Headers r) = Inr evs"
    by (auto simp: webhook_Process_def split: sum.splits option.splits)
  have "port = bolt_New (rt_bolt rt) cfg"
    using Wire_only_bolt app_with_parts(2) [OF app] port by metis
  then have "verifySignature (rt_bolt rt) (hr_Body r) (hr_Headers r) (bf_WebhookSecret cfg) = None"
    using evs by (auto simp: bolt_New_def bolt_ParseWebhook_def split: option.splits)
  then show ?thesis by (auto simp: verifySignature_None TrimPrefix_hex bolt_signed_def)
qed

text \<open>
  C16: A request that changes anything is a POST to one of four endpoints and shows the
  credentials of that endpoint: the key of an active retailer, the rider token of the configured
  secret, or a webhook body signed with the webhook secret.
\<close>

theorem no_anonymous_writes:
  assumes app: "app_with rt rp cfg = Inr (api_App api)"
    and req: "NewServer api c r mw = (resp, mw')" "mw' \<noteq> mw"
  shows "hr_Method r = ''POST'' \<and>
    (hr_Path r = [''v1'', ''bookings''] \<and> retailer_key api (fst mw) (hr_Headers r) \<or>
     (\<exists>x. hr_Path r = [''v1'', ''bookings'', x, ''dispatch''] \<and> retailer_key api (fst mw) (hr_Headers r)) \<or>
     (\<exists>x. hr_Path r = [''v1'', ''deliveries'', x, ''custody''] \<and> bf_RiderSecret cfg \<noteq> [] \<and>
        apiKeyFromRequest (hr_Headers r) = ''bolt_food:'' @ bf_RiderSecret cfg) \<or>
     hr_Path r = [''webhooks'', ''bolt''] \<and> bolt_signed rt cfg (hr_Body r) (hr_Headers r))"
proof -
  have rider: "app_RiderSecrets (api_App api) = [''bolt_food'' \<mapsto> bf_RiderSecret cfg]"
    using app by (rule app_with_parts)
  note gates = with_retailer_changed [OF _ req(2)] with_rider_changed [OF _ req(2) rider]
    webhook_changed [OF app _ req(2)]
  show ?thesis
  proof (cases "route (hr_Method r) (hr_Path r)")
    case None
    then have "mw' = mw" using req(1) by (auto simp: NewServer_def split: if_splits)
    then show ?thesis using req(2) by simp
  next
    case (Some e)
    note at = route_at [OF Some]
    show ?thesis
    proof (cases e)
      case (GetBookingById x)
      then have "mw' = mw"
        using req(1) Some with_retailer_get [of api r mw x] by (auto simp: NewServer_def)
      then show ?thesis using req(2) by simp
    qed (use req Some at in \<open>auto simp: NewServer_def dest: gates\<close>)
  qed
qed

text \<open>The rider token is the carrier's name, a colon and the carrier's secret, and nothing else passes.\<close>

theorem rider_token:
  "RequireRider api h = Inr cid \<longleftrightarrow>
     cid \<noteq> [] \<and> CHR '':'' \<notin> set cid \<and>
     (\<exists>secret. app_RiderSecrets (api_App api) cid = Some secret \<and> secret \<noteq> [] \<and>
        apiKeyFromRequest h = cid @ '':'' @ secret)"
  unfolding RequireRider_ok cut_colon_spec by blast

end
