(* ===== verification/Demo.thy ===== *)
theory Demo
  imports HttpApi
begin

text \<open>
  One delivery from booking to doorstep, run by the model with a small concrete environment: a
  two-byte checksum in place of SHA-256, constant trigonometry, a Bolt client that answers
  nothing.
\<close>

section \<open>The environment\<close>

definition demo_time :: "int \<Rightarrow> gotime" where
  "demo_time h = \<lparr>t_ns = (1767225600 + h * 3600) * 1000000000, t_off = 0\<rparr>"

definition demo_H :: hash_fns where
  "demo_H = \<lparr>sha256_Sum = (\<lambda>s. take 2 (rev s)), json_Marshal = (\<lambda>p. Inr (h_Reason p))\<rparr>"

definition demo_math :: go_math where
  "demo_math = \<lparr>math_Sin = (\<lambda>x. Num 0), math_Cos = (\<lambda>x. Num 1), math_Atan2 = (\<lambda>x y. Num 0),
     math_Sqrt = (\<lambda>x. x), int64_oob = (\<lambda>x. 0)\<rparr>"

definition demo_bolt :: "unit bolt_env" where
  "demo_bolt = \<lparr>env_Do = (\<lambda>q w. (Inl (External ''no network''), w)), env_NewRequest = (\<lambda>m u. None),
     env_Marshal = (\<lambda>b. Inr []), env_DecodeOrder = (\<lambda>s. Inl (External ''EOF'')),
     env_DecodeEstimate = (\<lambda>s. Inl (External ''EOF'')),
     env_UnmarshalWebhook = (\<lambda>s. Inr \<lparr>bw_Event = ''order.delivered'', bw_OrderID = s, bw_Timestamp = demo_time 4,
        bw_Rider = None, bw_Location = None, bw_PhotoURL = [], bw_Reason = []\<rparr>),
     env_HMAC = (\<lambda>k b. take 2 (k @ b)), env_oob = (\<lambda>x. 0)\<rparr>"

definition demo_rt :: "unit runtime" where
  "demo_rt = \<lparr>rt_hash = demo_H, rt_math = demo_math, rt_bolt = demo_bolt,
     rt_del_order = (\<lambda>m. filter (\<lambda>i. m i \<noteq> None) [2, 3]),
     rt_reg_order = (\<lambda>m. filter (\<lambda>c. m c \<noteq> None) [''bolt_food''])\<rparr>"

definition demo_cfg :: bolt_config where
  "demo_cfg = \<lparr>bf_BaseURL = ''https://bolt'', bf_APIKey = ''key'', bf_WebhookSecret = ''hush'',
     bf_RiderSecret = ''rider'', bf_ServiceArea = ''buc'', bf_Sandbox = True\<rparr>"

definition demo_app :: "(mem, unit) app" where
  "demo_app = projr (app_New demo_rt demo_cfg)"

lemma demo_New: "app_New demo_rt demo_cfg = Inr demo_app"
  by (simp add: demo_app_def app_New_def app_with_def Wire_ok Let_def)

lemma demo_with: "app_with demo_rt (mem_repos demo_rt) demo_cfg = Inr demo_app"
  using demo_New by (simp add: app_New_def)

section \<open>The operations\<close>

definition demo_booking_env :: booking_env where
  "demo_booking_env = \<lparr>bv_awbID = 1, bv_deliveryID = 2, bv_rand = Inr [1, 2, 3, 4, 5],
     bv_now_awb = demo_time 0, bv_now_attach = demo_time 0, bv_now_state = demo_time 0,
     bv_now_delivery = demo_time 0, bv_now_check = demo_time 0, bv_now_schedule = demo_time 0\<rparr>"

definition demo_input :: booking_input where
  "demo_input = \<lparr>in_RetailerID = 1, in_ExternalAWB = ''EXT1'', in_ExternalCarrier = ''sameday'',
     in_CustomerPhone = ''07'', in_CustomerName = ''Ana'', in_PickupLockerID = ''L1'',
     in_PickupLat = Num 44, in_PickupLng = Num 26, in_PickupAddress = ''Locker'',
     in_DropLat = Num 44, in_DropLng = Num 26, in_DropAddress = ''Street'', in_DropFloor = [],
     in_DropApartment = [], in_DropInstructions = [], in_WeightKg = Num 2,
     in_SlotStart = demo_time 2, in_SlotEnd = demo_time 3, in_LastMileCarrier = []\<rparr>"

definition demo_record_env :: "uuid \<Rightarrow> record_env" where
  "demo_record_env i = \<lparr>rv_eventID = i, rv_now_event = demo_time 2, rv_now_mark = demo_time 2, rv_now_state = demo_time 2\<rparr>"

definition demo_record :: "event_type \<Rightarrow> record_input" where
  "demo_record t = \<lparr>ri_DeliveryID = 2, ri_Type = t,
     ri_Actor = \<lparr>ac_Type = ''rider'', ac_CarrierID = ''bolt_food'', ac_ID = ''7'', ac_Name = ''Dan''\<rparr>,
     ri_Location = Some \<lparr>cg_Lat = Num 44, cg_Lng = Num 26, cg_AccuracyM = Num 5, cg_Altitude = Num 0, cg_Heading = Num 0\<rparr>,
     ri_Photos = [\<lparr>ph_S3URI = ''s3://p'', ph_SHA256 = ''aa'', ph_ContentType = ''image/jpeg'', ph_Width = 0,
                   ph_Height = 0, ph_ExifGPS = None\<rparr>],
     ri_Reason = event_type_string t\<rparr>"

definition demo_records :: "(record_env \<times> record_input) list" where
  "demo_records =
     [(demo_record_env 10, demo_record EventRiderAssigned),
      (demo_record_env 11, demo_record EventRiderArrivedAtLocker),
      (demo_record_env 12, demo_record EventPackagePickedUp),
      (demo_record_env 13, demo_record EventRiderInTransit),
      (demo_record_env 14, demo_record EventRiderArrivedAtDestination),
      (demo_record_env 15, demo_record EventPackageDelivered)]"

definition exec_records ::
  "(mem, 'w) app \<Rightarrow> (record_env \<times> record_input) list \<Rightarrow> mem \<times> 'w \<Rightarrow> mem \<times> 'w" where
  "exec_records a xs mw = foldl (\<lambda>s (env, i). app_exec a (OpRecord env i) s) mw xs"

definition demo_booked :: "mem \<times> unit" where
  "demo_booked = app_exec demo_app (OpBook demo_booking_env demo_input) (mem_empty, ())"

definition demo_end :: "mem \<times> unit" where
  "demo_end = exec_records demo_app demo_records demo_booked"

definition demo_mem :: mem where
  "demo_mem = fst demo_end"

section \<open>It is a run of the program\<close>

lemma record_fresh:
  assumes "app_wired rt (mem_repos rt) a" "fresh_event m_byDel m (rv_eventID env)" "fresh_event m_byDel m j"
    "j \<noteq> rv_eventID env"
  shows "fresh_event m_byDel (fst (app_exec a (OpRecord env i) (m, w))) j"
proof -
  have cus: "app_Custody a = mem_custody_deps (rt_hash rt) (rt_del_order rt)"
    using assms(1) by (simp add: app_wired_def mem_custody_deps_def mem_repos_def)
  obtain m' where m': "snd (custody_Record (app_Custody a) env i m) = m'" by simp
  have "m_byDel m' = m_byDel m \<or>
    (\<exists>e. e_EventID e = rv_eventID env \<and>
         m_byDel m' = (m_byDel m)(ri_DeliveryID i := m_byDel m (ri_DeliveryID i) @ [e]))"
    unfolding m' [symmetric] cus mem_custody_Record [OF assms(2)]
    by (auto simp: Let_def memDel_Save_def dest: next_event_fields split: option.split sum.split)
  then have "fresh_event m_byDel m' j"
  proof
    assume "m_byDel m' = m_byDel m"
    then show ?thesis using assms(3) by (simp add: fresh_event_def)
  next
    assume "\<exists>e. e_EventID e = rv_eventID env \<and>
      m_byDel m' = (m_byDel m)(ri_DeliveryID i := m_byDel m (ri_DeliveryID i) @ [e])"
    then show ?thesis using fresh_event_snoc [OF assms(3)] assms(4) by metis
  qed
  then show ?thesis using m' by simp
qed

lemma run_records:
  assumes "app_wired rt (mem_repos rt) a" "app_run a mw" "distinct (map (rv_eventID \<circ> fst) xs)"
    "\<forall>x \<in> set xs. fresh_event m_byDel (fst mw) (rv_eventID (fst x))"
  shows "app_run a (exec_records a xs mw) \<and> (app_step a)\<^sup>*\<^sup>* mw (exec_records a xs mw)"
  using assms(2-)
proof (induction xs arbitrary: mw)
  case Nil
  then show ?case by (simp add: exec_records_def)
next
  case (Cons x xs)
  obtain env i where x: "x = (env, i)" by fastforce
  obtain m w where mw: "mw = (m, w)" by fastforce
  let ?mw' = "app_exec a (OpRecord env i) mw"
  have step: "app_step a mw ?mw'"
    unfolding mw by (rule step_of.step) (use Cons.prems(3) x mw in \<open>simp add: mem_view_def\<close>)
  have "\<forall>y \<in> set xs. fresh_event m_byDel (fst ?mw') (rv_eventID (fst y))"
  proof
    fix y assume y: "y \<in> set xs"
    show "fresh_event m_byDel (fst ?mw') (rv_eventID (fst y))"
      unfolding mw
      by (rule record_fresh [OF assms(1)]) (use Cons.prems(2,3) x mw y in \<open>auto simp: image_iff\<close>)
  qed
  with Cons.IH [of ?mw'] Cons.prems(1,2) run_of.more [OF _ step]
  have "app_run a (exec_records a xs ?mw') \<and> (app_step a)\<^sup>*\<^sup>* ?mw' (exec_records a xs ?mw')" by simp
  then show ?case using step x by (auto simp: exec_records_def intro: converse_rtranclp_into_rtranclp)
qed

lemma demo_wired: "app_wired demo_rt (mem_repos demo_rt) demo_app"
  by (rule app_New_wired [OF demo_New])

lemma book_keeps_events:
  assumes "app_wired rt (mem_repos rt) a"
  shows "m_byDel (fst (app_exec a (OpBook env i) (m, w))) = m_byDel m"
proof -
  have as: "ar_Save (bk_AWBs (app_Booking a)) x s = (None, snd (memAWB_Save x s))" for x s
    using assms by (simp add: app_wired_def mem_repos_def mem_awb_repo_def memAWB_Save_def)
  have ds: "dr_Save (bk_Deliveries (app_Booking a)) x s = (None, snd (memDel_Save x s))" for x s
    using assms by (simp add: app_wired_def mem_repos_def mem_delivery_repo_def memDel_Save_def Let_def)
  show ?thesis
    by (simp add: CreateBooking_def as ds memAWB_Save_def memDel_Save_def Let_def split: sum.split)
qed

lemma demo_booked_run: "app_run demo_app demo_booked \<and> (\<forall>i. m_byDel (fst demo_booked) i = [])"
proof -
  have "app_step demo_app (mem_empty, ()) demo_booked"
    unfolding demo_booked_def by (rule step_of.step) (simp add: mem_empty_def mem_view_def)
  moreover have "app_run demo_app (mem_empty, ())" by (rule run_of.start) (simp add: mem_view_def)
  ultimately have "app_run demo_app demo_booked" by (rule run_of.more [rotated])
  then show ?thesis by (simp add: demo_booked_def book_keeps_events [OF demo_wired] mem_empty_def del: app_exec.simps)
qed

lemma demo_run: "app_run demo_app demo_end" "(app_step demo_app)\<^sup>*\<^sup>* demo_booked demo_end"
proof -
  have "distinct (map (rv_eventID \<circ> fst) demo_records)"
    by (simp add: demo_records_def demo_record_env_def)
  with run_records [OF demo_wired, of demo_booked demo_records] demo_booked_run
  have "app_run demo_app demo_end \<and> (app_step demo_app)\<^sup>*\<^sup>* demo_booked demo_end"
    by (simp add: demo_end_def fresh_event_def)
  then show "app_run demo_app demo_end" "(app_step demo_app)\<^sup>*\<^sup>* demo_booked demo_end" by simp_all
qed

section \<open>Where the delivery is after each step\<close>

definition demo_at :: "mem \<times> unit \<Rightarrow> dstate \<Rightarrow> bool" where
  "demo_at mw st \<longleftrightarrow> (\<exists>d. m_delByID (fst mw) 2 = Some d \<and> d_ID d = 2 \<and> d_State d = st)"

lemma demo_booked_at: "demo_at demo_booked StatePending"
proof -
  note unf = booking_awb_def awb_New_def generateInternalAWB_def demo_booking_env_def demo_input_def
    booking_package_def validatePackage_def AttachExternal_def awb_Transition_def
  obtain a where a: "booking_awb demo_booking_env demo_input = Inr a"
    by (simp add: unf Let_def)
  obtain d where d: "booking_delivery (app_Booking demo_app) demo_booking_env demo_input a = Inr d"
    by (simp add: booking_delivery_def delivery_New_def Schedule_def demo_booking_env_def demo_input_def
        demo_time_def time_Before_def Let_def)
  have slot: "\<not> time_Before (in_SlotEnd demo_input) (in_SlotStart demo_input)"
    by (simp add: demo_input_def demo_time_def time_Before_def)
  have as: "ar_Save (bk_AWBs (app_Booking demo_app)) x s = (None, snd (memAWB_Save x s))" for x s
    using demo_wired by (simp add: app_wired_def mem_repos_def mem_awb_repo_def memAWB_Save_def)
  have ds: "dr_Save (bk_Deliveries (app_Booking demo_app)) x s = (None, snd (memDel_Save x s))" for x s
    using demo_wired by (simp add: app_wired_def mem_repos_def mem_delivery_repo_def memDel_Save_def Let_def)
  have "fst demo_booked = snd (memDel_Save d (snd (memAWB_Save a mem_empty)))"
    using a d slot by (simp add: demo_booked_def CreateBooking_def as ds)
  then show ?thesis
    using booking_delivery_ok [OF d]
    by (simp add: demo_at_def memDel_Save_def Let_def demo_booking_env_def)
qed

lemma demo_valid:
  assumes "event_target t = Some st"
  shows "Validate (record_event (demo_record_env j) (demo_record t)) = None"
proof -
  have "event_type_string t \<noteq> []" using assms by (cases t) auto
  then show ?thesis
    by (simp add: Validate_None_iff record_event_def demo_record_def demo_record_env_def demo_time_def
        time_IsZero_def uuid_Nil_def)
qed

lemma demo_next_event: "\<exists>e. next_event demo_H m (demo_record_env j) (demo_record t) = Inr e"
  by (simp add: next_event_def computeHash_def demo_H_def Let_def)

lemma demo_Custody: "app_Custody demo_app = mem_custody_deps demo_H (rt_del_order demo_rt)"
  using app_New_Custody [OF demo_New] by (simp add: mem_custody_deps_def demo_rt_def)

lemma demo_fresh_env: "fresh_event c m (rv_eventID (demo_record_env j)) \<longleftrightarrow> fresh_event c m j"
  by (simp add: demo_record_env_def)

lemma demo_record_exec:
  assumes "demo_at mw st" "fresh_event m_byDel (fst mw) j" "event_target t = Some st'" "state_edge st st'"
  shows "\<exists>e d'. d_ID d' = 2 \<and> d_State d' = st' \<and>
    custody_Record (mem_custody_deps demo_H (rt_del_order demo_rt)) (demo_record_env j) (demo_record t) (fst mw) =
      ((Some e, None),
       snd (memDel_Save d' ((fst mw)\<lparr>m_byDel := (m_byDel (fst mw))(2 := m_byDel (fst mw) 2 @ [e])\<rparr>)))"
proof -
  obtain d where d: "m_delByID (fst mw) 2 = Some d" "d_ID d = 2" "d_State d = st"
    using assms(1) by (auto simp: demo_at_def)
  have fresh: "fresh_event m_byDel (fst mw) (rv_eventID (demo_record_env j))"
    using assms(2) by (simp add: demo_fresh_env)
  obtain e where e: "next_event demo_H (fst mw) (demo_record_env j) (demo_record t) = Inr e"
    using demo_next_event by blast
  obtain d' where d': "applyDeliveryTransition (demo_record_env j) d t = Inr d'"
    using apply_error [of "demo_record_env j" d t] assms(3,4) d
    by (cases "applyDeliveryTransition (demo_record_env j) d t") auto
  have "d_ID d' = 2" "d_State d' = st'"
    using apply_target [OF d'] assms(3) d by (auto simp: same_job_def)
  moreover have "custody_Record (mem_custody_deps demo_H (rt_del_order demo_rt)) (demo_record_env j) (demo_record t) (fst mw) =
      ((Some e, None),
       snd (memDel_Save d' ((fst mw)\<lparr>m_byDel := (m_byDel (fst mw))(2 := m_byDel (fst mw) 2 @ [e])\<rparr>)))"
    unfolding mem_custody_Record [OF fresh]
    using d demo_valid [OF assms(3)] e d' by (simp add: demo_record_def Let_def)
  ultimately show ?thesis by blast
qed

lemma demo_record_at:
  assumes "demo_at mw st" "fresh_event m_byDel (fst mw) j" "event_target t = Some st'" "state_edge st st'"
  shows "demo_at (app_exec demo_app (OpRecord (demo_record_env j) (demo_record t)) mw) st'"
  using demo_record_exec [OF assms]
  by (cases mw) (auto simp: demo_at_def memDel_Save_def Let_def demo_Custody)

text \<open>The states the records lead through.\<close>

fun lead :: "dstate \<Rightarrow> event_type list \<Rightarrow> dstate option" where
  "lead st [] = Some st"
| "lead st (t # ts) =
     (case event_target t of None \<Rightarrow> None
      | Some st' \<Rightarrow> if state_edge st st' then lead st' ts else None)"

lemma demo_records_at:
  assumes "demo_at mw st" "distinct js" "\<forall>j \<in> set js. fresh_event m_byDel (fst mw) j"
    "length js = length ts" "lead st ts = Some st'"
  shows "demo_at (exec_records demo_app (zip (map demo_record_env js) (map demo_record ts)) mw) st'"
  using assms
proof (induction ts arbitrary: js mw st)
  case Nil
  then show ?case by (simp add: exec_records_def)
next
  case (Cons t ts)
  obtain j js' where js: "js = j # js'" using Cons.prems(4) by (cases js) auto
  obtain st1 where st1: "event_target t = Some st1" "state_edge st st1" "lead st1 ts = Some st'"
    using Cons.prems(5) by (auto split: option.splits if_splits)
  let ?mw' = "app_exec demo_app (OpRecord (demo_record_env j) (demo_record t)) mw"
  have f: "fresh_event m_byDel (fst mw) (rv_eventID (demo_record_env j))"
    using Cons.prems(3) js by (simp add: demo_fresh_env)
  have at1: "demo_at ?mw' st1"
    by (rule demo_record_at [OF Cons.prems(1) _ st1(1,2)]) (use Cons.prems(3) js in simp)
  have "fresh_event m_byDel (fst ?mw') k" if "k \<in> set js'" for k
  proof -
    obtain m w where mw: "mw = (m, w)" by (cases mw) simp
    show ?thesis
      unfolding mw
      by (rule record_fresh [OF demo_wired])
        (use Cons.prems(2,3) js that f mw in \<open>auto simp: demo_record_env_def\<close>)
  qed
  with Cons.IH [OF at1, of js'] Cons.prems(2,4) js st1(3)
  have "demo_at (exec_records demo_app (zip (map demo_record_env js') (map demo_record ts)) ?mw') st'" by simp
  then show ?case by (simp add: exec_records_def js)
qed

lemma demo_delivered: "demo_at demo_end StateDelivered"
proof -
  have "demo_records = zip (map demo_record_env [10, 11, 12, 13, 14, 15]) (map demo_record
      [EventRiderAssigned, EventRiderArrivedAtLocker, EventPackagePickedUp, EventRiderInTransit,
       EventRiderArrivedAtDestination, EventPackageDelivered])"
    by (simp add: demo_records_def)
  then show ?thesis
    unfolding demo_end_def
    using demo_records_at [OF demo_booked_at, of "[10, 11, 12, 13, 14, 15]"
      "[EventRiderAssigned, EventRiderArrivedAtLocker, EventPackagePickedUp, EventRiderInTransit,
       EventRiderArrivedAtDestination, EventPackageDelivered]" StateDelivered] demo_booked_run
    by (simp add: fresh_event_def)
qed

end
