(* ===== verification/Witnesses.thy ===== *)
theory Witnesses
  imports Demo
begin

text \<open>
  The properties at concrete inputs: each theorem \<open>p_witness\<close> applies the property \<open>p\<close> where its
  hypotheses hold, most of them on the run of \<open>Demo\<close>.
\<close>

section \<open>The run\<close>

lemma demo_end_eq: "demo_end = (demo_mem, ())"
  by (simp add: demo_mem_def prod_eq_iff)

lemma demo_mem_run: "app_run demo_app (demo_mem, ())"
  using demo_run(1) by (simp add: demo_end_eq)

lemma demo_booked_eq: "(fst demo_booked, ()) = demo_booked"
  by (simp add: prod_eq_iff)

lemma demo_booked_ok:
  "app_run demo_app (fst demo_booked, ())" "(app_step demo_app)\<^sup>*\<^sup>* (fst demo_booked, ()) (demo_mem, ())"
  "fresh_event m_byDel (fst demo_booked) i"
  using demo_booked_run demo_run(2) by (simp_all add: demo_booked_eq fresh_event_def flip: demo_end_eq)

lemma demo_booked_delivery:
  "\<exists>d. m_delByID (fst demo_booked) 2 = Some d \<and> d_State d = StatePending"
  using demo_booked_at by (auto simp: demo_at_def)

theorem run_delivered_evidence_witness:
  "(\<exists>e \<in> set (m_byDel demo_mem 2). e_Type e = EventPackagePickedUp \<and> e_Photos e \<noteq> [] \<and> e_Location e \<noteq> None) \<and>
   (\<exists>e \<in> set (m_byDel demo_mem 2). e_Type e = EventPackageDelivered \<and> e_Photos e \<noteq> [] \<and> e_Location e \<noteq> None)"
proof -
  obtain d where "m_delByID demo_mem 2 = Some d" "d_State d = StateDelivered"
    using demo_delivered by (auto simp: demo_at_def demo_mem_def)
  from run_delivered_evidence [OF demo_New demo_mem_run this] show ?thesis .
qed

theorem run_chains_verify_witness: "custody_VerifyChain (app_Custody demo_app) 2 demo_mem = None"
  by (rule run_chains_verify [OF demo_New demo_mem_run])

theorem run_append_only_witness: "prefix (m_byDel (fst demo_booked) 2) (m_byDel demo_mem 2)"
  by (rule run_append_only [OF demo_New demo_booked_ok(1,2)])

theorem run_follows_graph_witness:
  "\<exists>d d'. m_delByID (fst demo_booked) 2 = Some d \<and> d_State d = StatePending \<and>
     m_delByID demo_mem 2 = Some d' \<and> state_edge\<^sup>*\<^sup>* StatePending (d_State d')"
proof -
  obtain d where d: "m_delByID (fst demo_booked) 2 = Some d" "d_State d = StatePending"
    using demo_booked_delivery by blast
  from run_follows_graph [OF demo_New demo_booked_ok(1,2) d(1)] d show ?thesis by auto
qed

theorem run_invariant_witness:
  "mem_inv demo_mem \<and> app_inv (rt_hash demo_rt) m_awbByID m_delByID m_byDel demo_mem"
  by (rule run_invariant [OF demo_New demo_mem_run])

theorem custody_Record_ok_witness:
  "\<exists>r e d m'. custody_Record (mem_custody_deps demo_H (rt_del_order demo_rt)) (demo_record_env 10)
       (demo_record EventRiderAssigned) (fst demo_booked) = ((r, None), m') \<and>
     next_event demo_H (fst demo_booked) (demo_record_env 10) (demo_record EventRiderAssigned) = Inr e \<and>
     m_delByID (fst demo_booked) 2 = Some d \<and> m_byDel m' = (m_byDel (fst demo_booked))(2 := m_byDel (fst demo_booked) 2 @ [e]) \<and>
     m_awbByAWB m' = m_awbByAWB (fst demo_booked) \<and> m_logs m' = m_logs (fst demo_booked)"
proof -
  have "fresh_event m_byDel (fst demo_booked) (rv_eventID (demo_record_env 10))"
    using demo_booked_ok(3) .
  moreover obtain e m' where
    rec: "custody_Record (mem_custody_deps demo_H (rt_del_order demo_rt)) (demo_record_env 10)
       (demo_record EventRiderAssigned) (fst demo_booked) = ((Some e, None), m')"
    using demo_record_exec [OF demo_booked_at demo_booked_ok(3), of EventRiderAssigned StateAssigned 10] by auto
  ultimately show ?thesis
    using custody_Record_ok [of "fst demo_booked" "demo_record_env 10" demo_H "rt_del_order demo_rt"
        "demo_record EventRiderAssigned" "Some e" m']
    by (auto simp: demo_record_def)
qed

theorem custody_event_precedes_transition_witness:
  "\<exists>e m'. custody_Record (mem_custody_deps demo_H (rt_del_order demo_rt)) (demo_record_env 10)
       (demo_record EventPackageDelivered) (fst demo_booked) =
     ((Some e, Some (Errorf ''delivery: invalid transition %s -> %s'' [FStr ''pending'', FStr ''delivered''])), m') \<and>
     m_byDel m' 2 = [e]"
proof -
  obtain d where d: "m_delByID (fst demo_booked) 2 = Some d" "d_State d = StatePending"
    using demo_booked_delivery by blast
  obtain e where "next_event demo_H (fst demo_booked) (demo_record_env 10) (demo_record EventPackageDelivered) = Inr e"
    using demo_next_event by blast
  moreover have "fresh_event m_byDel (fst demo_booked) (rv_eventID (demo_record_env 10))"
    by (rule demo_booked_ok(3))
  moreover have "Validate (record_event (demo_record_env 10) (demo_record EventPackageDelivered)) = None"
    by (rule demo_valid) simp
  ultimately show ?thesis
    using custody_event_precedes_transition [of "fst demo_booked" "demo_record_env 10"
        "demo_record EventPackageDelivered" d demo_H e StateDelivered "rt_del_order demo_rt"] d demo_booked_run
    by (auto simp: demo_record_def)
qed

theorem CreateBooking_spec_witness:
  "\<exists>res m' a d. CreateBooking (app_Booking demo_app) demo_booking_env demo_input mem_empty = (Inr res, m') \<and>
     GetBooking (app_Booking demo_app) (bkr_DeliveryID res) m' = Inr (d, a) \<and> d_State d = StatePending"
proof -
  have deps: "bk_AWBs (app_Booking demo_app) = mem_awb_repo"
    "bk_Deliveries (app_Booking demo_app) = mem_delivery_repo (rt_del_order demo_rt)"
    using demo_wired by (simp_all add: app_wired_def mem_repos_def)
  obtain r m' where r: "CreateBooking (app_Booking demo_app) demo_booking_env demo_input mem_empty = (r, m')"
    by fastforce
  have m': "m' = fst demo_booked" using r by (simp add: demo_booked_def)
  note spec = CreateBooking_spec [OF deps r]
  show ?thesis
  proof (cases r)
    case (Inl err)
    then show ?thesis using spec demo_booked_delivery m' by (simp add: mem_empty_def)
  next
    case (Inr res)
    then show ?thesis using spec r by auto
  qed
qed

theorem run_dispatch_never_succeeds_witness:
  "fst (DispatchDelivery (app_Dispatch demo_app) \<lparr>dv_now_decide = demo_time 1, dv_now_state = demo_time 1\<rparr> 2
      (fst demo_booked, ())) = Some (Wrapf ''dispatch: routing: %w'' [] ErrNoEligibleCarrier)"
  using run_dispatch_never_succeeds [OF demo_New demo_booked_ok(1),
      of "\<lparr>dv_now_decide = demo_time 1, dv_now_state = demo_time 1\<rparr>" 2] demo_booked_delivery
  by auto

theorem run_webhooks_ignored_witness:
  "snd (webhook_Process (app_Webhook demo_app) (\<lambda>n. \<lparr>we_record = demo_record_env 10, we_now = demo_time 1\<rparr>)
      ''bolt_food'' ''{}'' [] (fst demo_booked)) = fst demo_booked"
  using run_webhooks_ignored [OF demo_New] demo_booked_ok(1) by (metis prod.collapse)

theorem webhook_never_delivers_witness:
  "\<exists>r m' d'. webhook_Process (app_Webhook demo_app) (\<lambda>n. \<lparr>we_record = demo_record_env 10, we_now = demo_time 1\<rparr>)
      ''bolt_food'' ''{}'' [] (fst demo_booked) = (r, m') \<and>
     m_delByID m' 2 = Some d' \<and> d_State d' \<notin> {StateInTransit, StateEnRouteDrop, StateDelivered}"
proof -
  let ?envs = "\<lambda>n::nat. \<lparr>we_record = demo_record_env 10, we_now = demo_time 1\<rparr>"
  obtain d where d: "m_delByID (fst demo_booked) 2 = Some d" "d_State d = StatePending"
    using demo_booked_delivery by blast
  obtain r m' where r: "webhook_Process (app_Webhook demo_app) ?envs ''bolt_food'' ''{}'' [] (fst demo_booked) = (r, m')"
    by fastforce
  have "fresh_event m_byDel (fst demo_booked) (rv_eventID (we_record (?envs 0)))"
    by (rule demo_booked_ok(3))
  from webhook_never_delivers [OF demo_New _ _ this r d(1)] run_inv [OF demo_New demo_booked_ok(1)] d(2) r show ?thesis by auto
qed


section \<open>Custody\<close>

definition demo_event :: "uuid \<Rightarrow> int64 \<Rightarrow> string \<Rightarrow> string \<Rightarrow> string \<Rightarrow> event" where
  "demo_event i n reason prev h =
     \<lparr>e_EventID = i, e_DeliveryID = 2, e_SequenceNum = n, e_Type = EventRiderAssigned, e_OccurredAt = demo_time 2,
      e_CarrierTime = None, e_Actor = ri_Actor (demo_record EventRiderAssigned), e_Location = None, e_Photos = [],
      e_Signature = None, e_Reason = reason, e_Metadata = [], e_PrevHash = prev, e_Hash = h\<rparr>"

definition demo_chain :: "event list" where
  "demo_chain = [demo_event 10 0 ''ab'' ''3176'' ''6261'', demo_event 11 1 ''cd'' ''6261'' ''6463'']"

text \<open>The same chain with another identifier in the first event, which the demo encoding forgets.\<close>

definition demo_chain2 :: "event list" where
  "demo_chain2 = [demo_event 12 0 ''ab'' ''3176'' ''6261'', demo_event 11 1 ''cd'' ''6261'' ''6463'']"

lemma demo_genesis: "genesisHash demo_H = ''3176''"
  by code_simp

lemma demo_hashes:
  "computeHash demo_H (demo_event i n ''ab'' p h) = Inr ''6261''"
  "computeHash demo_H (demo_event i n ''cd'' p h) = Inr ''6463''"
proof -
  have "hex_EncodeToString ''ba'' = ''6261''" "hex_EncodeToString ''dc'' = ''6463''" by code_simp+
  then show "computeHash demo_H (demo_event i n ''ab'' p h) = Inr ''6261''"
    "computeHash demo_H (demo_event i n ''cd'' p h) = Inr ''6463''"
    by (simp_all add: computeHash_def payload_of_def demo_H_def demo_event_def del: hex_EncodeToString.simps)
qed

lemma demo_event_sel [simp]:
  "e_EventID (demo_event i n r p h) = i" "e_SequenceNum (demo_event i n r p h) = n"
  "e_PrevHash (demo_event i n r p h) = p" "e_Hash (demo_event i n r p h) = h"
  by (simp_all add: demo_event_def)

lemma demo_chains_ok:
  "verify_from demo_H 0 (genesisHash demo_H) demo_chain = None"
  "verify_from demo_H 0 (genesisHash demo_H) demo_chain2 = None"
  by (simp_all add: demo_chain_def demo_chain2_def demo_genesis demo_hashes)

theorem verify_tamper_evident_witness:
  "map payload_of demo_chain = map payload_of demo_chain2 \<or>
   (\<exists>i < length demo_chain. digest_collision demo_H (demo_chain ! i) (demo_chain2 ! i) \<or>
      encoding_collision demo_H (demo_chain ! i) (demo_chain2 ! i))"
  by (rule verify_tamper_evident [OF demo_chains_ok]) (simp_all add: demo_chain_def demo_chain2_def)

theorem verify_iff_intact_witness:
  "e_PrevHash (demo_chain ! 1) = e_Hash (demo_chain ! 0) \<and>
   computeHash demo_H (demo_chain ! 1) = Inr (e_Hash (demo_chain ! 1))"
proof -
  have "1 < length demo_chain" by (simp add: demo_chain_def)
  then show ?thesis using verify_iff_intact [of demo_H demo_chain] demo_chains_ok(1) by fastforce
qed

theorem verify_names_tampered_event_witness:
  "verify_from demo_H 0 (genesisHash demo_H) (demo_chain[1 := demo_event 11 1 ''zz'' ''6261'' ''6463'']) =
     Some (TamperedError 1 11)"
  using verify_names_tampered_event [OF demo_chains_ok(1), of 1 "demo_event 11 1 ''zz'' ''6261'' ''6463''" "''zz''"]
  by (simp add: demo_chain_def hash_input_def payload_of_def demo_H_def demo_event_def)

theorem verify_accepts_truncation_witness:
  "verify_from demo_H 0 (genesisHash demo_H) (take 1 demo_chain) = None"
  by (rule verify_accepts_truncation [OF demo_chains_ok(1)])

section \<open>HTTP\<close>

definition demo_http :: http_env where
  "demo_http = \<lparr>he_sha256 = (\<lambda>s. s), he_DecodeBooking = (\<lambda>s. Inl (External ''EOF'')),
     he_DecodeCustody = (\<lambda>s. Inr \<lparr>rq_Type = ''rider.assigned'', rq_ActorType = ''rider'', rq_ActorCarrierID = ''bolt_food'',
        rq_ActorID = ''7'', rq_ActorName = ''Dan'', rq_Location = None, rq_Photos = [], rq_Reason = s\<rparr>),
     he_UuidParse = (\<lambda>s. Inr 2), he_ParseRFC3339 = (\<lambda>s. Inr (demo_time 2))\<rparr>"

definition demo_api :: "(mem, unit) api" where
  "demo_api = \<lparr>api_App = demo_app, api_Retailers = mem_retailer_repo (he_sha256 demo_http),
     api_Pool = None, api_env = demo_http\<rparr>"

definition demo_call :: api_call where
  "demo_call = \<lparr>ac_book = demo_booking_env, ac_record = demo_record_env 10,
     ac_dispatch = \<lparr>dv_now_decide = demo_time 1, dv_now_state = demo_time 1\<rparr>,
     ac_webhook = (\<lambda>n. \<lparr>we_record = demo_record_env 10, we_now = demo_time 1\<rparr>)\<rparr>"

definition demo_request :: request where
  "demo_request = \<lparr>hr_Method = ''POST'', hr_Path = [''v1'', ''deliveries'', ''2'', ''custody''],
     hr_Headers = [(''Authorization'', ''Bearer bolt_food:rider'')], hr_Body = ''{}''\<rparr>"

definition demo_other_retailer :: retailer where
  "demo_other_retailer = \<lparr>re_ID = 9, re_Name = ''Other'', re_Slug = ''other'', re_IsActive = True\<rparr>"

lemma demo_rider_writes:
  "\<exists>resp mw'. NewServer demo_api demo_call demo_request (fst demo_booked, ()) = (resp, mw') \<and>
     m_byDel (fst mw') 2 \<noteq> []"
proof -
  let ?i = "record_input_of 2 \<lparr>rq_Type = ''rider.assigned'', rq_ActorType = ''rider'',
    rq_ActorCarrierID = ''bolt_food'', rq_ActorID = ''7'', rq_ActorName = ''Dan'', rq_Location = None, rq_Photos = [],
    rq_Reason = ''{}''\<rparr>"
  have key: "apiKeyFromRequest (hr_Headers demo_request) = ''bolt_food:rider''"
    by code_simp
  have rider: "RequireRider demo_api (hr_Headers demo_request) = Inr ''bolt_food''"
    unfolding RequireRider_ok key
    using app_with_parts(1) [OF demo_with] by (simp add: demo_api_def demo_cfg_def)
  have ty: "EventType_of ''rider.assigned'' = EventRiderAssigned"
    by (simp add: EventType_of_def declared_event_types_def)
  obtain d where d: "m_delByID (fst demo_booked) 2 = Some d" "d_State d = StatePending"
    using demo_booked_delivery by blast
  have fresh: "fresh_event m_byDel (fst demo_booked) (rv_eventID (demo_record_env 10))"
    by (rule demo_booked_ok(3))
  have v: "Validate (record_event (demo_record_env 10) ?i) = None"
    by (simp add: Validate_None_iff record_event_def record_input_of_def ty demo_record_env_def demo_time_def
        time_IsZero_def uuid_Nil_def)
  obtain e where e: "next_event demo_H (fst demo_booked) (demo_record_env 10) ?i = Inr e"
    by (simp add: next_event_def computeHash_def demo_H_def Let_def)
  obtain d' where d': "applyDeliveryTransition (demo_record_env 10) d EventRiderAssigned = Inr d'"
    using apply_error [of "demo_record_env 10" d EventRiderAssigned] d
    by (cases "applyDeliveryTransition (demo_record_env 10) d EventRiderAssigned") auto
  have rec: "custody_Record (app_Custody demo_app) (demo_record_env 10) ?i (fst demo_booked) =
      ((Some e, None), snd (memDel_Save d' ((fst demo_booked)\<lparr>m_byDel := (m_byDel (fst demo_booked))(2 :=
         m_byDel (fst demo_booked) 2 @ [e])\<rparr>)))"
    unfolding demo_Custody mem_custody_Record [OF fresh]
    using d v e d' by (simp add: record_input_of_def ty Let_def)
  have "NewServer demo_api demo_call demo_request (fst demo_booked, ()) =
      Custody_Record demo_api demo_call ''bolt_food'' ''2'' demo_request (fst demo_booked, ())"
    using rider by (simp add: NewServer_def route_def with_rider_auth_def demo_request_def)
  also have "\<dots> = (RCustody (e_EventID e) (e_SequenceNum e) (e_Hash e) (e_OccurredAt e),
      snd (memDel_Save d' ((fst demo_booked)\<lparr>m_byDel := (m_byDel (fst demo_booked))(2 :=
         m_byDel (fst demo_booked) 2 @ [e])\<rparr>)), ())"
    by (simp add: Custody_Record_def demo_api_def demo_http_def demo_call_def demo_request_def rec)
  finally show ?thesis by (simp add: memDel_Save_def Let_def)
qed

theorem no_anonymous_writes_witness:
  "bf_RiderSecret demo_cfg \<noteq> [] \<and> apiKeyFromRequest (hr_Headers demo_request) = ''bolt_food:'' @ bf_RiderSecret demo_cfg"
proof -
  obtain resp mw' where s: "NewServer demo_api demo_call demo_request (fst demo_booked, ()) = (resp, mw')"
    "m_byDel (fst mw') 2 \<noteq> []" using demo_rider_writes by blast
  have "mw' \<noteq> (fst demo_booked, ())" using s(2) demo_booked_run by auto
  moreover have "app_with demo_rt (mem_repos demo_rt) demo_cfg = Inr (api_App demo_api)" using demo_with by (simp add: demo_api_def)
  ultimately show ?thesis
    using no_anonymous_writes [of demo_rt "mem_repos demo_rt" demo_cfg demo_api, OF _ s(1)] by (simp add: demo_request_def)
qed

section \<open>Delivery and parcel\<close>

definition demo_delivery :: "dstate \<Rightarrow> delivery" where
  "demo_delivery st =
     \<lparr>d_ID = 2, d_AWBID = 1, d_LegNumber = 1, d_CarrierID = ''bolt_food'', d_CarrierVersion = ''v1'',
      d_CarrierExternalID = ''X1'', d_Pickup = booking_pickup demo_input, d_Drop = booking_drop demo_input,
      d_ScheduledWindowStart = None, d_ScheduledWindowEnd = None, d_State = st, d_StateReason = [], d_Rider = None,
      d_PriceQuotedMinor = 0, d_PriceChargedMinor = 0, d_PriceCurrency = ''RON'', d_EstimatedPickupAt = None,
      d_EstimatedDropAt = None, d_ActualPickupAt = None, d_ActualDropAt = None, d_IdempotencyKey = [],
      d_Metadata = None, d_CreatedAt = demo_time 0, d_UpdatedAt = demo_time 0\<rparr>"

theorem delivered_only_after_pickup_witness:
  "subseq [StateAssigned, StateEnRoutePickup, StatePickedUp, StateDelivered]
     [StateAssigned, StateEnRoutePickup, StatePickedUp, StateInTransit, StateDelivered]"
proof -
  let ?cs = "map (\<lambda>s. (demo_time 2, s, [] :: string))
    [StateAssigned, StateEnRoutePickup, StatePickedUp, StateInTransit, StateDelivered]"
  obtain d' where "Transitions (demo_delivery StatePending) ?cs = Inr d'" "d_State d' = StateDelivered"
    by (simp add: Transition_def canTransitionTo_edge demo_delivery_def)
  from delivered_only_after_pickup [OF this(1) _ this(2)] show ?thesis by (simp add: demo_delivery_def)
qed

theorem no_dead_end_witness:
  "\<exists>cs d'. Transitions (demo_delivery StateFailed) cs = Inr d' \<and> d_State d' = StateDelivered"
  by (rule no_dead_end) (simp_all add: demo_delivery_def IsTerminal_def)

theorem terminal_iff_stuck_witness:
  "\<forall>now to reason. \<not> is_ok (Transition now (demo_delivery StateCancelled) to reason)"
  using terminal_iff_stuck [of "demo_delivery StateCancelled"]
  by (simp add: demo_delivery_def IsTerminal_def)

theorem cancel_possible_after_pickup_witness:
  "\<exists>d4 :: delivery. d_State d4 = StateCancelled \<and> d_ActualPickupAt d4 = Some (demo_time 3)"
proof -
  have "d_State (demo_delivery StateEnRoutePickup) = StateEnRoutePickup" by (simp add: demo_delivery_def)
  from cancel_possible_after_pickup [OF this, of "demo_time 3" "demo_time 3" "''late''" "''gone''"] show ?thesis
    by blast
qed

definition demo_awb :: awb where
  "demo_awb =
     \<lparr>a_ID = 1, a_InternalAWB = ''DF-2026-AEBAGBAF'', a_RetailerID = 1, a_CustomerID = None,
      a_ExternalAWBs = [\<lparr>x_Carrier = ''sameday'', x_AWB = ''EXT1'', x_Role = AwbRoleMidMile\<rparr>],
      a_Package = booking_package demo_input, a_State = AwbAtLocker, a_StateReason = [],
      a_CreatedAt = demo_time 0, a_UpdatedAt = demo_time 0\<rparr>"

theorem AttachExternal_distinct_witness:
  "set (awb_tracking (AttachExternal (demo_time 1) demo_awb ''bolt_food'' ''X1'' AwbRoleLastMile)) =
     {(''sameday'', ''EXT1''), (''bolt_food'', ''X1'')}"
proof -
  have "distinct (awb_tracking demo_awb)" by (simp add: demo_awb_def awb_tracking_def)
  from AttachExternal_distinct [OF this, of "demo_time 1" "''bolt_food''" "''X1''" AwbRoleLastMile] show ?thesis
    by (auto simp: demo_awb_def awb_tracking_def)
qed

theorem generateInternalAWB_inj_witness:
  "generateInternalAWB (Inr [1, 2, 3, 4, 5]) (demo_time 0) \<noteq> generateInternalAWB (Inr [1, 2, 3, 4, 6]) (demo_time 0)"
  using generateInternalAWB_inj [of "[1, 2, 3, 4, 5]" "[1, 2, 3, 4, 6]" "demo_time 0"] by auto

section \<open>One booking of another retailer\<close>

definition demo_shop :: mem where
  "demo_shop = mem_empty\<lparr>m_delByID := [2 \<mapsto> demo_delivery StatePending], m_awbByID := [1 \<mapsto> demo_awb]\<rparr>"

theorem booking_only_for_owner_witness:
  "Bookings_Get demo_api demo_other_retailer ''5'' (mem_empty, ()) = (RErr 404 ''not_found'' ''not found'', mem_empty, ()) \<and>
   Bookings_Get demo_api demo_other_retailer ''5'' (demo_shop, ()) = (RErr 404 ''not_found'' ''booking not found'', demo_shop, ())"
proof -
  have owner: "owner_of mem_empty 2 = None" "owner_of demo_shop 2 = Some 1"
    by (simp_all add: owner_of_def mem_empty_def demo_shop_def demo_delivery_def demo_awb_def)
  have api: "bk_AWBs (app_Booking (api_App demo_api)) = mem_awb_repo"
    "bk_Deliveries (app_Booking (api_App demo_api)) = mem_delivery_repo (rt_del_order demo_rt)"
    "he_UuidParse (api_env demo_api) ''5'' = Inr 2"
    using demo_wired by (simp_all add: demo_api_def demo_http_def app_wired_def mem_repos_def)
  show ?thesis
    using booking_only_for_owner [OF api, of "(mem_empty, ())" demo_other_retailer "''not found''"]
      booking_only_for_owner [OF api, of "(demo_shop, ())" demo_other_retailer "''booking not found''"] owner
    by (simp add: demo_other_retailer_def)
qed

section \<open>Routing and carriers\<close>

definition demo_caps :: "string \<Rightarrow> capabilities" where
  "demo_caps i =
     \<lparr>c_ID = i, c_Name = i, c_Roles = [RoleLastMile], c_MaxWeightKg = Num 15,
      c_MaxDimensionsCm = (Num 60, Num 40, Num 40), c_Zones = [], c_DeliveryModes = [DeliveryInstant],
      c_PickupModes = [PickupAddress], c_POD = [], c_SLA = \<lparr>sl_AvgPickupTime = 0, sl_AvgDeliveryTime = 0, sl_MaxDelay = 0\<rparr>,
      c_SupportsLocker = False, c_AuthScheme = AuthBearerToken,
      c_APIRateLimit = \<lparr>rl_Requests = 60, rl_PerSecond = Num 1\<rparr>, c_Quirks = []\<rparr>"

definition demo_estimate :: "int64 \<Rightarrow> estimate" where
  "demo_estimate price =
     \<lparr>es_Cost = \<lparr>mo_Currency = ''RON'', mo_Minor = price\<rparr>, es_EstimatedETA = price, es_WindowStartAt = None,
      es_WindowEndAt = None, es_ConfidenceScore = Num (1 / 2)\<rparr>"

definition demo_port :: "string \<Rightarrow> int64 \<Rightarrow> unit carrier_port" where
  "demo_port i price = (bolt_New demo_bolt demo_cfg)
     \<lparr>cp_Capabilities := demo_caps i, cp_GetEstimate := \<lambda>q w. (Inr (demo_estimate price), w)\<rparr>"

definition demo_candidate :: "string \<Rightarrow> int64 \<Rightarrow> unit candidate" where
  "demo_candidate i price =
     \<lparr>cd_Carrier = demo_port i price, cd_Estimate = demo_estimate price, cd_Available = True, cd_Err = None\<rparr>"

definition demo_candidates :: "unit candidate list" where
  "demo_candidates = [demo_candidate ''a'' 900, demo_candidate ''b'' 700]"

definition demo_engine :: "unit engine" where
  "demo_engine = \<lparr>en_ListByRole = (\<lambda>r. [demo_port ''a'' 900, demo_port ''b'' 700]), en_strategy = CheapestStrategy\<rparr>"

definition demo_shipment :: shipment_request where
  "demo_shipment =
     (let d = (buildShipmentRequest demo_awb (demo_delivery StatePending))
      in d\<lparr>sr_Pickup := (sr_Pickup d)\<lparr>pl_Type := PickupAddress\<rparr>\<rparr>)"

lemma demo_port_estimate [simp]: "cp_GetEstimate (demo_port i price) q w = (Inr (demo_estimate price), w)"
  by (simp add: demo_port_def)

lemma demo_eligible: "eligible_one demo_shipment RoleLastMile (demo_port i price)"
  by (simp add: eligible_one_iff demo_port_def demo_caps_def demo_shipment_def buildShipmentRequest_def Let_def
      demo_awb_def booking_package_def demo_input_def exceedsDims_def sortDesc_def swap01_def swap02_def swap12_def)

theorem Decide_cheapest_witness:
  "\<exists>d. fst (Decide demo_engine (demo_time 1) demo_shipment RoleLastMile ()) = Inr d \<and>
     dc_Chosen d \<in> {demo_port ''a'' 900, demo_port ''b'' 700} \<and>
     eligible_one demo_shipment RoleLastMile (dc_Chosen d)"
proof -
  obtain d where d: "Decide demo_engine (demo_time 1) demo_shipment RoleLastMile () = (Inr d, ())"
    by (simp add: Decide_def demo_engine_def eligible_def demo_eligible CheapestStrategy_def CheapestSelect_def
        Let_def cost_def demo_estimate_def split: if_split)
  have "en_strategy demo_engine = CheapestStrategy" by (simp add: demo_engine_def)
  from Decide_cheapest [OF this d] d show ?thesis by (simp add: demo_engine_def)
qed

theorem exceedsDims_iff_witness:
  "\<not> exceedsDims (sr_Package demo_shipment\<lparr>pp_LengthCm := Num 40, pp_WidthCm := Num 30, pp_HeightCm := Num 60\<rparr>)
     (Num 60, Num 40, Num 40)"
  by (subst exceedsDims_iff) (simp_all add: dims_nan_def dims_perms_def dims_fit_def)

theorem FastestSelect_spec_witness:
  "\<exists>sel. FastestSelect demo_shipment demo_candidates = Inr sel \<and>
     (\<exists>i < 2. se_Carrier sel = cd_Carrier (demo_candidates ! i))"
proof -
  obtain sel where "FastestSelect demo_shipment demo_candidates = Inr sel"
    by (cases "700 <s (900 :: int64)")
      (simp_all add: FastestSelect_def demo_candidates_def demo_candidate_def eta_def demo_estimate_def)
  with FastestSelect_spec [of demo_candidates demo_shipment]
  have "\<exists>i < length demo_candidates. se_Carrier sel = cd_Carrier (demo_candidates ! i)" by auto
  then show ?thesis using \<open>FastestSelect demo_shipment demo_candidates = Inr sel\<close>
    by (simp add: demo_candidates_def numeral_2_eq_2)
qed

theorem weighted_terms_unit_witness:
  "f_upto 1 (normalize (f_int 900) (f_int 700) (f_int 900))"
  using weighted_terms_unit [of "demo_candidate ''a'' 900" demo_candidates 700 900 700 900]
  by (simp add: demo_candidates_def demo_candidate_def demo_estimate_def cost_def eta_def minMaxCost_def
      minMaxETA_def word_sless_alt)

definition demo_weights :: weights where
  "demo_weights = \<lparr>CostWeight = Num 1, ETAWeight = Num (1 / 2), ConfidenceWeight = Num 0\<rparr>"

definition demo_mixed :: "unit candidate list" where
  "demo_mixed = [demo_candidate ''a'' 900, (demo_candidate ''b'' 700)\<lparr>cd_Available := False\<rparr>]"

lemma normalize_same: "\<not> f_nan m \<Longrightarrow> normalize v m m = Num 0"
  by (simp add: normalize_def f_eq_def)

lemma f_int_not_nan: "\<not> f_nan (f_int i)"
  by (simp add: f_int_def f_round_def f_zero_def f_inf_def Let_def)

theorem WeightedSelect_spec_witness:
  "\<exists>sel. WeightedSelect demo_weights demo_shipment demo_mixed = Inr sel \<and>
     se_Carrier sel = demo_port ''a'' 900"
proof -
  have av: "filterAvailable demo_mixed = [demo_candidate ''a'' 900]"
    by (simp add: demo_mixed_def demo_candidate_def)
  have zero: "f_mul NegZero (Num 1) = NegZero" "f_mul (Num 0) (Num (1 / 2)) = Num 0"
    "f_sub NegZero (Num 0) = NegZero" "f_mul (Num (1 / 2)) (Num 0) = Num 0" "f_add NegZero (Num 0) = Num 0"
    by (simp_all add: f_mul_def f_sub_def f_add_def f_round_def f_zero_def Let_def)
  have nan: "\<forall>c \<in> set demo_mixed. cd_Available c \<longrightarrow>
      \<not> f_nan (weighted_score demo_weights (minMaxCost (filterAvailable demo_mixed))
        (minMaxETA (filterAvailable demo_mixed)) c)"
    by (simp add: av demo_mixed_def minMaxCost_def minMaxETA_def weighted_score_def demo_weights_def
        demo_candidate_def demo_estimate_def normalize_same f_int_not_nan zero Let_def)
  then show ?thesis
    using WeightedSelect_spec [OF nan, of demo_shipment]
    by (cases "WeightedSelect demo_weights demo_shipment demo_mixed")
      (auto simp: demo_mixed_def demo_candidate_def)
qed

section \<open>Registry, storage, price, Bolt\<close>

lemma demo_Wire: "Wire demo_bolt demo_cfg = Inr (app_Carriers demo_app)"
  using app_with_parts(2) [OF demo_with] demo_wired by (simp add: app_wired_def demo_rt_def)

lemma demo_registry: "reg_reach (app_Carriers demo_app)"
  using demo_Wire by (rule Wire_reach)

lemma demo_registry_eq:
  "app_Carriers demo_app = \<lparr>rg_byID = [''bolt_food'' \<mapsto> [''v1'' \<mapsto> bolt_New demo_bolt demo_cfg]],
     rg_primary = [''bolt_food'' \<mapsto> ''v1''], rg_enabled = [(''bolt_food'', ''v1'') \<mapsto> True]\<rparr>"
  using demo_Wire by (simp add: Wire_ok)

theorem ListByRole_spec_witness:
  "\<exists>l. ListByRole (app_Carriers demo_app) [''bolt_food''] RoleLastMile = Some l \<and>
     bolt_New demo_bolt demo_cfg \<in> set l"
proof -
  have "range_order (rg_primary (app_Carriers demo_app)) [''bolt_food'']"
    by (simp add: range_order_def demo_registry_eq)
  from ListByRole_spec [OF demo_registry this, of RoleLastMile] show ?thesis
    by (auto simp: demo_registry_eq rg_adapter_def rg_on_def bolt_New_def buildCapabilities_def)
qed

theorem Register_spec_witness:
  "\<exists>r'. Register ''v2'' (Some (bolt_New demo_bolt demo_cfg)) (app_Carriers demo_app) = (None, r') \<and>
     GetVersion r' ''bolt_food'' ''v2'' = Inr (bolt_New demo_bolt demo_cfg) \<and>
     reg_Get r' ''bolt_food'' = reg_Get (app_Carriers demo_app) ''bolt_food''"
proof -
  have i: "c_ID (cp_Capabilities (bolt_New demo_bolt demo_cfg)) = ''bolt_food''"
    by (simp add: bolt_New_def buildCapabilities_def)
  obtain r' where r': "Register ''v2'' (Some (bolt_New demo_bolt demo_cfg)) (app_Carriers demo_app) = (None, r')"
    by (simp add: Register_def Let_def i demo_registry_eq rg_adapter_def)
  from Register_spec [OF demo_registry this] r' show ?thesis by (auto simp: i demo_registry_eq)
qed

definition demo_store :: mem where
  "demo_store = snd (memDel_Save (demo_delivery StatePending) mem_empty)"

lemma demo_store_dels: "m_delByID demo_store = [2 \<mapsto> demo_delivery StatePending]"
  by (simp add: demo_store_def memDel_Save_def Let_def mem_empty_def demo_delivery_def)

lemma demo_store_inv: "mem_inv demo_store"
  by (simp add: mem_inv_def demo_store_def memDel_Save_def Let_def mem_empty_def demo_delivery_def)

lemma demo_store_order: "range_order (m_delByID demo_store) (rt_del_order demo_rt (m_delByID demo_store))"
  by (simp add: range_order_def demo_rt_def demo_store_dels)

theorem GetByCarrierExternalID_order_witness:
  "\<exists>d. memDel_GetByCarrierExternalID (rt_del_order demo_rt) ''bolt_food'' ''X1'' demo_store = Inr d"
proof -
  let ?P = "\<lambda>d. d_CarrierID d = ''bolt_food'' \<and> d_CarrierExternalID d = ''X1''"
  have "\<forall>i j d e. m_delByID demo_store i = Some d \<longrightarrow> m_delByID demo_store j = Some e \<longrightarrow> ?P d \<longrightarrow> ?P e \<longrightarrow> i = j"
    by (simp add: demo_store_dels)
  note spec = GetByCarrierExternalID_order [OF demo_store_inv, where ord = "rt_del_order demo_rt", OF demo_store_order this]
  have "m_delByID demo_store 2 = Some (demo_delivery StatePending) \<and> ?P (demo_delivery StatePending)"
    by (simp add: demo_store_dels demo_delivery_def)
  then have "\<exists>i d. m_delByID demo_store i = Some d \<and> ?P d" by blast
  then show ?thesis unfolding spec by (simp only: if_True) blast
qed

theorem ListByState_spec_witness:
  "\<exists>ds. memDel_ListByState (rt_del_order demo_rt) StatePending 10 demo_store = Inr ds \<and> length ds = 1"
proof -
  have "{i. \<exists>d. m_delByID demo_store i = Some d \<and> d_State d = StatePending} = {2}"
    by (auto simp: demo_store_dels demo_delivery_def split: if_splits)
  then show ?thesis
    using ListByState_spec [OF demo_store_inv, where ord = "rt_del_order demo_rt", OF demo_store_order, of 10 StatePending]
    by auto
qed

definition demo_pricing :: pricing_request where
  "demo_pricing = \<lparr>pq_Pickup = \<lparr>co_Lat = Num 44, co_Lng = Num 26\<rparr>, pq_Drop = \<lparr>co_Lat = Num 44, co_Lng = Num 27\<rparr>,
     pq_WeightKg = Num 2, pq_SlotStart = None, pq_DiscountCode = ''FIRST_FREE''\<rparr>"

lemma demo_distance: "haversineMeters demo_math a b = Num 0"
proof -
  have "f_mul (f_int 2) (Num 0) = Num 0" "f_mul (f_const 6371000) (Num 0) = Num 0" by code_simp+
  then show ?thesis by (simp add: haversineMeters_def demo_math_def Let_def)
qed

theorem Quote_default_total_witness: "sint (mo_Minor (q_Total (Quote demo_math pricing_Default demo_pricing))) = 0"
proof -
  have "f_upto 21000000 (haversineMeters demo_math (pq_Pickup demo_pricing) (pq_Drop demo_pricing))"
    by (simp add: demo_distance f_upto_def)
  from Quote_default_total [OF this] show ?thesis by (simp add: demo_pricing_def)
qed

theorem haversineMeters_symmetric_witness:
  "haversineMeters (demo_math\<lparr>math_Sin := (\<lambda>x. x)\<rparr>) (pq_Pickup demo_pricing) (pq_Drop demo_pricing) =
   haversineMeters (demo_math\<lparr>math_Sin := (\<lambda>x. x)\<rparr>) (pq_Drop demo_pricing) (pq_Pickup demo_pricing)"
  by (rule haversineMeters_symmetric) simp

theorem ToDomainEvents_spec_witness:
  "\<exists>ev. ToDomainEvents \<lparr>bw_Event = ''order.delivered'', bw_OrderID = ''X1'', bw_Timestamp = demo_time 4, bw_Rider = None,
       bw_Location = None, bw_PhotoURL = [], bw_Reason = []\<rparr> = [ev] \<and> ev_ExternalID ev = ''X1''"
proof -
  let ?wh = "\<lparr>bw_Event = ''order.delivered'', bw_OrderID = ''X1'', bw_Timestamp = demo_time 4, bw_Rider = None,
       bw_Location = None, bw_PhotoURL = [], bw_Reason = []\<rparr>"
  have "length (ToDomainEvents ?wh) \<le> 1" "ToDomainEvents ?wh \<noteq> []"
    "\<forall>ev \<in> set (ToDomainEvents ?wh). ev_ExternalID ev = ''X1''"
    using ToDomainEvents_spec [of ?wh] by simp_all
  then show ?thesis by (cases "ToDomainEvents ?wh") auto
qed

end
