(* ===== verification/Json.thy ===== *)
theory Json
  imports Delivery Awb Custody
begin

text \<open>
  What \<open>encoding/json\<close> does with the structs the program stores, at the level of documents: a
  struct is an object with one member per field (none of the stored structs has tags, so a key is
  the Go name of its field), a nil pointer or slice is \<open>null\<close>, a NaN or an infinity is refused,
  and a string is written with its invalid UTF-8 replaced. A number is kept as the float it is
  read as, an integer as the exact number. \<open>jsonb\<close> is the column type the documents are stored
  in: it has no negative zero and refuses strings with the character 0.
  Decoding reads the keys the program wrote; a key that is missing, or \<open>null\<close>, leaves the zero value.
\<close>

section \<open>Sequencing of fallible functions\<close>

definition on_ok :: "'e + 'a \<Rightarrow> ('a \<Rightarrow> 'e + 'b) \<Rightarrow> 'e + 'b" where
  "on_ok r f = (case r of Inl err \<Rightarrow> Inl err | Inr x \<Rightarrow> f x)"

fun each_ok :: "('a \<Rightarrow> 'e + 'b) \<Rightarrow> 'a list \<Rightarrow> 'e + 'b list" where
  "each_ok f [] = Inr []"
| "each_ok f (x # xs) = on_ok (f x) (\<lambda>y. on_ok (each_ok f xs) (\<lambda>ys. Inr (y # ys)))"

lemma on_ok_simps [simp]: "on_ok (Inr x) f = f x" "on_ok (Inl err) f = Inl err"
  by (simp_all add: on_ok_def)

lemma on_ok_Inr_iff [simp]: "on_ok r f = Inr y \<longleftrightarrow> (\<exists>x. r = Inr x \<and> f x = Inr y)"
  by (cases r) simp_all

lemma on_ok_Inl_iff: "on_ok r f = Inl err \<longleftrightarrow> r = Inl err \<or> (\<exists>x. r = Inr x \<and> f x = Inl err)"
  by (cases r) simp_all

lemma each_ok_Inr: "(\<And>x. x \<in> set xs \<Longrightarrow> f x = Inr (g x)) \<Longrightarrow> each_ok f xs = Inr (map g xs)"
  by (induction xs) auto

lemma each_ok_map: "each_ok f (map g xs) = each_ok (f \<circ> g) xs"
  by (induction xs) auto

lemma each_ok_Inr_iff: "each_ok f xs = Inr ys \<longleftrightarrow> list_all2 (\<lambda>x y. f x = Inr y) xs ys"
  by (induction xs arbitrary: ys) (auto simp: list_all2_Cons1)

section \<open>Strings\<close>

text \<open>
  The number of bytes of the rune a string starts with, as \<open>utf8.DecodeRune\<close> reads it, and 0
  where the bytes are not the encoding of one (overlong forms, surrogates and values beyond
  U+10FFFF included).
\<close>

definition utf8_continues :: "nat \<Rightarrow> string \<Rightarrow> bool" where
  "utf8_continues n cs \<longleftrightarrow> n \<le> length cs \<and> (\<forall>c \<in> set (take n cs). of_char c div 64 = (2 :: int))"

text \<open>The number of bytes a rune has, by its first byte and the range the second has to be in.\<close>

definition utf8_lead :: "int \<Rightarrow> int \<Rightarrow> nat" where
  "utf8_lead b b1 =
     (if b < 128 then 1
      else if 194 \<le> b \<and> b < 224 then 2
      else if 224 \<le> b \<and> b < 240 \<and> (b = 224 \<longrightarrow> 160 \<le> b1) \<and> (b = 237 \<longrightarrow> b1 < 160) then 3
      else if 240 \<le> b \<and> b < 245 \<and> (b = 240 \<longrightarrow> 144 \<le> b1) \<and> (b = 244 \<longrightarrow> b1 < 144) then 4
      else 0)"

definition second_byte :: "string \<Rightarrow> int" where
  "second_byte cs = (case cs of [] \<Rightarrow> 0 | c # _ \<Rightarrow> of_char c)"

fun utf8_width :: "string \<Rightarrow> nat" where
  "utf8_width [] = 0"
| "utf8_width (c # cs) =
     (let w = utf8_lead (of_char c) (second_byte cs) in if utf8_continues (w - 1) cs then w else 0)"

definition rune_error :: string where
  "rune_error = map char_of [239, 191, 189 :: int]"

text \<open>The string \<open>json.Marshal\<close> writes: every byte that starts no rune becomes U+FFFD.\<close>

fun utf8_coerce :: "string \<Rightarrow> string" where
  "utf8_coerce [] = []"
| "utf8_coerce (c # cs) =
     (let w = utf8_width (c # cs)
      in if w = 0 then rune_error @ utf8_coerce cs
         else c # take (w - 1) cs @ utf8_coerce (drop (w - 1) cs))"

fun utf8_valid :: "string \<Rightarrow> bool" where
  "utf8_valid [] = True"
| "utf8_valid (c # cs) =
     (let w = utf8_width (c # cs) in w \<noteq> 0 \<and> utf8_valid (drop (w - 1) cs))"

declare utf8_coerce.simps(2) [simp del] utf8_valid.simps(2) [simp del]

lemma utf8_coerce_valid [simp]: "utf8_valid s \<Longrightarrow> utf8_coerce s = s"
  by (induction s rule: utf8_coerce.induct)
    (auto simp: utf8_coerce.simps(2) utf8_valid.simps(2) Let_def)

lemma utf8_continues_0 [simp]: "utf8_continues 0 cs"
  by (simp add: utf8_continues_def)

lemma utf8_valid_ascii: "\<forall>c \<in> set s. of_char c < (128 :: int) \<Longrightarrow> utf8_valid s"
  by (induction s) (simp_all add: utf8_valid.simps(2) utf8_lead_def)

lemma utf8_coerce_Nil_iff [simp]: "utf8_coerce s = [] \<longleftrightarrow> s = []"
  by (cases s) (auto simp: utf8_coerce.simps(2) rune_error_def Let_def)

text \<open>What is written is valid, so that writing it again changes nothing.\<close>

lemma utf8_lead_1: "utf8_lead b x = Suc 0 \<longleftrightarrow> b < 128"
  by (simp add: utf8_lead_def)

lemma utf8_width_take:
  assumes "utf8_width (c # cs) = Suc n"
  shows "n \<le> length cs \<and> utf8_width (c # take n cs @ ds) = Suc n"
proof -
  have lead: "utf8_lead (of_char c) (second_byte cs) = Suc n" and cont: "utf8_continues n cs"
    using assms by (auto simp: Let_def split: if_splits)
  have "utf8_lead (of_char c) (second_byte (take n cs @ ds)) = Suc n"
  proof (cases n)
    case 0
    with lead show ?thesis by (simp add: utf8_lead_1)
  next
    case (Suc m)
    with cont obtain c1 cs1 where "cs = c1 # cs1" by (cases cs) (auto simp: utf8_continues_def)
    with Suc lead show ?thesis by (simp add: second_byte_def)
  qed
  with cont show ?thesis by (simp add: utf8_continues_def)
qed

lemma utf8_valid_rune_error: "utf8_valid (rune_error @ s) = utf8_valid s"
  by (simp add: rune_error_def utf8_valid.simps(2) utf8_lead_def second_byte_def utf8_continues_def
      numeral_2_eq_2)

lemma utf8_valid_coerce [simp]: "utf8_valid (utf8_coerce s)"
proof (induction s rule: utf8_coerce.induct)
  case (2 c cs)
  show ?case
  proof (cases "utf8_width (c # cs)")
    case 0
    with 2 show ?thesis by (simp add: utf8_coerce.simps(2) utf8_valid_rune_error)
  next
    case (Suc n)
    with 2 utf8_width_take [OF Suc] show ?thesis
      by (simp add: utf8_coerce.simps(2) utf8_valid.simps(2))
  qed
qed simp

section \<open>The column type\<close>

definition f_pos0 :: "f64 \<Rightarrow> f64" where
  "f_pos0 x = (if x = NegZero then Num 0 else x)"

lemma f_pos0_id [simp]: "x \<noteq> NegZero \<Longrightarrow> f_pos0 x = x" "f_pos0 (f_pos0 x) = f_pos0 x"
  by (simp_all add: f_pos0_def)

primrec jsonb_value :: "json \<Rightarrow> json" where
  "jsonb_value JNull = JNull"
| "jsonb_value (JBool b) = JBool b"
| "jsonb_value (JNum x) = JNum (f_pos0 x)"
| "jsonb_value (JStr s) = JStr s"
| "jsonb_value (JArr js) = JArr (map jsonb_value js)"
| "jsonb_value (JObj kvs) = JObj (map (map_prod id jsonb_value) kvs)"

primrec json_has_nul :: "json \<Rightarrow> bool" where
  "json_has_nul JNull = False"
| "json_has_nul (JBool b) = False"
| "json_has_nul (JNum x) = False"
| "json_has_nul (JStr s) = (CHR 0x00 \<in> set s)"
| "json_has_nul (JArr js) = list_ex (\<lambda>b. b) (map json_has_nul js)"
| "json_has_nul (JObj kvs) =
     list_ex (\<lambda>kb. CHR 0x00 \<in> set (fst kb) \<or> snd kb) (map (map_prod id json_has_nul) kvs)"

section \<open>Reading and writing fields\<close>

definition json_unsupported :: goerror where
  "json_unsupported = External ''json: unsupported value''"

definition json_mismatch :: goerror where
  "json_mismatch = External ''json: cannot unmarshal''"

definition put_str :: "string \<Rightarrow> json" where
  "put_str s = JStr (utf8_coerce s)"

definition put_int :: "int64 \<Rightarrow> json" where
  "put_int i = JNum (Num (of_int (sint i)))"

definition put_float :: "f64 \<Rightarrow> goerror + json" where
  "put_float x = (if f_finite x then Inr (JNum x) else Inl json_unsupported)"

definition put_list :: "('a \<Rightarrow> goerror + json) \<Rightarrow> 'a list \<Rightarrow> goerror + json" where
  "put_list f xs = on_ok (each_ok f xs) (\<lambda>js. Inr (JArr js))"

definition put_ptr :: "('a \<Rightarrow> goerror + json) \<Rightarrow> 'a option \<Rightarrow> goerror + json" where
  "put_ptr f p = (case p of None \<Rightarrow> Inr JNull | Some x \<Rightarrow> f x)"

text \<open>The member of an object, \<open>null\<close> when there is none.\<close>

definition member :: "(string \<times> json) list \<Rightarrow> string \<Rightarrow> json" where
  "member kvs k = (case map_of kvs k of None \<Rightarrow> JNull | Some j \<Rightarrow> j)"

fun get_str :: "json \<Rightarrow> goerror + string" where
  "get_str JNull = Inr []"
| "get_str (JStr s) = Inr s"
| "get_str _ = Inl json_mismatch"

fun get_bool :: "json \<Rightarrow> goerror + bool" where
  "get_bool JNull = Inr False"
| "get_bool (JBool b) = Inr b"
| "get_bool _ = Inl json_mismatch"

fun get_float :: "json \<Rightarrow> goerror + f64" where
  "get_float JNull = Inr (Num 0)"
| "get_float (JNum x) = Inr x"
| "get_float _ = Inl json_mismatch"

definition int_of_num :: "f64 \<Rightarrow> goerror + int64" where
  "int_of_num x =
     (case x of
        Num q \<Rightarrow> (if q = of_int \<lfloor>q\<rfloor> \<and> int64_range \<lfloor>q\<rfloor> then Inr (of_int \<lfloor>q\<rfloor>) else Inl json_mismatch)
      | _ \<Rightarrow> Inl json_mismatch)"

fun get_int :: "json \<Rightarrow> goerror + int64" where
  "get_int JNull = Inr 0"
| "get_int (JNum x) = int_of_num x"
| "get_int _ = Inl json_mismatch"

text \<open>A struct: \<open>null\<close> reads no field, which leaves the zero value.\<close>

definition get_struct :: "((string \<times> json) list \<Rightarrow> goerror + 'a) \<Rightarrow> json \<Rightarrow> goerror + 'a" where
  "get_struct f j = (case j of JObj kvs \<Rightarrow> f kvs | JNull \<Rightarrow> f [] | _ \<Rightarrow> Inl json_mismatch)"

definition get_list :: "(json \<Rightarrow> goerror + 'a) \<Rightarrow> json \<Rightarrow> goerror + 'a list" where
  "get_list f j = (case j of JArr js \<Rightarrow> each_ok f js | JNull \<Rightarrow> Inr [] | _ \<Rightarrow> Inl json_mismatch)"

definition get_ptr :: "(json \<Rightarrow> goerror + 'a) \<Rightarrow> json \<Rightarrow> goerror + 'a option" where
  "get_ptr f j = (if j = JNull then Inr None else on_ok (f j) (\<lambda>x. Inr (Some x)))"

lemma int_of_num_of_int: "int64_range n \<Longrightarrow> int_of_num (Num (of_int n)) = Inr (of_int n)"
  by (simp add: int_of_num_def)

lemma get_int_put [simp]: "get_int (jsonb_value (put_int i)) = Inr i"
  using int_of_num_of_int [OF int64_range_sint [of i]] by (simp add: put_int_def)

lemma get_str_put [simp]: "get_str (jsonb_value (put_str s)) = Inr (utf8_coerce s)"
  by (simp add: put_str_def)

lemma get_float_put: "put_float x = Inr j \<Longrightarrow> get_float (jsonb_value j) = Inr (f_pos0 x)"
  by (auto simp: put_float_def split: if_splits)

lemma put_float_Inr: "put_float x = Inr j \<longleftrightarrow> f_finite x \<and> j = JNum x"
  by (auto simp: put_float_def)

lemma member_simps [simp]:
  "member ((k, j) # kvs) k' = (if k' = k then j else member kvs k')" "member [] k' = JNull"
  by (simp_all add: member_def)

lemma member_jsonb: "member (map (map_prod id jsonb_value) kvs) k = jsonb_value (member kvs k)"
  by (induction kvs) (auto simp: member_def)

text \<open>A codec: what is written, stored and read back is \<open>keep x\<close>.\<close>

definition codec :: "('a \<Rightarrow> goerror + json) \<Rightarrow> (json \<Rightarrow> goerror + 'a) \<Rightarrow> ('a \<Rightarrow> 'a) \<Rightarrow> bool" where
  "codec put get keep \<longleftrightarrow>
     (\<forall>x j. put x = Inr j \<longrightarrow> get (jsonb_value j) = Inr (keep x) \<and> jsonb_value j \<noteq> JNull)"

lemma codecD: "codec put get keep \<Longrightarrow> put x = Inr j \<Longrightarrow> get (jsonb_value j) = Inr (keep x)"
  by (simp add: codec_def)

lemma codec_list:
  assumes "codec put get keep"
  shows "codec (put_list put) (get_list get) (map keep)"
proof -
  have "each_ok (get \<circ> jsonb_value) js = Inr (map keep xs)" if "each_ok put xs = Inr js" for xs js
    using that assms by (induction xs arbitrary: js) (auto simp: codec_def)
  then show ?thesis
    by (auto simp: codec_def put_list_def get_list_def each_ok_map)
qed

lemma ptr_roundtrip:
  assumes "codec put get keep" "put_ptr put p = Inr j"
  shows "get_ptr get (jsonb_value j) = Inr (map_option keep p)"
  using assms by (cases p) (auto simp: codec_def put_ptr_def get_ptr_def)


section \<open>Declared strings\<close>

text \<open>
  The conversion of any string to one of the string types, \<open>T(s)\<close>, and when a value is the one
  its string stands for: a declared string is never kept in the constructor for the others.
\<close>

definition declared_states :: "dstate list" where
  "declared_states =
     [StatePending, StateAssigned, StateEnRoutePickup, StatePickedUp, StateInTransit,
      StateEnRouteDrop, StateDelivered, StateFailed, StateCancelled, StateReturnedToOrigin]"

definition State_of :: "string \<Rightarrow> dstate" where
  "State_of s =
     (case List.find (\<lambda>st. state_string st = s) declared_states of Some st \<Rightarrow> st | None \<Rightarrow> StateOther s)"

fun location_type_string :: "location_type \<Rightarrow> string" where
  "location_type_string LocationAddress = ''address''"
| "location_type_string LocationLocker = ''locker''"
| "location_type_string LocationHub = ''hub''"
| "location_type_string (LocationOther s) = s"

definition LocationType_of :: "string \<Rightarrow> location_type" where
  "LocationType_of s =
     (if s = ''address'' then LocationAddress else if s = ''locker'' then LocationLocker
      else if s = ''hub'' then LocationHub else LocationOther s)"

fun awb_role_string :: "awb_role \<Rightarrow> string" where
  "awb_role_string AwbRoleFirstMile = ''first_mile''"
| "awb_role_string AwbRoleMidMile = ''mid_mile''"
| "awb_role_string AwbRoleLastMile = ''last_mile''"
| "awb_role_string (AwbRoleOther s) = s"

definition AwbRole_of :: "string \<Rightarrow> awb_role" where
  "AwbRole_of s =
     (if s = ''first_mile'' then AwbRoleFirstMile else if s = ''mid_mile'' then AwbRoleMidMile
      else if s = ''last_mile'' then AwbRoleLastMile else AwbRoleOther s)"

definition declared_awb_states :: "awb_state list" where
  "declared_awb_states =
     [AwbCreated, AwbAtLocker, AwbScheduled, AwbDispatched, AwbInTransit, AwbDelivered,
      AwbFailed, AwbCancelled, AwbReturned]"

definition AwbState_of :: "string \<Rightarrow> awb_state" where
  "AwbState_of s =
     (case List.find (\<lambda>st. awb_state_string st = s) declared_awb_states of
        Some st \<Rightarrow> st | None \<Rightarrow> AwbStateOther s)"

lemma State_of_declared: "declared_state st \<Longrightarrow> State_of (state_string st) = st"
  by (cases st) (simp_all add: State_of_def declared_states_def)

lemma AwbState_of_declared: "declared_awb_state st \<Longrightarrow> AwbState_of (awb_state_string st) = st"
  by (cases st) (simp_all add: AwbState_of_def declared_awb_states_def)

lemma LocationType_of_declared: "declared_location t \<Longrightarrow> LocationType_of (location_type_string t) = t"
  by (cases t) (simp_all add: LocationType_of_def)

section \<open>The stored structs\<close>

definition location_json :: "location \<Rightarrow> goerror + json" where
  "location_json l =
     on_ok (put_float (l_Lat l)) (\<lambda>lat. on_ok (put_float (l_Lng l)) (\<lambda>lng.
       Inr (JObj [(''Type'', put_str (location_type_string (l_Type l))), (''Lat'', lat), (''Lng'', lng),
         (''Address'', put_str (l_Address l)), (''LockerID'', put_str (l_LockerID l)),
         (''HubID'', put_str (l_HubID l)), (''Floor'', put_str (l_Floor l)),
         (''Apartment'', put_str (l_Apartment l)), (''Instructions'', put_str (l_Instructions l))])))"

definition location_of_json :: "json \<Rightarrow> goerror + location" where
  "location_of_json = get_struct (\<lambda>m.
     on_ok (get_str (member m ''Type'')) (\<lambda>t. on_ok (get_float (member m ''Lat'')) (\<lambda>lat.
     on_ok (get_float (member m ''Lng'')) (\<lambda>lng. on_ok (get_str (member m ''Address'')) (\<lambda>addr.
     on_ok (get_str (member m ''LockerID'')) (\<lambda>locker. on_ok (get_str (member m ''HubID'')) (\<lambda>hub.
     on_ok (get_str (member m ''Floor'')) (\<lambda>floor. on_ok (get_str (member m ''Apartment'')) (\<lambda>ap.
     on_ok (get_str (member m ''Instructions'')) (\<lambda>ins.
       Inr \<lparr>l_Type = LocationType_of t, l_Lat = lat, l_Lng = lng, l_Address = addr, l_LockerID = locker,
            l_HubID = hub, l_Floor = floor, l_Apartment = ap, l_Instructions = ins\<rparr>))))))))))"

definition keep_location :: "location \<Rightarrow> location" where
  "keep_location l =
     \<lparr>l_Type = LocationType_of (utf8_coerce (location_type_string (l_Type l))),
      l_Lat = f_pos0 (l_Lat l), l_Lng = f_pos0 (l_Lng l), l_Address = utf8_coerce (l_Address l),
      l_LockerID = utf8_coerce (l_LockerID l), l_HubID = utf8_coerce (l_HubID l),
      l_Floor = utf8_coerce (l_Floor l), l_Apartment = utf8_coerce (l_Apartment l),
      l_Instructions = utf8_coerce (l_Instructions l)\<rparr>"

definition rider_json :: "rider \<Rightarrow> goerror + json" where
  "rider_json r =
     Inr (JObj [(''ID'', put_str (r_ID r)), (''Name'', put_str (r_Name r)),
       (''Phone'', put_str (r_Phone r)), (''Vehicle'', put_str (r_Vehicle r))])"

definition rider_of_json :: "json \<Rightarrow> goerror + rider" where
  "rider_of_json = get_struct (\<lambda>m.
     on_ok (get_str (member m ''ID'')) (\<lambda>i. on_ok (get_str (member m ''Name'')) (\<lambda>n.
     on_ok (get_str (member m ''Phone'')) (\<lambda>p. on_ok (get_str (member m ''Vehicle'')) (\<lambda>v.
       Inr \<lparr>r_ID = i, r_Name = n, r_Phone = p, r_Vehicle = v\<rparr>)))))"

definition keep_rider :: "rider \<Rightarrow> rider" where
  "keep_rider r = \<lparr>r_ID = utf8_coerce (r_ID r), r_Name = utf8_coerce (r_Name r),
     r_Phone = utf8_coerce (r_Phone r), r_Vehicle = utf8_coerce (r_Vehicle r)\<rparr>"

definition actor_json :: "actor \<Rightarrow> goerror + json" where
  "actor_json a =
     Inr (JObj [(''Type'', put_str (ac_Type a)), (''CarrierID'', put_str (ac_CarrierID a)),
       (''ID'', put_str (ac_ID a)), (''Name'', put_str (ac_Name a))])"

definition actor_of_json :: "json \<Rightarrow> goerror + actor" where
  "actor_of_json = get_struct (\<lambda>m.
     on_ok (get_str (member m ''Type'')) (\<lambda>t. on_ok (get_str (member m ''CarrierID'')) (\<lambda>c.
     on_ok (get_str (member m ''ID'')) (\<lambda>i. on_ok (get_str (member m ''Name'')) (\<lambda>n.
       Inr \<lparr>ac_Type = t, ac_CarrierID = c, ac_ID = i, ac_Name = n\<rparr>)))))"

definition keep_actor :: "actor \<Rightarrow> actor" where
  "keep_actor a = \<lparr>ac_Type = utf8_coerce (ac_Type a), ac_CarrierID = utf8_coerce (ac_CarrierID a),
     ac_ID = utf8_coerce (ac_ID a), ac_Name = utf8_coerce (ac_Name a)\<rparr>"

definition geo_json :: "custody_geo \<Rightarrow> goerror + json" where
  "geo_json g =
     on_ok (put_float (cg_Lat g)) (\<lambda>lat. on_ok (put_float (cg_Lng g)) (\<lambda>lng.
     on_ok (put_float (cg_AccuracyM g)) (\<lambda>acc. on_ok (put_float (cg_Altitude g)) (\<lambda>alt.
     on_ok (put_float (cg_Heading g)) (\<lambda>hd.
       Inr (JObj [(''Lat'', lat), (''Lng'', lng), (''AccuracyM'', acc), (''Altitude'', alt),
         (''Heading'', hd)]))))))"

definition geo_of_json :: "json \<Rightarrow> goerror + custody_geo" where
  "geo_of_json = get_struct (\<lambda>m.
     on_ok (get_float (member m ''Lat'')) (\<lambda>lat. on_ok (get_float (member m ''Lng'')) (\<lambda>lng.
     on_ok (get_float (member m ''AccuracyM'')) (\<lambda>acc. on_ok (get_float (member m ''Altitude'')) (\<lambda>alt.
     on_ok (get_float (member m ''Heading'')) (\<lambda>hd.
       Inr \<lparr>cg_Lat = lat, cg_Lng = lng, cg_AccuracyM = acc, cg_Altitude = alt, cg_Heading = hd\<rparr>))))))"

definition keep_geo :: "custody_geo \<Rightarrow> custody_geo" where
  "keep_geo g = \<lparr>cg_Lat = f_pos0 (cg_Lat g), cg_Lng = f_pos0 (cg_Lng g),
     cg_AccuracyM = f_pos0 (cg_AccuracyM g), cg_Altitude = f_pos0 (cg_Altitude g),
     cg_Heading = f_pos0 (cg_Heading g)\<rparr>"

definition photo_json :: "photo_ref \<Rightarrow> goerror + json" where
  "photo_json p =
     on_ok (put_ptr geo_json (ph_ExifGPS p)) (\<lambda>gps.
       Inr (JObj [(''S3URI'', put_str (ph_S3URI p)), (''SHA256'', put_str (ph_SHA256 p)),
         (''ContentType'', put_str (ph_ContentType p)), (''Width'', put_int (ph_Width p)),
         (''Height'', put_int (ph_Height p)), (''ExifGPS'', gps)]))"

definition photo_of_json :: "json \<Rightarrow> goerror + photo_ref" where
  "photo_of_json = get_struct (\<lambda>m.
     on_ok (get_str (member m ''S3URI'')) (\<lambda>u. on_ok (get_str (member m ''SHA256'')) (\<lambda>h.
     on_ok (get_str (member m ''ContentType'')) (\<lambda>c. on_ok (get_int (member m ''Width'')) (\<lambda>w.
     on_ok (get_int (member m ''Height'')) (\<lambda>ht. on_ok (get_ptr geo_of_json (member m ''ExifGPS'')) (\<lambda>g.
       Inr \<lparr>ph_S3URI = u, ph_SHA256 = h, ph_ContentType = c, ph_Width = w, ph_Height = ht,
            ph_ExifGPS = g\<rparr>)))))))"

definition keep_photo :: "photo_ref \<Rightarrow> photo_ref" where
  "keep_photo p = \<lparr>ph_S3URI = utf8_coerce (ph_S3URI p), ph_SHA256 = utf8_coerce (ph_SHA256 p),
     ph_ContentType = utf8_coerce (ph_ContentType p), ph_Width = ph_Width p, ph_Height = ph_Height p,
     ph_ExifGPS = map_option keep_geo (ph_ExifGPS p)\<rparr>"

definition signature_json :: "signature_ref \<Rightarrow> goerror + json" where
  "signature_json s =
     Inr (JObj [(''S3URI'', put_str (sg_S3URI s)), (''SHA256'', put_str (sg_SHA256 s))])"

definition signature_of_json :: "json \<Rightarrow> goerror + signature_ref" where
  "signature_of_json = get_struct (\<lambda>m.
     on_ok (get_str (member m ''S3URI'')) (\<lambda>u. on_ok (get_str (member m ''SHA256'')) (\<lambda>h.
       Inr \<lparr>sg_S3URI = u, sg_SHA256 = h\<rparr>)))"

definition keep_signature :: "signature_ref \<Rightarrow> signature_ref" where
  "keep_signature s = \<lparr>sg_S3URI = utf8_coerce (sg_S3URI s), sg_SHA256 = utf8_coerce (sg_SHA256 s)\<rparr>"

definition external_json :: "external_ref \<Rightarrow> goerror + json" where
  "external_json x =
     Inr (JObj [(''Carrier'', put_str (x_Carrier x)), (''AWB'', put_str (x_AWB x)),
       (''Role'', put_str (awb_role_string (x_Role x)))])"

definition external_of_json :: "json \<Rightarrow> goerror + external_ref" where
  "external_of_json = get_struct (\<lambda>m.
     on_ok (get_str (member m ''Carrier'')) (\<lambda>c. on_ok (get_str (member m ''AWB'')) (\<lambda>a.
     on_ok (get_str (member m ''Role'')) (\<lambda>r.
       Inr \<lparr>x_Carrier = c, x_AWB = a, x_Role = AwbRole_of r\<rparr>))))"

definition keep_external :: "external_ref \<Rightarrow> external_ref" where
  "keep_external x = \<lparr>x_Carrier = utf8_coerce (x_Carrier x), x_AWB = utf8_coerce (x_AWB x),
     x_Role = AwbRole_of (utf8_coerce (awb_role_string (x_Role x)))\<rparr>"

definition package_json :: "awb_package \<Rightarrow> goerror + json" where
  "package_json p =
     on_ok (put_float (p_WeightKg p)) (\<lambda>w. on_ok (put_float (p_LengthCm p)) (\<lambda>l.
     on_ok (put_float (p_WidthCm p)) (\<lambda>wd. on_ok (put_float (p_HeightCm p)) (\<lambda>h.
       Inr (JObj [(''WeightKg'', w), (''LengthCm'', l), (''WidthCm'', wd), (''HeightCm'', h),
         (''DeclaredValueMinor'', put_int (p_DeclaredValueMinor p)),
         (''DeclaredValueCcy'', put_str (p_DeclaredValueCcy p)),
         (''Description'', put_str (p_Description p)), (''Fragile'', JBool (p_Fragile p))])))))"

definition package_of_json :: "json \<Rightarrow> goerror + awb_package" where
  "package_of_json = get_struct (\<lambda>m.
     on_ok (get_float (member m ''WeightKg'')) (\<lambda>w. on_ok (get_float (member m ''LengthCm'')) (\<lambda>l.
     on_ok (get_float (member m ''WidthCm'')) (\<lambda>wd. on_ok (get_float (member m ''HeightCm'')) (\<lambda>h.
     on_ok (get_int (member m ''DeclaredValueMinor'')) (\<lambda>dv.
     on_ok (get_str (member m ''DeclaredValueCcy'')) (\<lambda>dc.
     on_ok (get_str (member m ''Description'')) (\<lambda>ds. on_ok (get_bool (member m ''Fragile'')) (\<lambda>fr.
       Inr \<lparr>p_WeightKg = w, p_LengthCm = l, p_WidthCm = wd, p_HeightCm = h, p_DeclaredValueMinor = dv,
            p_DeclaredValueCcy = dc, p_Description = ds, p_Fragile = fr\<rparr>)))))))))"

definition keep_package :: "awb_package \<Rightarrow> awb_package" where
  "keep_package p = p\<lparr>p_WeightKg := f_pos0 (p_WeightKg p), p_LengthCm := f_pos0 (p_LengthCm p),
     p_WidthCm := f_pos0 (p_WidthCm p), p_HeightCm := f_pos0 (p_HeightCm p),
     p_DeclaredValueCcy := utf8_coerce (p_DeclaredValueCcy p),
     p_Description := utf8_coerce (p_Description p)\<rparr>"

text \<open>\<open>map[string]any\<close>: any document, with the strings and numbers as they are written.\<close>

lemma each_ok_cong [fundef_cong]:
  "xs = ys \<Longrightarrow> (\<And>x. x \<in> set ys \<Longrightarrow> f x = g x) \<Longrightarrow> each_ok f xs = each_ok g ys"
  by (induction xs arbitrary: ys) auto

fun any_json :: "json \<Rightarrow> goerror + json" where
  "any_json JNull = Inr JNull"
| "any_json (JBool b) = Inr (JBool b)"
| "any_json (JNum x) = put_float x"
| "any_json (JStr s) = Inr (put_str s)"
| "any_json (JArr js) = on_ok (each_ok any_json js) (\<lambda>js'. Inr (JArr js'))"
| "any_json (JObj kvs) =
     on_ok (each_ok (\<lambda>kv. on_ok (any_json (snd kv)) (\<lambda>j. Inr (utf8_coerce (fst kv), j))) kvs)
       (\<lambda>kvs'. Inr (JObj kvs'))"

lemmas put_defs = location_json_def rider_json_def actor_json_def geo_json_def photo_json_def
  signature_json_def external_json_def package_json_def
lemmas get_defs = location_of_json_def rider_of_json_def actor_of_json_def geo_of_json_def
  photo_of_json_def signature_of_json_def external_of_json_def package_of_json_def get_struct_def
lemmas keep_defs = keep_location_def keep_rider_def keep_actor_def keep_geo_def keep_photo_def
  keep_signature_def keep_external_def keep_package_def

lemma codec_location: "codec location_json location_of_json keep_location"
  by (auto simp: codec_def put_defs get_defs keep_defs get_float_put member_def)

lemma codec_rider: "codec rider_json rider_of_json keep_rider"
  by (auto simp: codec_def put_defs get_defs keep_defs)

lemma codec_actor: "codec actor_json actor_of_json keep_actor"
  by (auto simp: codec_def put_defs get_defs keep_defs)

lemma codec_geo: "codec geo_json geo_of_json keep_geo"
  by (auto simp: codec_def put_defs get_defs keep_defs get_float_put)

lemma codec_photo: "codec photo_json photo_of_json keep_photo"
  by (auto simp: codec_def photo_json_def photo_of_json_def get_struct_def keep_photo_def
      ptr_roundtrip [OF codec_geo])

lemma codec_signature: "codec signature_json signature_of_json keep_signature"
  by (auto simp: codec_def put_defs get_defs keep_defs)

lemma codec_external: "codec external_json external_of_json keep_external"
  by (auto simp: codec_def put_defs get_defs keep_defs)

lemma codec_package: "codec package_json package_of_json keep_package"
  by (auto simp: codec_def put_defs get_defs keep_defs get_float_put)

end
