(* ===== verification/Schema.thy ===== *)
theory Schema
  imports Json Ports
begin

text \<open>
  The tables of \<open>migrations/0001_initial.up.sql\<close> that the Go code reads and writes, and the effect
  of its SQL statements on them: a record per table with the columns of the table, and a function
  per statement with the checks, unique keys, foreign keys and triggers the schema declares.
  A statement runs atomically. A timestamp column holds microseconds since the Unix epoch, a
  \<open>jsonb\<close> column a document, or the text \<open>jsonb\<close> prints where the program stores raw text.
  What the database decides is the record \<open>pg_env\<close>: its clock, the time zone values are read in,
  the text of a raw \<open>jsonb\<close> value, the order in which it returns rows an \<open>ORDER BY\<close> does not
  order, and the statements that fail for reasons of its own (before they have an effect).
\<close>

section \<open>Rows\<close>

datatype tsrange = RangeNull | RangeEmpty | RangeOf int int

record retailer_row =
  rt_id :: uuid
  rt_name :: string
  rt_slug :: string
  rt_api_key_hash :: string
  rt_is_active :: bool

record awb_row =
  wr_id :: uuid
  wr_internal_awb :: string
  wr_retailer_id :: uuid
  wr_customer_id :: "uuid option"
  wr_external_awbs :: json
  wr_package :: json
  wr_declared_value_minor :: int
  wr_declared_value_currency :: "string option"
  wr_state :: string
  wr_state_reason :: "string option"
  wr_metadata :: json
  wr_created_at :: int
  wr_updated_at :: int

record delivery_row =
  dr_id :: uuid
  dr_awb_id :: uuid
  dr_leg_number :: int
  dr_carrier_id :: string
  dr_carrier_version :: string
  dr_carrier_external_id :: "string option"
  dr_pickup :: json
  dr_drop :: json
  dr_scheduled_window :: tsrange
  dr_state :: string
  dr_state_reason :: "string option"
  dr_rider :: json
  dr_price_quoted_minor :: int
  dr_price_charged_minor :: "int option"
  dr_price_currency :: string
  dr_estimated_pickup_at :: "int option"
  dr_estimated_drop_at :: "int option"
  dr_actual_pickup_at :: "int option"
  dr_actual_drop_at :: "int option"
  dr_idempotency_key :: "string option"
  dr_metadata :: json
  dr_created_at :: int
  dr_updated_at :: int

record event_row =
  er_event_id :: uuid
  er_delivery_id :: uuid
  er_sequence_num :: int64
  er_type :: string
  er_occurred_at :: int
  er_carrier_time :: "int option"
  er_actor :: json
  er_location :: "json option"
  er_photos :: json
  er_signature :: "json option"
  er_reason :: "string option"
  er_metadata :: string
  er_prev_hash :: string
  er_hash :: string

record routing_row =
  ro_delivery_id :: uuid
  ro_strategy :: string
  ro_candidates :: string
  ro_chosen :: json
  ro_reasoning :: string

record pgdb =
  tb_retailers :: "retailer_row list"
  tb_customers :: "uuid list"
  tb_awbs :: "awb_row list"
  tb_deliveries :: "delivery_row list"
  tb_events :: "event_row list"
  tb_routing :: "routing_row list"
  lg_audit :: "(string \<times> string \<times> gotime) list"

text \<open>
  \<open>lg_audit\<close> is no table but the log of the process, which the handler of the event bus writes.
\<close>

record pg_env =
  pg_now :: "pgdb \<Rightarrow> int"
  pg_zone :: "int \<Rightarrow> int"
  pg_jsonb_text :: "string \<Rightarrow> goerror + string"
  pg_rank :: "delivery_row \<Rightarrow> nat"
  pg_fault :: "string \<Rightarrow> pgdb \<Rightarrow> goerror option"

section \<open>Values\<close>

definition sqlstate :: "string \<Rightarrow> goerror" where
  "sqlstate code = External (''SQLSTATE '' @ code)"

definition sql_text :: "string \<Rightarrow> goerror + string" where
  "sql_text s = (if utf8_valid s \<and> CHR 0x00 \<notin> set s then Inr s else Inl (sqlstate ''22021''))"

definition sql_null :: "('a \<Rightarrow> goerror + 'b) \<Rightarrow> 'a option \<Rightarrow> goerror + 'b option" where
  "sql_null f p = (case p of None \<Rightarrow> Inr None | Some x \<Rightarrow> on_ok (f x) (\<lambda>y. Inr (Some y)))"

definition sql_jsonb :: "json \<Rightarrow> goerror + json" where
  "sql_jsonb j = (if json_has_nul j then Inl (sqlstate ''22P05'') else Inr (jsonb_value j))"

text \<open>Raw text for a \<open>jsonb\<close> column; \<open>{}\<close> and \<open>[]\<close> print as themselves.\<close>

definition sql_jsonb_text :: "pg_env \<Rightarrow> string \<Rightarrow> goerror + string" where
  "sql_jsonb_text env s = (if s = ''{}'' \<or> s = ''[]'' then Inr s else pg_jsonb_text env s)"

definition sql_int4 :: "int \<Rightarrow> goerror + int" where
  "sql_int4 i = (if - (2 ^ 31) \<le> i \<and> i < 2 ^ 31 then Inr i else Inl (sqlstate ''22003''))"

text \<open>From 4713 BC to 294276 AD, in microseconds.\<close>

definition sql_timestamptz :: "gotime \<Rightarrow> goerror + int" where
  "sql_timestamptz t =
     (let us = t_ns t div 1000
      in if - 210866803200000000 \<le> us \<and> us < 9224318016000000000 then Inr us
         else Inl (sqlstate ''22008''))"

text \<open>A range with an inclusive lower and an exclusive upper bound.\<close>

definition sql_range :: "(gotime \<times> gotime) option \<Rightarrow> goerror + tsrange" where
  "sql_range r =
     (case r of
        None \<Rightarrow> Inr RangeNull
      | Some (a, b) \<Rightarrow>
          on_ok (sql_timestamptz a) (\<lambda>lo. on_ok (sql_timestamptz b) (\<lambda>hi.
            if hi < lo then Inl (sqlstate ''22000'')
            else if lo = hi then Inr RangeEmpty else Inr (RangeOf lo hi))))"

text \<open>The \<open>time.Time\<close> a timestamp is read as.\<close>

definition go_time :: "pg_env \<Rightarrow> int \<Rightarrow> gotime" where
  "go_time env us = \<lparr>t_ns = us * 1000, t_off = pg_zone env us\<rparr>"

section \<open>Parcels\<close>

definition chk_awb_state :: "string list" where
  "chk_awb_state =
     [''created'', ''at_locker'', ''scheduled'', ''dispatched'', ''in_transit'',
      ''delivered'', ''failed'', ''cancelled'', ''returned'']"

definition awb_fk_ok :: "retailer_row list \<Rightarrow> uuid list \<Rightarrow> awb_row \<Rightarrow> bool" where
  "awb_fk_ok rts custs r \<longleftrightarrow>
     wr_retailer_id r \<in> rt_id ` set rts \<and>
     (case wr_customer_id r of None \<Rightarrow> True | Some c \<Rightarrow> c \<in> set custs)"

text \<open>
  \<open>ON CONFLICT (id) DO UPDATE\<close> sets the listed columns from the new row; the trigger of the
  table then overwrites \<open>updated_at\<close> with the clock.
\<close>

definition awb_do_update :: "int \<Rightarrow> awb_row \<Rightarrow> awb_row \<Rightarrow> awb_row" where
  "awb_do_update now r x =
     x\<lparr>wr_customer_id := wr_customer_id r, wr_external_awbs := wr_external_awbs r,
       wr_package := wr_package r, wr_declared_value_minor := wr_declared_value_minor r,
       wr_declared_value_currency := wr_declared_value_currency r, wr_state := wr_state r,
       wr_state_reason := wr_state_reason r, wr_metadata := wr_metadata r, wr_updated_at := now\<rparr>"

definition sql_upsert_awb :: "int \<Rightarrow> awb_row \<Rightarrow> pgdb \<Rightarrow> goerror + pgdb" where
  "sql_upsert_awb now r db =
     (if wr_state r \<notin> set chk_awb_state then Inl (sqlstate ''23514'')
      else case List.find (\<lambda>x. wr_id x = wr_id r) (tb_awbs db) of
             Some x \<Rightarrow>
               (if \<not> awb_fk_ok (tb_retailers db) (tb_customers db) (awb_do_update now r x) then Inl (sqlstate ''23503'')
                else Inr (db\<lparr>tb_awbs := map (\<lambda>y. if wr_id y = wr_id r then awb_do_update now r y else y)
                                (tb_awbs db)\<rparr>))
           | None \<Rightarrow>
               (if \<exists>x \<in> set (tb_awbs db). wr_internal_awb x = wr_internal_awb r
                then Inl (sqlstate ''23505'')
                else if \<not> awb_fk_ok (tb_retailers db) (tb_customers db) r then Inl (sqlstate ''23503'')
                else Inr (db\<lparr>tb_awbs := tb_awbs db @ [r]\<rparr>)))"

section \<open>Deliveries\<close>

definition chk_delivery_state :: "string list" where
  "chk_delivery_state =
     [''pending'', ''assigned'', ''en_route_pickup'', ''picked_up'', ''in_transit'',
      ''en_route_drop'', ''delivered'', ''failed'', ''cancelled'', ''returned_to_origin'']"

text \<open>The unique keys of two rows clash; \<open>NULL\<close> is different from every value.\<close>

definition ext_clash :: "delivery_row \<Rightarrow> delivery_row \<Rightarrow> bool" where
  "ext_clash r x \<longleftrightarrow>
     dr_carrier_external_id r \<noteq> None \<and> dr_carrier_id x = dr_carrier_id r \<and>
     dr_carrier_external_id x = dr_carrier_external_id r"

definition leg_clash :: "delivery_row \<Rightarrow> delivery_row \<Rightarrow> bool" where
  "leg_clash r x \<longleftrightarrow> dr_awb_id x = dr_awb_id r \<and> dr_leg_number x = dr_leg_number r"

definition key_clash :: "delivery_row \<Rightarrow> delivery_row \<Rightarrow> bool" where
  "key_clash r x \<longleftrightarrow> dr_idempotency_key r \<noteq> None \<and> dr_idempotency_key x = dr_idempotency_key r"

definition delivery_do_update :: "int \<Rightarrow> delivery_row \<Rightarrow> delivery_row \<Rightarrow> delivery_row" where
  "delivery_do_update now r x =
     x\<lparr>dr_carrier_id := dr_carrier_id r, dr_carrier_version := dr_carrier_version r,
       dr_carrier_external_id := dr_carrier_external_id r, dr_pickup := dr_pickup r,
       dr_drop := dr_drop r, dr_scheduled_window := dr_scheduled_window r, dr_state := dr_state r,
       dr_state_reason := dr_state_reason r, dr_rider := dr_rider r,
       dr_price_quoted_minor := dr_price_quoted_minor r,
       dr_price_charged_minor := dr_price_charged_minor r, dr_price_currency := dr_price_currency r,
       dr_estimated_pickup_at := dr_estimated_pickup_at r,
       dr_estimated_drop_at := dr_estimated_drop_at r, dr_actual_pickup_at := dr_actual_pickup_at r,
       dr_actual_drop_at := dr_actual_drop_at r, dr_metadata := dr_metadata r, dr_updated_at := now\<rparr>"

definition sql_upsert_delivery :: "int \<Rightarrow> delivery_row \<Rightarrow> pgdb \<Rightarrow> goerror + pgdb" where
  "sql_upsert_delivery now r db =
     (if dr_leg_number r < 1 \<or> dr_state r \<notin> set chk_delivery_state then Inl (sqlstate ''23514'')
      else case List.find (\<lambda>x. dr_id x = dr_id r) (tb_deliveries db) of
             Some x \<Rightarrow>
               (if \<exists>y \<in> set (tb_deliveries db). dr_id y \<noteq> dr_id r \<and> ext_clash r y
                then Inl (sqlstate ''23505'')
                else Inr (db\<lparr>tb_deliveries :=
                       map (\<lambda>y. if dr_id y = dr_id r then delivery_do_update now r y else y)
                         (tb_deliveries db)\<rparr>))
           | None \<Rightarrow>
               (if \<exists>y \<in> set (tb_deliveries db). leg_clash r y \<or> ext_clash r y \<or> key_clash r y
                then Inl (sqlstate ''23505'')
                else if dr_awb_id r \<notin> wr_id ` set (tb_awbs db) then Inl (sqlstate ''23503'')
                else Inr (db\<lparr>tb_deliveries := tb_deliveries db @ [r]\<rparr>)))"

section \<open>Custody events and routing decisions\<close>

text \<open>
  A table has at most \<open>2 ^ 32 - 1\<close> pages of 8 kB, and a page at most 291 rows.
\<close>

definition pg_max_rows :: int where
  "pg_max_rows = 291 * 4294967295"

text \<open>\<open>ON CONFLICT (event_id) DO NOTHING\<close>; the other unique key is \<open>(delivery_id, sequence_num)\<close>.\<close>

definition sql_insert_event :: "event_row \<Rightarrow> pgdb \<Rightarrow> goerror + pgdb" where
  "sql_insert_event r db =
     (if \<exists>x \<in> set (tb_events db). er_event_id x = er_event_id r then Inr db
      else if \<exists>x \<in> set (tb_events db). er_delivery_id x = er_delivery_id r \<and> er_sequence_num x = er_sequence_num r
      then Inl (sqlstate ''23505'')
      else if er_delivery_id r \<notin> dr_id ` set (tb_deliveries db) then Inl (sqlstate ''23503'')
      else if pg_max_rows \<le> int (length (tb_events db)) then Inl (sqlstate ''54000'')
      else Inr (db\<lparr>tb_events := tb_events db @ [r]\<rparr>))"

definition sql_insert_routing :: "routing_row \<Rightarrow> pgdb \<Rightarrow> goerror + pgdb" where
  "sql_insert_routing r db =
     (if ro_delivery_id r \<notin> dr_id ` set (tb_deliveries db) then Inl (sqlstate ''23503'')
      else Inr (db\<lparr>tb_routing := tb_routing db @ [r]\<rparr>))"

section \<open>Queries\<close>

definition sel_events :: "uuid \<Rightarrow> pgdb \<Rightarrow> event_row list" where
  "sel_events i db =
     sort_key (\<lambda>r. sint (er_sequence_num r)) (filter (\<lambda>r. er_delivery_id r = i) (tb_events db))"

text \<open>\<open>ORDER BY sequence_num DESC LIMIT 1\<close>.\<close>

definition sel_last_event :: "uuid \<Rightarrow> pgdb \<Rightarrow> event_row option" where
  "sel_last_event i db =
     (case sort_key (\<lambda>r. - sint (er_sequence_num r)) (filter (\<lambda>r. er_delivery_id r = i) (tb_events db)) of
        [] \<Rightarrow> None
      | r # _ \<Rightarrow> Some r)"

definition sel_deliveries_by_awb :: "uuid \<Rightarrow> pgdb \<Rightarrow> delivery_row list" where
  "sel_deliveries_by_awb i db = sort_key dr_leg_number (filter (\<lambda>r. dr_awb_id r = i) (tb_deliveries db))"

definition sel_deliveries_by_state :: "pg_env \<Rightarrow> string \<Rightarrow> nat \<Rightarrow> pgdb \<Rightarrow> delivery_row list" where
  "sel_deliveries_by_state env st limit db =
     take limit (sort_key dr_created_at (sort_key (pg_rank env)
       (filter (\<lambda>r. dr_state r = st) (tb_deliveries db))))"

section \<open>What the constraints guarantee\<close>

text \<open>The keys, checks and foreign keys of each table, and all of them: an invariant of the statements.\<close>

definition awbs_ok :: "retailer_row list \<Rightarrow> uuid list \<Rightarrow> awb_row list \<Rightarrow> bool" where
  "awbs_ok rts custs awbs \<longleftrightarrow>
     distinct (map wr_id awbs) \<and> distinct (map wr_internal_awb awbs) \<and>
     (\<forall>r \<in> set awbs. awb_fk_ok rts custs r \<and> wr_state r \<in> set chk_awb_state)"

definition deliveries_ok :: "uuid set \<Rightarrow> delivery_row list \<Rightarrow> bool" where
  "deliveries_ok awbs dels \<longleftrightarrow>
     distinct (map dr_id dels) \<and> distinct (map (\<lambda>r. (dr_awb_id r, dr_leg_number r)) dels) \<and>
     (\<forall>x \<in> set dels. \<forall>y \<in> set dels. ext_clash x y \<longrightarrow> dr_id x = dr_id y) \<and>
     (\<forall>x \<in> set dels. \<forall>y \<in> set dels. key_clash x y \<longrightarrow> dr_id x = dr_id y) \<and>
     (\<forall>r \<in> set dels. dr_awb_id r \<in> awbs \<and> 1 \<le> dr_leg_number r \<and> dr_state r \<in> set chk_delivery_state)"

definition events_ok :: "uuid set \<Rightarrow> event_row list \<Rightarrow> bool" where
  "events_ok dels evs \<longleftrightarrow>
     distinct (map er_event_id evs) \<and> distinct (map (\<lambda>r. (er_delivery_id r, er_sequence_num r)) evs) \<and>
     (\<forall>r \<in> set evs. er_delivery_id r \<in> dels) \<and> int (length evs) \<le> pg_max_rows"

definition schema_inv :: "pgdb \<Rightarrow> bool" where
  "schema_inv db \<longleftrightarrow>
     awbs_ok (tb_retailers db) (tb_customers db) (tb_awbs db) \<and>
     deliveries_ok (wr_id ` set (tb_awbs db)) (tb_deliveries db) \<and>
     events_ok (dr_id ` set (tb_deliveries db)) (tb_events db) \<and>
     (\<forall>r \<in> set (tb_routing db). ro_delivery_id r \<in> dr_id ` set (tb_deliveries db))"

lemma find_by_key:
  assumes "distinct (map f xs)" "x \<in> set xs"
  shows "List.find (\<lambda>y. f y = f x) xs = Some x"
  using assms by (intro find_Some_unique) (auto simp: distinct_map dest: inj_onD)

lemma map_upd_ids:
  assumes "\<And>y. f (g y) = f y"
  shows "map f (map (\<lambda>y. if P y then g y else y) xs) = map f xs"
  using assms by simp

lemma awb_do_update_simps [simp]:
  "wr_id (awb_do_update now r x) = wr_id x"
  "wr_internal_awb (awb_do_update now r x) = wr_internal_awb x"
  "wr_retailer_id (awb_do_update now r x) = wr_retailer_id x"
  "wr_customer_id (awb_do_update now r x) = wr_customer_id r"
  "wr_state (awb_do_update now r x) = wr_state r"
  by (simp_all add: awb_do_update_def)

lemma delivery_do_update_simps [simp]:
  "dr_id (delivery_do_update now r x) = dr_id x"
  "dr_awb_id (delivery_do_update now r x) = dr_awb_id x"
  "dr_leg_number (delivery_do_update now r x) = dr_leg_number x"
  "dr_idempotency_key (delivery_do_update now r x) = dr_idempotency_key x"
  "dr_state (delivery_do_update now r x) = dr_state r"
  "dr_carrier_id (delivery_do_update now r x) = dr_carrier_id r"
  "dr_carrier_external_id (delivery_do_update now r x) = dr_carrier_external_id r"
  by (simp_all add: delivery_do_update_def)

lemma sql_upsert_awb_frame:
  "sql_upsert_awb now r db = Inr db' \<Longrightarrow> tb_deliveries db' = tb_deliveries db \<and>
     tb_events db' = tb_events db \<and> tb_routing db' = tb_routing db \<and>
     tb_retailers db' = tb_retailers db \<and> tb_customers db' = tb_customers db \<and>
     lg_audit db' = lg_audit db"
  by (auto simp: sql_upsert_awb_def split: if_splits option.splits)

lemma sql_upsert_delivery_frame:
  "sql_upsert_delivery now r db = Inr db' \<Longrightarrow> tb_awbs db' = tb_awbs db \<and>
     tb_events db' = tb_events db \<and> tb_routing db' = tb_routing db \<and>
     tb_retailers db' = tb_retailers db \<and> tb_customers db' = tb_customers db \<and>
     lg_audit db' = lg_audit db"
  by (auto simp: sql_upsert_delivery_def split: if_splits option.splits)

lemma sql_insert_event_frame:
  "sql_insert_event r db = Inr db' \<Longrightarrow> tb_awbs db' = tb_awbs db \<and>
     tb_deliveries db' = tb_deliveries db \<and> tb_routing db' = tb_routing db \<and>
     tb_retailers db' = tb_retailers db \<and> tb_customers db' = tb_customers db \<and>
     lg_audit db' = lg_audit db"
  by (auto simp: sql_insert_event_def split: if_splits)

lemma distinct_map_snoc:
  "distinct (map f (xs @ [x])) \<longleftrightarrow> distinct (map f xs) \<and> (\<forall>y \<in> set xs. f y \<noteq> f x)"
  by (auto simp: image_iff)

lemma distinct_mapD: "distinct (map f xs) \<Longrightarrow> x \<in> set xs \<Longrightarrow> y \<in> set xs \<Longrightarrow> f x = f y \<Longrightarrow> x = y"
  by (auto simp: distinct_map dest: inj_onD)

lemma schema_inv_insert_event:
  assumes "schema_inv db" "sql_insert_event r db = Inr db'"
  shows "schema_inv db'"
proof (cases "\<exists>x \<in> set (tb_events db). er_event_id x = er_event_id r")
  case True
  with assms show ?thesis by (simp add: sql_insert_event_def)
next
  case False
  with assms have "db' = db\<lparr>tb_events := tb_events db @ [r]\<rparr>"
      "er_delivery_id r \<in> dr_id ` set (tb_deliveries db)" "int (length (tb_events db)) < pg_max_rows"
      "\<forall>x \<in> set (tb_events db). (er_delivery_id x, er_sequence_num x) \<noteq> (er_delivery_id r, er_sequence_num r)"
    by (auto simp: sql_insert_event_def split: if_splits)
  with assms(1) False show ?thesis
    by (simp add: schema_inv_def events_ok_def distinct_map_snoc del: map_append)
qed

lemma schema_inv_insert_routing:
  "schema_inv db \<Longrightarrow> sql_insert_routing r db = Inr db' \<Longrightarrow> schema_inv db'"
  by (auto simp: schema_inv_def sql_insert_routing_def split: if_splits)

text \<open>An update in place keeps the keys that it does not set.\<close>

lemma awbs_ok_upsert:
  assumes "awbs_ok rts custs awbs" "\<And>x. wr_id x = i \<Longrightarrow> x \<in> set awbs \<Longrightarrow> awb_fk_ok rts custs (g x)"
    and "\<And>x. wr_id (g x) = wr_id x" "\<And>x. wr_internal_awb (g x) = wr_internal_awb x"
    and "\<And>x. wr_state (g x) \<in> set chk_awb_state"
  shows "awbs_ok rts custs (map (\<lambda>y. if wr_id y = i then g y else y) awbs)"
  using assms map_upd_ids [of wr_id g "\<lambda>y. wr_id y = i" awbs]
    map_upd_ids [of wr_internal_awb g "\<lambda>y. wr_id y = i" awbs]
  by (auto simp: awbs_ok_def simp del: map_map)

lemma ids_upd:
  assumes "\<And>y. f (g y) = f y"
  shows "f ` set (map (\<lambda>y. if P y then g y else y) xs) = f ` set xs"
  using map_upd_ids [of f g P xs] assms by (metis list.set_map)

lemma schema_inv_upsert_awb:
  assumes inv: "schema_inv db" and upd: "sql_upsert_awb now r db = Inr db'"
  shows "schema_inv db'"
proof -
  have chk: "wr_state r \<in> set chk_awb_state" using upd by (auto simp: sql_upsert_awb_def split: if_splits)
  show ?thesis
  proof (cases "List.find (\<lambda>x. wr_id x = wr_id r) (tb_awbs db)")
    case None
    then have new: "\<forall>x \<in> set (tb_awbs db). wr_id x \<noteq> wr_id r" by (auto dest: find_NoneD)
    have "db' = db\<lparr>tb_awbs := tb_awbs db @ [r]\<rparr>" "awb_fk_ok (tb_retailers db) (tb_customers db) r"
        "\<forall>x \<in> set (tb_awbs db). wr_internal_awb x \<noteq> wr_internal_awb r"
      using None upd chk by (auto simp: sql_upsert_awb_def split: if_splits)
    with inv new chk show ?thesis
      by (simp add: schema_inv_def awbs_ok_def deliveries_ok_def distinct_map_snoc del: map_append)
  next
    case (Some x)
    let ?g = "awb_do_update now r"
    let ?awbs = "map (\<lambda>y. if wr_id y = wr_id r then ?g y else y) (tb_awbs db)"
    have fk: "awb_fk_ok (tb_retailers db) (tb_customers db) (?g x)" and db': "db' = db\<lparr>tb_awbs := ?awbs\<rparr>"
      using Some upd chk by (auto simp: sql_upsert_awb_def split: if_splits)
    have x: "x \<in> set (tb_awbs db)" "wr_id x = wr_id r" using find_SomeD [OF Some] by auto
    have only: "y = x" if "wr_id y = wr_id r" "y \<in> set (tb_awbs db)" for y
      using inv x that unfolding schema_inv_def awbs_ok_def by (metis distinct_mapD)
    have "awbs_ok (tb_retailers db) (tb_customers db) ?awbs"
      using inv fk only chk by (intro awbs_ok_upsert) (auto simp: schema_inv_def)
    then show ?thesis
      using inv ids_upd [of wr_id ?g "\<lambda>y. wr_id y = wr_id r" "tb_awbs db"]
      by (simp add: db' schema_inv_def)
  qed
qed

lemma deliveries_ok_insert:
  assumes ok: "deliveries_ok ids dels" and row: "dr_awb_id r \<in> ids" "1 \<le> dr_leg_number r" "dr_state r \<in> set chk_delivery_state"
    and new: "\<forall>x \<in> set dels. dr_id x \<noteq> dr_id r"
    and keys: "\<forall>y \<in> set dels. \<not> leg_clash r y \<and> \<not> ext_clash r y \<and> \<not> key_clash r y"
  shows "deliveries_ok ids (dels @ [r])"
proof -
  have leg: "\<forall>y \<in> set dels. (dr_awb_id y, dr_leg_number y) \<noteq> (dr_awb_id r, dr_leg_number r)"
    using keys by (auto simp: leg_clash_def)
  have keys': "\<forall>y \<in> set dels. \<not> ext_clash y r \<and> \<not> key_clash y r"
    using keys by (auto simp: ext_clash_def key_clash_def)
  show ?thesis
    unfolding deliveries_ok_def distinct_map_snoc
    using ok row new keys keys' leg unfolding deliveries_ok_def by auto
qed

lemma deliveries_ok_update:
  assumes ok: "deliveries_ok ids dels" and row: "1 \<le> dr_leg_number r" "dr_state r \<in> set chk_delivery_state"
    and ext: "\<And>y. y \<in> set dels \<Longrightarrow> dr_id y \<noteq> dr_id r \<Longrightarrow> \<not> ext_clash r y"
  shows "deliveries_ok ids (map (\<lambda>y. if dr_id y = dr_id r then delivery_do_update now r y else y) dels)"
proof -
  let ?u = "\<lambda>y. if dr_id y = dr_id r then delivery_do_update now r y else y"
  have same: "map dr_id (map ?u dels) = map dr_id dels"
    "map (\<lambda>r. (dr_awb_id r, dr_leg_number r)) (map ?u dels) = map (\<lambda>r. (dr_awb_id r, dr_leg_number r)) dels"
    by (simp_all del: map_map add: map_upd_ids)
  have idu: "dr_id (?u a) = dr_id a" for a by simp
  have exts: "ext_clash (?u a) (?u b) \<longrightarrow> dr_id a = dr_id b" if "a \<in> set dels" "b \<in> set dels" for a b
  proof (cases "dr_id a = dr_id r"; cases "dr_id b = dr_id r")
    assume "dr_id a \<noteq> dr_id r" "dr_id b \<noteq> dr_id r"
    with ok that show ?thesis by (simp add: deliveries_ok_def)
  qed (use ext that in \<open>auto simp: ext_clash_def\<close>)
  have keys: "key_clash (?u a) (?u b) \<longrightarrow> dr_id a = dr_id b" if "a \<in> set dels" "b \<in> set dels" for a b
  proof -
    have "key_clash (?u a) (?u b) \<longleftrightarrow> key_clash a b" by (simp add: key_clash_def)
    with ok that show ?thesis unfolding deliveries_ok_def by blast
  qed
  have each: "dr_awb_id (?u a) \<in> ids \<and> 1 \<le> dr_leg_number (?u a) \<and> dr_state (?u a) \<in> set chk_delivery_state"
    if "a \<in> set dels" for a
  proof -
    have "dr_awb_id a \<in> ids \<and> 1 \<le> dr_leg_number a \<and> dr_state a \<in> set chk_delivery_state"
      using ok that unfolding deliveries_ok_def by blast
    with row show ?thesis by simp
  qed
  show ?thesis
    unfolding deliveries_ok_def same set_map ball_simps(9) idu
    using ok exts keys each unfolding deliveries_ok_def by blast
qed

lemma schema_inv_upsert_delivery:
  assumes inv: "schema_inv db" and upd: "sql_upsert_delivery now r db = Inr db'"
  shows "schema_inv db'"
proof -
  have chk: "1 \<le> dr_leg_number r" "dr_state r \<in> set chk_delivery_state"
    using upd by (auto simp: sql_upsert_delivery_def split: if_splits)
  have ok: "deliveries_ok (wr_id ` set (tb_awbs db)) (tb_deliveries db)" using inv by (simp add: schema_inv_def)
  show ?thesis
  proof (cases "List.find (\<lambda>x. dr_id x = dr_id r) (tb_deliveries db)")
    case None
    then have new: "\<forall>x \<in> set (tb_deliveries db). dr_id x \<noteq> dr_id r" by (auto dest: find_NoneD)
    have db': "db' = db\<lparr>tb_deliveries := tb_deliveries db @ [r]\<rparr>"
      and fk: "dr_awb_id r \<in> wr_id ` set (tb_awbs db)"
      and keys: "\<forall>y \<in> set (tb_deliveries db). \<not> leg_clash r y \<and> \<not> ext_clash r y \<and> \<not> key_clash r y"
      using None upd chk by (auto simp: sql_upsert_delivery_def split: if_splits)
    with inv deliveries_ok_insert [OF ok fk chk new keys] show ?thesis
      by (simp add: schema_inv_def events_ok_def)
  next
    case (Some x)
    then have ext: "\<And>y. y \<in> set (tb_deliveries db) \<Longrightarrow> dr_id y \<noteq> dr_id r \<Longrightarrow> \<not> ext_clash r y"
      and db': "db' = db\<lparr>tb_deliveries := map (\<lambda>y. if dr_id y = dr_id r then delivery_do_update now r y else y)
        (tb_deliveries db)\<rparr>"
      using upd chk by (auto simp: sql_upsert_delivery_def split: if_splits)
    from deliveries_ok_update [OF ok chk ext, where now = now] show ?thesis
      using inv ids_upd [of dr_id "delivery_do_update now r" "\<lambda>y. dr_id y = dr_id r" "tb_deliveries db"]
      by (simp add: db' schema_inv_def)
  qed
qed

end
