(* ===== verification/Postgres.thy ===== *)
theory Postgres
  imports Schema Stores
begin

text \<open>
  \<open>internal/infra/postgres\<close>: the repositories over the tables of \<open>Schema\<close>. A save marshals the
  nested structs (\<open>marshalJSON\<close>), builds the row of the statement and executes it; a read scans
  the columns and unmarshals. The functions \<open>keep_event\<close>, \<open>keep_delivery\<close> and \<open>keep_awb\<close> are what
  comes back of a stored value: times in microseconds and in the local zone, no negative zero.
  The package works on a pool of connections; a statement that fails is the \<open>pg_fault\<close> of the
  environment, by the name of the method that runs it.
\<close>

section \<open>Marshalling and statements\<close>

definition marshalJSON :: "goerror + json \<Rightarrow> goerror + json" where
  "marshalJSON r =
     (case r of Inl err \<Rightarrow> Inl (Wrapf ''postgres: json marshal: %w'' [] err) | Inr j \<Rightarrow> Inr j)"

definition unmarshalJSON :: "goerror + 'a \<Rightarrow> goerror + 'a" where
  "unmarshalJSON r =
     (case r of Inl err \<Rightarrow> Inl (Wrapf ''postgres: json unmarshal: %w'' [] err) | Inr x \<Rightarrow> Inr x)"

definition pg_exec :: "pg_env \<Rightarrow> string \<Rightarrow> string \<Rightarrow> (pgdb \<Rightarrow> goerror + pgdb) \<Rightarrow> pgdb \<Rightarrow> goerror option \<times> pgdb" where
  "pg_exec env name msg stmt db =
     (case pg_fault env name db of
        Some err \<Rightarrow> (Some (Wrapf msg [] err), db)
      | None \<Rightarrow>
          (case stmt db of
             Inl err \<Rightarrow> (Some (Wrapf msg [] err), db)
           | Inr db' \<Rightarrow> (None, db')))"

definition pg_query :: "pg_env \<Rightarrow> string \<Rightarrow> string \<Rightarrow> (pgdb \<Rightarrow> goerror + 'a) \<Rightarrow> pgdb \<Rightarrow> goerror + 'a" where
  "pg_query env name msg stmt db =
     (case pg_fault env name db of
        Some err \<Rightarrow> Inl (Wrapf msg [] err)
      | None \<Rightarrow> (case stmt db of Inl err \<Rightarrow> Inl (Wrapf msg [] err) | Inr x \<Rightarrow> Inr x))"

definition nullIfEmpty :: "string \<Rightarrow> string option" where
  "nullIfEmpty s = (if s = [] then None else Some s)"

definition nullableInt64 :: "int64 \<Rightarrow> int64 option" where
  "nullableInt64 v = (if v = 0 then None else Some v)"

definition emptyIfNull :: "string option \<Rightarrow> string" where
  "emptyIfNull p = (case p of None \<Rightarrow> [] | Some s \<Rightarrow> s)"

definition keep_time :: "pg_env \<Rightarrow> gotime \<Rightarrow> gotime" where
  "keep_time env t = go_time env (t_ns t div 1000)"

lemma marshalJSON_Inr [simp]: "marshalJSON r = Inr j \<longleftrightarrow> r = Inr j" "marshalJSON (Inr j) = Inr j"
  by (cases r) (simp_all add: marshalJSON_def)

lemma unmarshalJSON_Inr [simp]: "unmarshalJSON (Inr x) = Inr x"
  by (simp add: unmarshalJSON_def)

lemma nullIfEmpty_roundtrip [simp]: "emptyIfNull (nullIfEmpty s) = s"
  by (simp add: emptyIfNull_def nullIfEmpty_def)

lemma sql_text_Inr [simp]: "sql_text s = Inr x \<longleftrightarrow> x = s \<and> utf8_valid s \<and> CHR 0x00 \<notin> set s"
  by (auto simp: sql_text_def)

lemma sql_null_Inr: "sql_null f p = Inr q \<longleftrightarrow> rel_option (\<lambda>x y. f x = Inr y) p q"
  by (cases p; cases q) (auto simp: sql_null_def)

lemma sql_null_text [simp]: "sql_null sql_text p = Inr q \<Longrightarrow> q = p"
  by (cases p; cases q) (auto simp: sql_null_def)

lemma sql_jsonb_Inr: "sql_jsonb j = Inr x \<Longrightarrow> x = jsonb_value j"
  by (auto simp: sql_jsonb_def split: if_splits)

lemma sql_int4_Inr: "sql_int4 i = Inr x \<Longrightarrow> x = i"
  by (auto simp: sql_int4_def split: if_splits)

lemma sql_timestamptz_Inr: "sql_timestamptz t = Inr us \<Longrightarrow> go_time env us = keep_time env t"
  by (auto simp: sql_timestamptz_def keep_time_def Let_def split: if_splits)

lemma sql_null_timestamptz: "sql_null sql_timestamptz p = Inr q \<Longrightarrow> map_option (go_time env) q = map_option (keep_time env) p"
  by (cases p; cases q) (auto simp: sql_null_def sql_timestamptz_Inr)

lemma keep_time_milli: "time_UnixMilli (keep_time env t) = time_UnixMilli t"
proof -
  have "(n div 1000 * 1000) div (1000 * 1000) = n div (1000 * 1000)" for n :: int
    by (simp only: zdiv_zmult2_eq div_mult_mult2 zero_neq_numeral [symmetric])
  then show ?thesis by (simp add: keep_time_def go_time_def time_UnixMilli_def)
qed

section \<open>Custody events\<close>

definition marshal_event :: "event \<Rightarrow> goerror + json \<times> json option \<times> json \<times> json option" where
  "marshal_event e =
     on_ok (marshalJSON (actor_json (e_Actor e))) (\<lambda>actor.
     on_ok (sql_null (marshalJSON \<circ> geo_json) (e_Location e)) (\<lambda>location.
     on_ok (marshalJSON (put_list photo_json (e_Photos e))) (\<lambda>photos.
     on_ok (sql_null (marshalJSON \<circ> signature_json) (e_Signature e)) (\<lambda>signature.
       Inr (actor, location, photos, signature)))))"

definition event_meta :: "event \<Rightarrow> string" where
  "event_meta e = (if 0 < length (e_Metadata e) then e_Metadata e else ''{}'')"

definition event_params ::
  "pg_env \<Rightarrow> event \<Rightarrow> json \<times> json option \<times> json \<times> json option \<Rightarrow> goerror + event_row" where
  "event_params env e docs =
     (case docs of (actor, location, photos, signature) \<Rightarrow>
     on_ok (sql_text (event_type_string (e_Type e))) (\<lambda>type.
     on_ok (sql_timestamptz (e_OccurredAt e)) (\<lambda>occurred.
     on_ok (sql_null sql_timestamptz (e_CarrierTime e)) (\<lambda>carrier.
     on_ok (sql_jsonb actor) (\<lambda>actor. on_ok (sql_null sql_jsonb location) (\<lambda>location.
     on_ok (sql_jsonb photos) (\<lambda>photos. on_ok (sql_null sql_jsonb signature) (\<lambda>signature.
     on_ok (sql_null sql_text (nullIfEmpty (e_Reason e))) (\<lambda>reason.
     on_ok (sql_jsonb_text env (event_meta e)) (\<lambda>meta.
     on_ok (sql_text (e_PrevHash e)) (\<lambda>prev. on_ok (sql_text (e_Hash e)) (\<lambda>hash.
       Inr \<lparr>er_event_id = e_EventID e, er_delivery_id = e_DeliveryID e, er_sequence_num = e_SequenceNum e,
            er_type = type, er_occurred_at = occurred, er_carrier_time = carrier, er_actor = actor,
            er_location = location, er_photos = photos, er_signature = signature, er_reason = reason,
            er_metadata = meta, er_prev_hash = prev, er_hash = hash\<rparr>))))))))))))"

definition pgCus_Append :: "pg_env \<Rightarrow> event \<Rightarrow> pgdb \<Rightarrow> goerror option \<times> pgdb" where
  "pgCus_Append env e db =
     (case marshal_event e of
        Inl err \<Rightarrow> (Some err, db)
      | Inr docs \<Rightarrow>
          pg_exec env ''CustodyRepo.Append'' ''postgres: append custody: %w''
            (\<lambda>db. on_ok (event_params env e docs) (\<lambda>r. sql_insert_event r db)) db)"

definition scan_ptr :: "(json \<Rightarrow> goerror + 'a) \<Rightarrow> json option \<Rightarrow> goerror + 'a option" where
  "scan_ptr f col =
     (case col of
        None \<Rightarrow> Inr None
      | Some j \<Rightarrow> (if j = JNull then Inr None else on_ok (unmarshalJSON (f j)) (\<lambda>x. Inr (Some x))))"

definition scan_meta :: "string \<Rightarrow> string" where
  "scan_meta m = (if 0 < length m \<and> m \<noteq> ''null'' \<and> m \<noteq> ''{}'' then m else [])"

definition scanCustodyEvent :: "pg_env \<Rightarrow> event_row \<Rightarrow> goerror + event" where
  "scanCustodyEvent env r =
     on_ok (unmarshalJSON (actor_of_json (er_actor r))) (\<lambda>actor.
     on_ok (scan_ptr geo_of_json (er_location r)) (\<lambda>location.
     on_ok (unmarshalJSON (get_list photo_of_json (er_photos r))) (\<lambda>photos.
     on_ok (scan_ptr signature_of_json (er_signature r)) (\<lambda>signature.
       Inr \<lparr>e_EventID = er_event_id r, e_DeliveryID = er_delivery_id r, e_SequenceNum = er_sequence_num r,
            e_Type = EventType_of (er_type r), e_OccurredAt = go_time env (er_occurred_at r),
            e_CarrierTime = map_option (go_time env) (er_carrier_time r), e_Actor = actor,
            e_Location = location, e_Photos = photos, e_Signature = signature,
            e_Reason = emptyIfNull (er_reason r), e_Metadata = scan_meta (er_metadata r),
            e_PrevHash = er_prev_hash r, e_Hash = er_hash r\<rparr>))))"

definition pgCus_LastByDelivery :: "pg_env \<Rightarrow> uuid \<Rightarrow> pgdb \<Rightarrow> goerror + event option" where
  "pgCus_LastByDelivery env i db =
     on_ok (pg_query env ''CustodyRepo.LastByDelivery'' ''postgres: scan custody: %w''
              (\<lambda>db. Inr (sel_last_event i db)) db) (\<lambda>row.
       case row of
         None \<Rightarrow> Inr None
       | Some r \<Rightarrow> on_ok (scanCustodyEvent env r) (\<lambda>e. Inr (Some e)))"

definition pgCus_ListByDelivery :: "pg_env \<Rightarrow> uuid \<Rightarrow> pgdb \<Rightarrow> goerror + event list" where
  "pgCus_ListByDelivery env i db =
     on_ok (pg_query env ''CustodyRepo.ListByDelivery'' ''postgres: list custody: %w''
              (\<lambda>db. Inr (sel_events i db)) db) (each_ok (scanCustodyEvent env))"

definition pg_custody_repo :: "pg_env \<Rightarrow> pgdb custody_repo" where
  "pg_custody_repo env =
     \<lparr>cr_Append = pgCus_Append env, cr_LastByDelivery = pgCus_LastByDelivery env,
      cr_ListByDelivery = pgCus_ListByDelivery env\<rparr>"

text \<open>What is read back of an event.\<close>

definition keep_event :: "pg_env \<Rightarrow> event \<Rightarrow> event" where
  "keep_event env e =
     e\<lparr>e_Type := EventType_of (event_type_string (e_Type e)),
       e_OccurredAt := keep_time env (e_OccurredAt e),
       e_CarrierTime := map_option (keep_time env) (e_CarrierTime e),
       e_Actor := keep_actor (e_Actor e), e_Location := map_option keep_geo (e_Location e),
       e_Photos := map keep_photo (e_Photos e), e_Signature := map_option keep_signature (e_Signature e),
       e_Metadata := (case sql_jsonb_text env (event_meta e) of Inl _ \<Rightarrow> [] | Inr m \<Rightarrow> scan_meta m)\<rparr>"

lemma sql_null_scan:
  assumes "codec put get keep" "sql_null (marshalJSON \<circ> put) p = Inr docs" "sql_null sql_jsonb docs = Inr col"
  shows "scan_ptr get col = Inr (map_option keep p)"
proof (cases p)
  case None
  with assms(2,3) show ?thesis by (simp add: sql_null_def scan_ptr_def)
next
  case (Some x)
  with assms(2) obtain j where "put x = Inr j" "docs = Some j" by (auto simp: sql_null_def)
  with assms(1,3) Some show ?thesis
    by (auto simp: sql_null_def scan_ptr_def codec_def dest!: sql_jsonb_Inr)
qed

lemma scan_event_params:
  assumes "marshal_event e = Inr docs" "event_params env e docs = Inr r"
  shows "scanCustodyEvent env r = Inr (keep_event env e)"
    and "er_event_id r = e_EventID e" "er_delivery_id r = e_DeliveryID e"
    and "er_sequence_num r = e_SequenceNum e"
proof -
  obtain actor location photos signature where docs: "docs = (actor, location, photos, signature)"
    and m: "actor_json (e_Actor e) = Inr actor"
      "sql_null (marshalJSON \<circ> geo_json) (e_Location e) = Inr location"
      "put_list photo_json (e_Photos e) = Inr photos"
      "sql_null (marshalJSON \<circ> signature_json) (e_Signature e) = Inr signature"
    using assms(1) by (auto simp: marshal_event_def)
  from assms(2) obtain us cus a l p s rs me where
      cols: "sql_timestamptz (e_OccurredAt e) = Inr us"
        "sql_null sql_timestamptz (e_CarrierTime e) = Inr cus"
        "sql_jsonb actor = Inr a" "sql_null sql_jsonb location = Inr l" "sql_jsonb photos = Inr p"
        "sql_null sql_jsonb signature = Inr s" "sql_null sql_text (nullIfEmpty (e_Reason e)) = Inr rs"
        "sql_jsonb_text env (event_meta e) = Inr me"
    and r: "r = \<lparr>er_event_id = e_EventID e, er_delivery_id = e_DeliveryID e, er_sequence_num = e_SequenceNum e,
            er_type = event_type_string (e_Type e), er_occurred_at = us, er_carrier_time = cus, er_actor = a,
            er_location = l, er_photos = p, er_signature = s, er_reason = rs,
            er_metadata = me, er_prev_hash = e_PrevHash e, er_hash = e_Hash e\<rparr>"
    by (auto simp: event_params_def docs)
  have actor: "actor_of_json a = Inr (keep_actor (e_Actor e))"
    using sql_jsonb_Inr [OF cols(3)] codecD [OF codec_actor m(1)] by simp
  have photos: "get_list photo_of_json p = Inr (map keep_photo (e_Photos e))"
    using sql_jsonb_Inr [OF cols(5)] codecD [OF codec_list [OF codec_photo] m(3)] by simp
  show "scanCustodyEvent env r = Inr (keep_event env e)"
    using sql_null_scan [OF codec_geo m(2) cols(4)] sql_null_scan [OF codec_signature m(4) cols(6)]
      sql_null_timestamptz [OF cols(2)] sql_timestamptz_Inr [OF cols(1)] cols(8) sql_null_text [OF cols(7)]
    by (simp add: scanCustodyEvent_def keep_event_def r actor photos)
  show "er_event_id r = e_EventID e" "er_delivery_id r = e_DeliveryID e"
    "er_sequence_num r = e_SequenceNum e" by (simp_all add: r)
qed

section \<open>Deliveries\<close>

definition toTimestamptzRange :: "gotime option \<Rightarrow> gotime option \<Rightarrow> (gotime \<times> gotime) option" where
  "toTimestamptzRange start fin =
     (case (start, fin) of (Some a, Some b) \<Rightarrow> Some (time_UTC a, time_UTC b) | _ \<Rightarrow> None)"

definition fromTimestamptzRange :: "pg_env \<Rightarrow> tsrange \<Rightarrow> gotime option \<times> gotime option" where
  "fromTimestamptzRange env r =
     (case r of
        RangeOf lo hi \<Rightarrow> (Some (time_UTC (go_time env lo)), Some (time_UTC (go_time env hi)))
      | _ \<Rightarrow> (None, None))"

text \<open>The documents of a delivery: pickup, drop, rider (\<open>null\<close> for none) and metadata.\<close>

definition marshal_delivery :: "delivery \<Rightarrow> goerror + json \<times> json \<times> json \<times> json" where
  "marshal_delivery d =
     on_ok (marshalJSON (location_json (d_Pickup d))) (\<lambda>pickup.
     on_ok (marshalJSON (location_json (d_Drop d))) (\<lambda>dropLoc.
     on_ok (case d_Rider d of Some r \<Rightarrow> marshalJSON (rider_json r) | None \<Rightarrow> Inr JNull) (\<lambda>rider.
     on_ok (case d_Metadata d of Some m \<Rightarrow> marshalJSON (any_json (JObj m)) | None \<Rightarrow> Inr (JObj [])) (\<lambda>meta.
       Inr (pickup, dropLoc, rider, meta)))))"

definition delivery_params :: "delivery \<Rightarrow> json \<times> json \<times> json \<times> json \<Rightarrow> goerror + delivery_row" where
  "delivery_params d docs =
     (case docs of (pickup, dropLoc, rider, meta) \<Rightarrow>
     on_ok (sql_int4 (d_LegNumber d)) (\<lambda>leg.
     on_ok (sql_text (d_CarrierID d)) (\<lambda>carrier. on_ok (sql_text (d_CarrierVersion d)) (\<lambda>version.
     on_ok (sql_null sql_text (nullIfEmpty (d_CarrierExternalID d))) (\<lambda>ext.
     on_ok (sql_jsonb pickup) (\<lambda>pickup. on_ok (sql_jsonb dropLoc) (\<lambda>dropLoc.
     on_ok (sql_range (toTimestamptzRange (d_ScheduledWindowStart d) (d_ScheduledWindowEnd d))) (\<lambda>window.
     on_ok (sql_text (state_string (d_State d))) (\<lambda>state.
     on_ok (sql_null sql_text (nullIfEmpty (d_StateReason d))) (\<lambda>reason.
     on_ok (sql_jsonb rider) (\<lambda>rider.
     on_ok (sql_int4 (sint (d_PriceQuotedMinor d))) (\<lambda>quoted.
     on_ok (sql_null (sql_int4 \<circ> sint) (nullableInt64 (d_PriceChargedMinor d))) (\<lambda>charged.
     on_ok (sql_text (d_PriceCurrency d)) (\<lambda>currency.
     on_ok (sql_null sql_timestamptz (d_EstimatedPickupAt d)) (\<lambda>ep.
     on_ok (sql_null sql_timestamptz (d_EstimatedDropAt d)) (\<lambda>ed.
     on_ok (sql_null sql_timestamptz (d_ActualPickupAt d)) (\<lambda>ap.
     on_ok (sql_null sql_timestamptz (d_ActualDropAt d)) (\<lambda>ad.
     on_ok (sql_null sql_text (nullIfEmpty (d_IdempotencyKey d))) (\<lambda>key.
     on_ok (sql_jsonb meta) (\<lambda>meta.
     on_ok (sql_timestamptz (d_CreatedAt d)) (\<lambda>created. on_ok (sql_timestamptz (d_UpdatedAt d)) (\<lambda>updated.
       Inr \<lparr>dr_id = d_ID d, dr_awb_id = d_AWBID d, dr_leg_number = leg, dr_carrier_id = carrier,
            dr_carrier_version = version, dr_carrier_external_id = ext, dr_pickup = pickup, dr_drop = dropLoc,
            dr_scheduled_window = window, dr_state = state, dr_state_reason = reason, dr_rider = rider,
            dr_price_quoted_minor = quoted, dr_price_charged_minor = charged, dr_price_currency = currency,
            dr_estimated_pickup_at = ep, dr_estimated_drop_at = ed, dr_actual_pickup_at = ap,
            dr_actual_drop_at = ad, dr_idempotency_key = key, dr_metadata = meta,
            dr_created_at = created, dr_updated_at = updated\<rparr>))))))))))))))))))))))"

definition pgDel_Save :: "pg_env \<Rightarrow> delivery \<Rightarrow> pgdb \<Rightarrow> goerror option \<times> pgdb" where
  "pgDel_Save env d db =
     (case marshal_delivery d of
        Inl err \<Rightarrow> (Some err, db)
      | Inr docs \<Rightarrow>
          pg_exec env ''DeliveryRepo.Save'' ''postgres: save delivery: %w''
            (\<lambda>db. on_ok (delivery_params d docs) (\<lambda>r. sql_upsert_delivery (pg_now env db) r db)) db)"

text \<open>A JSON \<open>null\<close> in the metadata column leaves the map nil.\<close>

definition scan_metadata :: "json \<Rightarrow> goerror + (string \<times> json) list option" where
  "scan_metadata j =
     (case j of JObj m \<Rightarrow> Inr (Some m) | JNull \<Rightarrow> Inr None | _ \<Rightarrow> Inl json_mismatch)"

definition scanDelivery :: "pg_env \<Rightarrow> delivery_row \<Rightarrow> goerror + delivery" where
  "scanDelivery env r =
     on_ok (unmarshalJSON (location_of_json (dr_pickup r))) (\<lambda>pickup.
     on_ok (unmarshalJSON (location_of_json (dr_drop r))) (\<lambda>dropLoc.
     on_ok (scan_ptr rider_of_json (Some (dr_rider r))) (\<lambda>rider.
     on_ok (unmarshalJSON (scan_metadata (dr_metadata r))) (\<lambda>meta.
       Inr \<lparr>d_ID = dr_id r, d_AWBID = dr_awb_id r, d_LegNumber = dr_leg_number r, d_CarrierID = dr_carrier_id r,
            d_CarrierVersion = dr_carrier_version r,
            d_CarrierExternalID = emptyIfNull (dr_carrier_external_id r), d_Pickup = pickup, d_Drop = dropLoc,
            d_ScheduledWindowStart = fst (fromTimestamptzRange env (dr_scheduled_window r)),
            d_ScheduledWindowEnd = snd (fromTimestamptzRange env (dr_scheduled_window r)),
            d_State = State_of (dr_state r), d_StateReason = emptyIfNull (dr_state_reason r), d_Rider = rider,
            d_PriceQuotedMinor = of_int (dr_price_quoted_minor r),
            d_PriceChargedMinor = (case dr_price_charged_minor r of None \<Rightarrow> 0 | Some v \<Rightarrow> of_int v),
            d_PriceCurrency = dr_price_currency r,
            d_EstimatedPickupAt = map_option (go_time env) (dr_estimated_pickup_at r),
            d_EstimatedDropAt = map_option (go_time env) (dr_estimated_drop_at r),
            d_ActualPickupAt = map_option (go_time env) (dr_actual_pickup_at r),
            d_ActualDropAt = map_option (go_time env) (dr_actual_drop_at r),
            d_IdempotencyKey = emptyIfNull (dr_idempotency_key r), d_Metadata = meta,
            d_CreatedAt = go_time env (dr_created_at r), d_UpdatedAt = go_time env (dr_updated_at r)\<rparr>))))"

definition find_delivery :: "uuid \<Rightarrow> pgdb \<Rightarrow> delivery_row option" where
  "find_delivery i db = List.find (\<lambda>r. dr_id r = i) (tb_deliveries db)"

definition pgDel_GetByID :: "pg_env \<Rightarrow> uuid \<Rightarrow> pgdb \<Rightarrow> goerror + delivery" where
  "pgDel_GetByID env i db =
     on_ok (pg_query env ''DeliveryRepo.GetByID'' ''postgres: scan delivery: %w''
              (\<lambda>db. Inr (find_delivery i db)) db) (\<lambda>row.
       case row of None \<Rightarrow> Inl ErrNotFound | Some r \<Rightarrow> scanDelivery env r)"

definition pgDel_GetByCarrierExternalID :: "pg_env \<Rightarrow> string \<Rightarrow> string \<Rightarrow> pgdb \<Rightarrow> goerror + delivery" where
  "pgDel_GetByCarrierExternalID env carrierID externalID db =
     on_ok (pg_query env ''DeliveryRepo.GetByCarrierExternalID'' ''postgres: scan delivery: %w''
              (\<lambda>db. on_ok (sql_text carrierID) (\<lambda>c. on_ok (sql_text externalID) (\<lambda>x.
                 Inr (List.find (\<lambda>r. dr_carrier_id r = c \<and> dr_carrier_external_id r = Some x)
                        (tb_deliveries db))))) db) (\<lambda>row.
       case row of None \<Rightarrow> Inl ErrNotFound | Some r \<Rightarrow> scanDelivery env r)"

definition pgDel_ListByAWB :: "pg_env \<Rightarrow> uuid \<Rightarrow> pgdb \<Rightarrow> goerror + delivery list" where
  "pgDel_ListByAWB env i db =
     on_ok (pg_query env ''DeliveryRepo.ListByAWB'' ''postgres: list deliveries by awb: %w''
              (\<lambda>db. Inr (sel_deliveries_by_awb i db)) db) (each_ok (scanDelivery env))"

definition pgDel_ListByState :: "pg_env \<Rightarrow> dstate \<Rightarrow> int \<Rightarrow> pgdb \<Rightarrow> goerror + delivery list" where
  "pgDel_ListByState env st limit db =
     (let limit = (if limit \<le> 0 then 50 else limit)
      in on_ok (pg_query env ''DeliveryRepo.ListByState'' ''postgres: list deliveries by state: %w''
              (\<lambda>db. on_ok (sql_text (state_string st)) (\<lambda>x.
                 Inr (sel_deliveries_by_state env x (nat limit) db))) db) (each_ok (scanDelivery env)))"

definition pg_delivery_repo :: "pg_env \<Rightarrow> pgdb delivery_repo" where
  "pg_delivery_repo env =
     \<lparr>dr_Save = pgDel_Save env, dr_GetByID = pgDel_GetByID env,
      dr_GetByCarrierExternalID = pgDel_GetByCarrierExternalID env,
      dr_ListByAWB = pgDel_ListByAWB env, dr_ListByState = pgDel_ListByState env\<rparr>"

section \<open>Parcels\<close>

text \<open>A nil slice of external references is written as \<open>null\<close>, and read back as nil.\<close>

definition marshal_awb :: "awb \<Rightarrow> goerror + json \<times> json" where
  "marshal_awb a =
     on_ok (marshalJSON (if a_ExternalAWBs a = [] then Inr JNull else put_list external_json (a_ExternalAWBs a))) (\<lambda>ext.
     on_ok (marshalJSON (package_json (a_Package a))) (\<lambda>pkg. Inr (ext, pkg)))"

definition awb_params :: "awb \<Rightarrow> json \<times> json \<Rightarrow> goerror + awb_row" where
  "awb_params a docs =
     (case docs of (ext, pkg) \<Rightarrow>
     on_ok (sql_text (a_InternalAWB a)) (\<lambda>internal.
     on_ok (sql_jsonb ext) (\<lambda>ext. on_ok (sql_jsonb pkg) (\<lambda>pkg.
     on_ok (sql_int4 (sint (p_DeclaredValueMinor (a_Package a)))) (\<lambda>dv.
     on_ok (sql_null sql_text (nullIfEmpty (p_DeclaredValueCcy (a_Package a)))) (\<lambda>ccy.
     on_ok (sql_text (awb_state_string (a_State a))) (\<lambda>state.
     on_ok (sql_null sql_text (nullIfEmpty (a_StateReason a))) (\<lambda>reason.
     on_ok (sql_timestamptz (a_CreatedAt a)) (\<lambda>created. on_ok (sql_timestamptz (a_UpdatedAt a)) (\<lambda>updated.
       Inr \<lparr>wr_id = a_ID a, wr_internal_awb = internal, wr_retailer_id = a_RetailerID a,
            wr_customer_id = a_CustomerID a, wr_external_awbs = ext, wr_package = pkg,
            wr_declared_value_minor = dv, wr_declared_value_currency = ccy, wr_state = state,
            wr_state_reason = reason, wr_metadata = JObj [], wr_created_at = created,
            wr_updated_at = updated\<rparr>))))))))))"

definition pgAWB_Save :: "pg_env \<Rightarrow> awb \<Rightarrow> pgdb \<Rightarrow> goerror option \<times> pgdb" where
  "pgAWB_Save env a db =
     (case marshal_awb a of
        Inl err \<Rightarrow> (Some err, db)
      | Inr docs \<Rightarrow>
          pg_exec env ''AWBRepo.Save'' ''postgres: save awb: %w''
            (\<lambda>db. on_ok (awb_params a docs) (\<lambda>r. sql_upsert_awb (pg_now env db) r db)) db)"

text \<open>
  \<open>state_reason\<close> is scanned into a Go string, which has no room for \<open>NULL\<close>: a row whose reason was
  saved as \<open>NULL\<close> cannot be read.
\<close>

definition scanAWB :: "pg_env \<Rightarrow> awb_row \<Rightarrow> goerror + awb" where
  "scanAWB env r =
     (case wr_state_reason r of
        None \<Rightarrow> Inl (Wrapf ''postgres: scan awb: %w'' [] (External ''cannot scan NULL into *string''))
      | Some reason \<Rightarrow>
          on_ok (unmarshalJSON (get_list external_of_json (wr_external_awbs r))) (\<lambda>ext.
          on_ok (unmarshalJSON (package_of_json (wr_package r))) (\<lambda>pkg.
            Inr \<lparr>a_ID = wr_id r, a_InternalAWB = wr_internal_awb r, a_RetailerID = wr_retailer_id r,
                 a_CustomerID = wr_customer_id r, a_ExternalAWBs = ext, a_Package = pkg,
                 a_State = AwbState_of (wr_state r), a_StateReason = reason,
                 a_CreatedAt = go_time env (wr_created_at r), a_UpdatedAt = go_time env (wr_updated_at r)\<rparr>)))"

definition find_awb :: "uuid \<Rightarrow> pgdb \<Rightarrow> awb_row option" where
  "find_awb i db = List.find (\<lambda>r. wr_id r = i) (tb_awbs db)"

definition pgAWB_GetByID :: "pg_env \<Rightarrow> uuid \<Rightarrow> pgdb \<Rightarrow> goerror + awb" where
  "pgAWB_GetByID env i db =
     on_ok (pg_query env ''AWBRepo.GetByID'' ''postgres: scan awb: %w''
              (\<lambda>db. Inr (find_awb i db)) db) (\<lambda>row.
       case row of None \<Rightarrow> Inl ErrNotFound | Some r \<Rightarrow> scanAWB env r)"

definition pgAWB_GetByInternalAWB :: "pg_env \<Rightarrow> string \<Rightarrow> pgdb \<Rightarrow> goerror + awb" where
  "pgAWB_GetByInternalAWB env x db =
     on_ok (pg_query env ''AWBRepo.GetByInternalAWB'' ''postgres: scan awb: %w''
              (\<lambda>db. on_ok (sql_text x) (\<lambda>x.
                 Inr (List.find (\<lambda>r. wr_internal_awb r = x) (tb_awbs db)))) db) (\<lambda>row.
       case row of None \<Rightarrow> Inl ErrNotFound | Some r \<Rightarrow> scanAWB env r)"

definition pg_awb_repo :: "pg_env \<Rightarrow> pgdb awb_repo" where
  "pg_awb_repo env =
     \<lparr>ar_Save = pgAWB_Save env, ar_GetByID = pgAWB_GetByID env,
      ar_GetByInternalAWB = pgAWB_GetByInternalAWB env\<rparr>"

section \<open>Routing decisions and retailers\<close>

definition pgRouting_Save :: "pg_env \<Rightarrow> uuid \<Rightarrow> routing_decision_record \<Rightarrow> pgdb \<Rightarrow> goerror option \<times> pgdb" where
  "pgRouting_Save env i rec db =
     (case marshalJSON (any_json (JObj [(''carrier_id'', JStr (rd_ChosenID rec)), (''score'', JNum (rd_Score rec))])) of
        Inl err \<Rightarrow> (Some err, db)
      | Inr chosen \<Rightarrow>
          pg_exec env ''RoutingRepo.Save'' ''postgres: save routing decision: %w''
            (\<lambda>db. on_ok (sql_text (rd_Strategy rec)) (\<lambda>strategy.
               on_ok (sql_jsonb_text env (if rd_Candidates rec \<noteq> [] then rd_Candidates rec else ''[]'')) (\<lambda>candidates.
               on_ok (sql_jsonb chosen) (\<lambda>chosen.
               on_ok (sql_text (rd_Reasoning rec)) (\<lambda>reasoning.
                 sql_insert_routing \<lparr>ro_delivery_id = i, ro_strategy = strategy, ro_candidates = candidates,
                   ro_chosen = chosen, ro_reasoning = reasoning\<rparr> db))))) db)"

definition pg_routing_repo :: "pg_env \<Rightarrow> pgdb routing_repo" where
  "pg_routing_repo env = \<lparr>rr_Save = pgRouting_Save env\<rparr>"

text \<open>\<open>api_key_hash\<close> has no unique key: the first of the rows that match is read.\<close>

definition pgRetailer_GetByAPIKeyHash :: "pg_env \<Rightarrow> string \<Rightarrow> pgdb \<Rightarrow> goerror + retailer" where
  "pgRetailer_GetByAPIKeyHash env hash db =
     on_ok (pg_query env ''RetailerRepo.GetByAPIKeyHash'' ''postgres: scan retailer: %w''
              (\<lambda>db. on_ok (sql_text hash) (\<lambda>h.
                 Inr (List.find (\<lambda>r. rt_api_key_hash r = h) (tb_retailers db)))) db) (\<lambda>row.
       case row of
         None \<Rightarrow> Inl ErrNotFound
       | Some r \<Rightarrow> Inr \<lparr>re_ID = rt_id r, re_Name = rt_name r, re_Slug = rt_slug r, re_IsActive = rt_is_active r\<rparr>)"

definition pg_retailer_repo :: "pg_env \<Rightarrow> pgdb retailer_repo" where
  "pg_retailer_repo env = \<lparr>rt_GetByAPIKeyHash = pgRetailer_GetByAPIKeyHash env\<rparr>"

end
