(* ===== verification/PgStore.thy ===== *)
theory PgStore
  imports Postgres
begin

text \<open>
  What the Postgres repositories do, on every branch: the values that come back of a save
  (\<open>keep_delivery\<close>, \<open>keep_awb\<close>, and \<open>keep_event\<close> of \<open>Postgres\<close>), the invariant of the tables, and the
  contracts of \<open>Ports\<close> and \<open>Custody\<close>, which the interpretations at the end discharge.
  \<open>pg_awbs\<close>, \<open>pg_dels\<close> and \<open>pg_chain\<close> are what the program can read.
\<close>

section \<open>What comes back of a delivery and of a parcel\<close>

definition keep_window :: "pg_env \<Rightarrow> gotime option \<Rightarrow> gotime option \<Rightarrow> gotime option \<times> gotime option" where
  "keep_window env start fin =
     (case (start, fin) of
        (Some a, Some b) \<Rightarrow>
          (if t_ns a div 1000 = t_ns b div 1000 then (None, None)
           else (Some (time_UTC (keep_time env a)), Some (time_UTC (keep_time env b))))
      | _ \<Rightarrow> (None, None))"

definition keep_metadata :: "(string \<times> json) list option \<Rightarrow> (string \<times> json) list option" where
  "keep_metadata m =
     (case m of
        None \<Rightarrow> Some []
      | Some kvs \<Rightarrow>
          (case any_json (JObj kvs) of
             Inr (JObj kvs') \<Rightarrow> Some (map (map_prod id jsonb_value) kvs')
           | _ \<Rightarrow> None))"

definition keep_delivery :: "pg_env \<Rightarrow> delivery \<Rightarrow> delivery" where
  "keep_delivery env d =
     d\<lparr>d_Pickup := keep_location (d_Pickup d), d_Drop := keep_location (d_Drop d),
       d_ScheduledWindowStart := fst (keep_window env (d_ScheduledWindowStart d) (d_ScheduledWindowEnd d)),
       d_ScheduledWindowEnd := snd (keep_window env (d_ScheduledWindowStart d) (d_ScheduledWindowEnd d)),
       d_State := State_of (state_string (d_State d)), d_Rider := map_option keep_rider (d_Rider d),
       d_EstimatedPickupAt := map_option (keep_time env) (d_EstimatedPickupAt d),
       d_EstimatedDropAt := map_option (keep_time env) (d_EstimatedDropAt d),
       d_ActualPickupAt := map_option (keep_time env) (d_ActualPickupAt d),
       d_ActualDropAt := map_option (keep_time env) (d_ActualDropAt d),
       d_Metadata := keep_metadata (d_Metadata d),
       d_CreatedAt := keep_time env (d_CreatedAt d), d_UpdatedAt := keep_time env (d_UpdatedAt d)\<rparr>"

lemma sql_range_window:
  assumes "sql_range (toTimestamptzRange a b) = Inr r"
  shows "fromTimestamptzRange env r = keep_window env a b"
proof (cases "\<exists>x y. a = Some x \<and> b = Some y")
  case True
  then obtain x y where xy: "a = Some x" "b = Some y" by blast
  have us: "sql_timestamptz (time_UTC t) = Inr us \<Longrightarrow> us = t_ns t div 1000" for t us
    by (auto simp: sql_timestamptz_def Let_def split: if_splits)
  from assms obtain lo hi where "sql_timestamptz (time_UTC x) = Inr lo" "sql_timestamptz (time_UTC y) = Inr hi"
      "r = (if lo = hi then RangeEmpty else RangeOf lo hi)"
    by (auto simp: xy toTimestamptzRange_def sql_range_def split: if_splits)
  then show ?thesis using us [of x lo] us [of y hi]
    by (auto simp: xy keep_window_def fromTimestamptzRange_def keep_time_def)
next
  case False
  then have "toTimestamptzRange a b = None" "keep_window env a b = (None, None)"
    by (cases a; cases b; simp add: toTimestamptzRange_def keep_window_def)+
  with assms show ?thesis by (simp add: sql_range_def fromTimestamptzRange_def)
qed

lemma scan_metadata_keep:
  assumes "(case m of Some kvs \<Rightarrow> marshalJSON (any_json (JObj kvs)) | None \<Rightarrow> Inr (JObj [])) = Inr j"
  shows "scan_metadata (jsonb_value j) = Inr (keep_metadata m)"
  using assms by (cases m) (auto simp: scan_metadata_def keep_metadata_def)

lemma scan_rider_keep:
  assumes "(case p of Some r \<Rightarrow> marshalJSON (rider_json r) | None \<Rightarrow> Inr JNull) = Inr j"
  shows "scan_ptr rider_of_json (Some (jsonb_value j)) = Inr (map_option keep_rider p)"
proof (cases p)
  case None
  with assms show ?thesis by (simp add: scan_ptr_def)
next
  case (Some r)
  with assms codec_rider show ?thesis by (auto simp: scan_ptr_def codec_def)
qed

lemma scan_delivery_params:
  assumes "marshal_delivery d = Inr docs" "delivery_params d docs = Inr r"
  shows "scanDelivery env r = Inr (keep_delivery env d)"
    and "dr_id r = d_ID d" "dr_awb_id r = d_AWBID d"
    and "emptyIfNull (dr_idempotency_key r) = d_IdempotencyKey d"
proof -
  obtain pickup dropLoc rider meta where docs: "docs = (pickup, dropLoc, rider, meta)"
    and m: "location_json (d_Pickup d) = Inr pickup" "location_json (d_Drop d) = Inr dropLoc"
      "(case d_Rider d of Some r \<Rightarrow> marshalJSON (rider_json r) | None \<Rightarrow> Inr JNull) = Inr rider"
      "(case d_Metadata d of Some m \<Rightarrow> marshalJSON (any_json (JObj m)) | None \<Rightarrow> Inr (JObj [])) = Inr meta"
    using assms(1) by (auto simp: marshal_delivery_def)
  obtain leg ext p q window reason ri quoted charged ep ed ap ad key me created updated where
    cols: "sql_int4 (d_LegNumber d) = Inr leg" "sql_null sql_text (nullIfEmpty (d_CarrierExternalID d)) = Inr ext"
      "sql_jsonb pickup = Inr p" "sql_jsonb dropLoc = Inr q"
      "sql_range (toTimestamptzRange (d_ScheduledWindowStart d) (d_ScheduledWindowEnd d)) = Inr window"
      "sql_null sql_text (nullIfEmpty (d_StateReason d)) = Inr reason" "sql_jsonb rider = Inr ri"
      "sql_int4 (sint (d_PriceQuotedMinor d)) = Inr quoted"
      "sql_null (sql_int4 \<circ> sint) (nullableInt64 (d_PriceChargedMinor d)) = Inr charged"
      "sql_null sql_timestamptz (d_EstimatedPickupAt d) = Inr ep"
      "sql_null sql_timestamptz (d_EstimatedDropAt d) = Inr ed"
      "sql_null sql_timestamptz (d_ActualPickupAt d) = Inr ap"
      "sql_null sql_timestamptz (d_ActualDropAt d) = Inr ad"
      "sql_null sql_text (nullIfEmpty (d_IdempotencyKey d)) = Inr key" "sql_jsonb meta = Inr me"
      "sql_timestamptz (d_CreatedAt d) = Inr created" "sql_timestamptz (d_UpdatedAt d) = Inr updated"
    and r: "r = \<lparr>dr_id = d_ID d, dr_awb_id = d_AWBID d, dr_leg_number = leg, dr_carrier_id = d_CarrierID d,
            dr_carrier_version = d_CarrierVersion d, dr_carrier_external_id = ext, dr_pickup = p, dr_drop = q,
            dr_scheduled_window = window, dr_state = state_string (d_State d), dr_state_reason = reason,
            dr_rider = ri, dr_price_quoted_minor = quoted, dr_price_charged_minor = charged,
            dr_price_currency = d_PriceCurrency d, dr_estimated_pickup_at = ep, dr_estimated_drop_at = ed,
            dr_actual_pickup_at = ap, dr_actual_drop_at = ad, dr_idempotency_key = key, dr_metadata = me,
            dr_created_at = created, dr_updated_at = updated\<rparr>"
    using assms(2) by (auto simp: delivery_params_def docs)
  have pickup: "location_of_json p = Inr (keep_location (d_Pickup d))"
    and drop: "location_of_json q = Inr (keep_location (d_Drop d))"
    using sql_jsonb_Inr [OF cols(3)] sql_jsonb_Inr [OF cols(4)] codecD [OF codec_location m(1)]
      codecD [OF codec_location m(2)] by simp_all
  have rider: "scan_ptr rider_of_json (Some ri) = Inr (map_option keep_rider (d_Rider d))"
    using scan_rider_keep [OF m(3)] sql_jsonb_Inr [OF cols(7)] by simp
  have meta: "scan_metadata me = Inr (keep_metadata (d_Metadata d))"
    using scan_metadata_keep [OF m(4)] sql_jsonb_Inr [OF cols(15)] by simp
  have charged: "(case charged of None \<Rightarrow> 0 | Some v \<Rightarrow> of_int v) = d_PriceChargedMinor d"
    using cols(9) by (auto simp: nullableInt64_def sql_null_def dest!: sql_int4_Inr split: if_splits)
  show "scanDelivery env r = Inr (keep_delivery env d)"
    using sql_range_window [OF cols(5)] sql_int4_Inr [OF cols(1)] sql_int4_Inr [OF cols(8)]
      sql_null_text [OF cols(2)] sql_null_text [OF cols(6)] sql_null_text [OF cols(14)]
      sql_null_timestamptz [OF cols(10)] sql_null_timestamptz [OF cols(11)]
      sql_null_timestamptz [OF cols(12)] sql_null_timestamptz [OF cols(13)]
      sql_timestamptz_Inr [OF cols(16)] sql_timestamptz_Inr [OF cols(17)]
    by (simp add: scanDelivery_def keep_delivery_def r pickup drop rider meta charged)
  show "dr_id r = d_ID d" "dr_awb_id r = d_AWBID d" by (simp_all add: r)
  show "emptyIfNull (dr_idempotency_key r) = d_IdempotencyKey d"
    using sql_null_text [OF cols(14)] by (simp add: r)
qed

lemma scan_delivery_update:
  assumes "scanDelivery env r = Inr d"
  shows "scanDelivery env (delivery_do_update now r x) =
    Inr (d\<lparr>d_ID := dr_id x, d_AWBID := dr_awb_id x, d_LegNumber := dr_leg_number x,
           d_IdempotencyKey := emptyIfNull (dr_idempotency_key x), d_CreatedAt := go_time env (dr_created_at x),
           d_UpdatedAt := go_time env now\<rparr>)"
  using assms by (auto simp: scanDelivery_def delivery_do_update_def)

definition keep_awb :: "pg_env \<Rightarrow> awb \<Rightarrow> awb" where
  "keep_awb env a =
     a\<lparr>a_ExternalAWBs := map keep_external (a_ExternalAWBs a), a_Package := keep_package (a_Package a),
       a_State := AwbState_of (awb_state_string (a_State a)),
       a_CreatedAt := keep_time env (a_CreatedAt a), a_UpdatedAt := keep_time env (a_UpdatedAt a)\<rparr>"

lemma scan_awb_params:
  assumes "marshal_awb a = Inr docs" "awb_params a docs = Inr r"
  shows "scanAWB env r =
      (if a_StateReason a = [] then Inl (Wrapf ''postgres: scan awb: %w'' [] (External ''cannot scan NULL into *string''))
       else Inr (keep_awb env a))"
    and "wr_id r = a_ID a" "wr_internal_awb r = a_InternalAWB a"
proof -
  obtain ext pkg where docs: "docs = (ext, pkg)"
    and m: "(if a_ExternalAWBs a = [] then Inr JNull else put_list external_json (a_ExternalAWBs a)) = Inr ext"
      "package_json (a_Package a) = Inr pkg"
    using assms(1) by (auto simp: marshal_awb_def)
  obtain x p dv ccy reason created updated where
    cols: "sql_jsonb ext = Inr x" "sql_jsonb pkg = Inr p"
      "sql_null sql_text (nullIfEmpty (a_StateReason a)) = Inr reason"
      "sql_timestamptz (a_CreatedAt a) = Inr created" "sql_timestamptz (a_UpdatedAt a) = Inr updated"
    and r: "r = \<lparr>wr_id = a_ID a, wr_internal_awb = a_InternalAWB a, wr_retailer_id = a_RetailerID a,
            wr_customer_id = a_CustomerID a, wr_external_awbs = x, wr_package = p,
            wr_declared_value_minor = dv, wr_declared_value_currency = ccy,
            wr_state = awb_state_string (a_State a), wr_state_reason = reason, wr_metadata = JObj [],
            wr_created_at = created, wr_updated_at = updated\<rparr>"
    using assms(2) by (auto simp: awb_params_def docs)
  have ext: "get_list external_of_json x = Inr (map keep_external (a_ExternalAWBs a))"
  proof (cases "a_ExternalAWBs a = []")
    case True
    with m(1) sql_jsonb_Inr [OF cols(1)] show ?thesis by (auto simp: get_list_def)
  next
    case False
    with m(1) have "put_list external_json (a_ExternalAWBs a) = Inr ext" by simp
    from codecD [OF codec_list [OF codec_external] this] show ?thesis
      using sql_jsonb_Inr [OF cols(1)] by simp
  qed
  have pkg: "package_of_json p = Inr (keep_package (a_Package a))"
    using sql_jsonb_Inr [OF cols(2)] codecD [OF codec_package m(2)] by simp
  have reason: "reason = nullIfEmpty (a_StateReason a)" by (rule sql_null_text [OF cols(3)])
  show "scanAWB env r =
      (if a_StateReason a = [] then Inl (Wrapf ''postgres: scan awb: %w'' [] (External ''cannot scan NULL into *string''))
       else Inr (keep_awb env a))"
    using sql_timestamptz_Inr [OF cols(4)] sql_timestamptz_Inr [OF cols(5)]
    by (simp add: scanAWB_def keep_awb_def r ext pkg reason nullIfEmpty_def)
  show "wr_id r = a_ID a" "wr_internal_awb r = a_InternalAWB a" by (simp_all add: r)
qed

lemma scan_awb_update:
  "scanAWB env (awb_do_update now r x) =
     on_ok (scanAWB env r) (\<lambda>a. Inr (a\<lparr>a_ID := wr_id x, a_InternalAWB := wr_internal_awb x,
       a_RetailerID := wr_retailer_id x, a_CreatedAt := go_time env (wr_created_at x),
       a_UpdatedAt := go_time env now\<rparr>))"
  by (cases "wr_state_reason r"; cases "unmarshalJSON (get_list external_of_json (wr_external_awbs r))";
      cases "unmarshalJSON (package_of_json (wr_package r))")
    (auto simp: scanAWB_def awb_do_update_def)

section \<open>The stored values\<close>

definition row_event :: "pg_env \<Rightarrow> event_row \<Rightarrow> event" where
  "row_event env r = projr (scanCustodyEvent env r)"

definition row_delivery :: "pg_env \<Rightarrow> delivery_row \<Rightarrow> delivery" where
  "row_delivery env r = projr (scanDelivery env r)"

definition pg_chain :: "pg_env \<Rightarrow> pgdb \<Rightarrow> uuid \<Rightarrow> event list" where
  "pg_chain env db i = map (row_event env) (sel_events i db)"

definition pg_dels :: "pg_env \<Rightarrow> pgdb \<Rightarrow> uuid \<rightharpoonup> delivery" where
  "pg_dels env db i = map_option (row_delivery env) (find_delivery i db)"

definition pg_awbs :: "pg_env \<Rightarrow> pgdb \<Rightarrow> uuid \<rightharpoonup> awb" where
  "pg_awbs env db i =
     (case find_awb i db of
        None \<Rightarrow> None
      | Some r \<Rightarrow> (case scanAWB env r of Inl _ \<Rightarrow> None | Inr a \<Rightarrow> Some a))"

text \<open>The constraints of the schema, and every stored event and delivery can be read.\<close>

definition pg_inv :: "pg_env \<Rightarrow> pgdb \<Rightarrow> bool" where
  "pg_inv env db \<longleftrightarrow> schema_inv db \<and>
     (\<forall>r \<in> set (tb_events db). is_ok (scanCustodyEvent env r)) \<and>
     (\<forall>r \<in> set (tb_deliveries db). is_ok (scanDelivery env r))"

lemma is_ok_iff: "is_ok x \<longleftrightarrow> x = Inr (projr x)"
  by (cases x) simp_all

lemma pg_invD:
  assumes "pg_inv env db"
  shows "schema_inv db" "r \<in> set (tb_events db) \<Longrightarrow> scanCustodyEvent env r = Inr (row_event env r)"
    and "x \<in> set (tb_deliveries db) \<Longrightarrow> scanDelivery env x = Inr (row_delivery env x)"
  using assms by (auto simp: pg_inv_def is_ok_iff row_event_def row_delivery_def)

lemma sel_events_set: "set (sel_events i db) = {r \<in> set (tb_events db). er_delivery_id r = i}"
  by (auto simp: sel_events_def)

lemma row_event_fields:
  "scanCustodyEvent env r = Inr e \<Longrightarrow> e_EventID e = er_event_id r \<and> e_DeliveryID e = er_delivery_id r \<and>
     e_SequenceNum e = er_sequence_num r"
  by (auto simp: scanCustodyEvent_def)

lemma row_delivery_fields:
  "scanDelivery env r = Inr d \<Longrightarrow> d_ID d = dr_id r \<and> d_AWBID d = dr_awb_id r \<and>
     d_CarrierID d = dr_carrier_id r \<and> d_CarrierExternalID d = emptyIfNull (dr_carrier_external_id r) \<and>
     d_IdempotencyKey d = emptyIfNull (dr_idempotency_key r) \<and> d_State d = State_of (dr_state r)"
  by (auto simp: scanDelivery_def)

lemma find_delivery_None: "find_delivery i db = None \<longleftrightarrow> i \<notin> dr_id ` set (tb_deliveries db)"
  by (auto simp: find_delivery_def find_None_iff)

lemma find_deliveryD: "find_delivery i db = Some r \<Longrightarrow> r \<in> set (tb_deliveries db) \<and> dr_id r = i"
  by (auto simp: find_delivery_def dest: find_SomeD)

lemma find_delivery_in:
  "schema_inv db \<Longrightarrow> r \<in> set (tb_deliveries db) \<Longrightarrow> find_delivery (dr_id r) db = Some r"
  by (auto simp: find_delivery_def schema_inv_def deliveries_ok_def intro: find_by_key)

lemma pg_dels_in:
  assumes "pg_inv env db" "r \<in> set (tb_deliveries db)" "scanDelivery env r = Inr d"
  shows "pg_dels env db (d_ID d) = Some d"
  using assms find_delivery_in [OF pg_invD(1) [OF assms(1)] assms(2)] row_delivery_fields [OF assms(3)]
  by (simp add: pg_dels_def row_delivery_def)

lemma pg_dels_Some:
  assumes "pg_inv env db" "pg_dels env db i = Some d"
  shows "\<exists>r \<in> set (tb_deliveries db). dr_id r = i \<and> scanDelivery env r = Inr d \<and> d_ID d = i"
proof -
  from assms(2) obtain r where r: "find_delivery i db = Some r" "d = row_delivery env r"
    by (auto simp: pg_dels_def)
  then have "r \<in> set (tb_deliveries db)" "dr_id r = i" "scanDelivery env r = Inr d"
    using find_deliveryD pg_invD(3) [OF assms(1)] by auto
  then show ?thesis using row_delivery_fields by blast
qed

section \<open>Sorting by the sequence number\<close>

lemma insort_key_snoc: "f x \<le> f r \<Longrightarrow> insort_key f x (ys @ [r]) = insort_key f x ys @ [r]"
  by (induction ys) auto

lemma sort_key_snoc: "\<forall>x \<in> set xs. f x \<le> f r \<Longrightarrow> sort_key f (xs @ [r]) = sort_key f xs @ [r]"
  by (induction xs) (auto simp: insort_key_snoc)

lemma last_sort_key_max: "xs \<noteq> [] \<Longrightarrow> x \<in> set xs \<Longrightarrow> f x \<le> f (last (sort_key f xs))"
proof -
  assume xs: "xs \<noteq> []" "x \<in> set xs"
  let ?ys = "sort_key f xs"
  have "?ys \<noteq> []" using xs(1) by (metis set_empty set_sort)
  moreover have "x \<in> set ?ys" using xs(2) by simp
  then obtain i where i: "i < length ?ys" "?ys ! i = x" by (metis in_set_conv_nth)
  moreover have "map f ?ys ! i \<le> map f ?ys ! (length ?ys - 1)"
    using i by (intro sorted_nth_mono sorted_sort_key) auto
  ultimately show ?thesis by (simp add: last_conv_nth)
qed

lemma hd_sort_key_min: "xs \<noteq> [] \<Longrightarrow> x \<in> set xs \<Longrightarrow> f (hd (sort_key f xs)) \<le> f x"
proof -
  assume xs: "xs \<noteq> []" "x \<in> set xs"
  let ?ys = "sort_key f xs"
  have ne: "?ys \<noteq> []" using xs(1) by (metis set_empty set_sort)
  have "x \<in> set ?ys" using xs(2) by simp
  then obtain i where i: "i < length ?ys" "?ys ! i = x" by (metis in_set_conv_nth)
  have "map f ?ys ! 0 \<le> map f ?ys ! i"
    using i by (intro sorted_nth_mono sorted_sort_key) auto
  moreover have "map f ?ys ! 0 = f (hd ?ys)" using i ne by (subst nth_map) (auto simp: hd_conv_nth)
  ultimately show ?thesis using i by simp
qed

lemma hd_sort_neg:
  fixes f :: "'a \<Rightarrow> int"
  assumes "xs \<noteq> []" "\<And>x y. x \<in> set xs \<Longrightarrow> y \<in> set xs \<Longrightarrow> f x = f y \<Longrightarrow> x = y"
  shows "hd (sort_key (\<lambda>x. - f x) xs) = last (sort_key f xs)"
proof -
  let ?h = "hd (sort_key (\<lambda>x. - f x) xs)" and ?l = "last (sort_key f xs)"
  have h: "?h \<in> set xs" by (metis assms(1) hd_in_set set_empty set_sort)
  have l: "?l \<in> set xs" by (metis assms(1) last_in_set set_empty set_sort)
  have "f ?l \<le> f ?h" using hd_sort_key_min [OF assms(1) l, of "\<lambda>x. - f x"] by simp
  moreover have "f ?h \<le> f ?l" by (rule last_sort_key_max [OF assms(1) h])
  ultimately show ?thesis using assms(2) [OF h l] by simp
qed

lemma seq_inj:
  assumes "schema_inv db" "r \<in> set (tb_events db)" "x \<in> set (tb_events db)"
    "er_delivery_id r = er_delivery_id x" "sint (er_sequence_num r) = sint (er_sequence_num x)"
  shows "r = x"
proof -
  have "distinct (map (\<lambda>r. (er_delivery_id r, er_sequence_num r)) (tb_events db))"
    using assms(1) by (simp add: schema_inv_def events_ok_def)
  then show ?thesis using assms(2-5) signed_word_eqI [OF assms(5)] by (auto dest: distinct_mapD)
qed

lemma sel_last_event_last:
  assumes "schema_inv db"
  shows "sel_last_event i db = (if sel_events i db = [] then None else Some (last (sel_events i db)))"
proof (cases "filter (\<lambda>r. er_delivery_id r = i) (tb_events db) = []")
  case True
  then show ?thesis by (simp add: sel_last_event_def sel_events_def)
next
  case False
  let ?xs = "filter (\<lambda>r. er_delivery_id r = i) (tb_events db)"
  have "hd (sort_key (\<lambda>r. - sint (er_sequence_num r)) ?xs) = last (sel_events i db)"
    unfolding sel_events_def by (rule hd_sort_neg [OF False]) (auto intro: seq_inj [OF assms])
  moreover have "sort_key (\<lambda>r. - sint (er_sequence_num r)) ?xs \<noteq> []" "sel_events i db \<noteq> []"
    using False by (metis set_empty set_sort, metis False sel_events_def set_empty set_sort)
  ultimately show ?thesis
    by (cases "sort_key (\<lambda>r. - sint (er_sequence_num r)) ?xs") (simp_all add: sel_last_event_def)
qed

text \<open>The next number is greater than the ones in use: a table has fewer rows than numbers.\<close>

lemma sint_of_nat_small: "n < 2 ^ 63 \<Longrightarrow> sint (of_nat n :: int64) = int n"
  using sint_of_int64 [of "int n"] by (simp add: int64_range_def)

lemma sel_events_snoc:
  assumes "schema_inv db" "numbered (pg_chain env db i)" "pg_inv env db"
    and "er_delivery_id r = i" "er_sequence_num r = of_nat (length (pg_chain env db i))"
    and "tb_events db' = tb_events db @ [r]"
  shows "sel_events i db' = sel_events i db @ [r]"
proof -
  let ?xs = "filter (\<lambda>r. er_delivery_id r = i) (tb_events db)"
  let ?n = "length (sel_events i db)"
  have "?n \<le> length (tb_events db)" by (simp add: sel_events_def)
  moreover have "int (length (tb_events db)) \<le> pg_max_rows"
    using assms(1) by (simp add: schema_inv_def events_ok_def)
  ultimately have n: "?n < 2 ^ 63" by (simp add: pg_max_rows_def)
  have "sint (er_sequence_num x) \<le> sint (er_sequence_num r)" if "x \<in> set ?xs" for x
  proof -
    from that have "x \<in> set (sel_events i db)" by (auto simp: sel_events_set)
    then obtain k where k: "k < ?n" "sel_events i db ! k = x" by (auto simp: in_set_conv_nth)
    have "scanCustodyEvent env x = Inr (row_event env x)" using that pg_invD(2) [OF assms(3)] by simp
    then have "er_sequence_num x = e_SequenceNum (pg_chain env db i ! k)"
      using row_event_fields [of env x "row_event env x"] k by (simp add: pg_chain_def)
    moreover have "e_SequenceNum (pg_chain env db i ! k) = of_nat k"
      using assms(2) k(1) by (simp add: numbered_def pg_chain_def del: nth_map)
    ultimately have "er_sequence_num x = of_nat k" by (rule trans)
    then show ?thesis using k(1) n assms(5) by (simp add: sint_of_nat_small pg_chain_def)
  qed
  then show ?thesis
    using assms(4,6) by (simp add: sel_events_def sort_key_snoc)
qed

lemma sel_events_other:
  "er_delivery_id r \<noteq> i \<Longrightarrow> tb_events db' = tb_events db @ [r] \<Longrightarrow> sel_events i db' = sel_events i db"
  by (simp add: sel_events_def)

end
