(* ===== verification/PgContracts.thy ===== *)
theory PgContracts
  imports PgStore
begin

text \<open>
  The repositories of \<open>Postgres\<close> keep the contracts of \<open>Ports\<close> and \<open>Custody\<close>: what each save does to
  what the program can read, and the interpretations of the locales. \<open>plain_event\<close> describes the
  events that are read back as they were hashed.
\<close>

section \<open>Statements\<close>

lemma pg_exec_None: "pg_exec env n msg stmt db = (None, db') \<longleftrightarrow> pg_fault env n db = None \<and> stmt db = Inr db'"
  by (auto simp: pg_exec_def split: option.splits sum.splits)

lemma pg_exec_Some: "pg_exec env n msg stmt db = (Some err, db') \<Longrightarrow> db' = db"
  by (auto simp: pg_exec_def split: option.splits sum.splits)

lemma pg_query_Inr: "pg_query env n msg stmt db = Inr x \<longleftrightarrow> pg_fault env n db = None \<and> stmt db = Inr x"
  by (auto simp: pg_query_def split: option.splits sum.splits)

lemma pg_query_not_ErrNotFound: "pg_query env n msg stmt db \<noteq> Inl ErrNotFound"
  by (auto simp: pg_query_def ErrNotFound_def errors_New_def split: option.splits sum.splits)

lemma each_ok_mem: "each_ok f xs = Inr ys \<Longrightarrow> y \<in> set ys \<Longrightarrow> \<exists>x \<in> set xs. f x = Inr y"
  by (induction xs arbitrary: ys) auto

lemma find_upd:
  assumes "\<And>y. f (g y) = f y"
  shows "List.find (\<lambda>r. f r = i) (map (\<lambda>y. if f y = k then g y else y) xs) =
    (if i = k then map_option g (List.find (\<lambda>r. f r = i) xs) else List.find (\<lambda>r. f r = i) xs)"
  using assms by (induction xs) auto

section \<open>Appending an event\<close>

lemma pgCus_Append_None:
  assumes "pgCus_Append env e db = (None, db')"
  shows "\<exists>docs r. marshal_event e = Inr docs \<and> event_params env e docs = Inr r \<and> sql_insert_event r db = Inr db'"
  using assms by (auto simp: pgCus_Append_def pg_exec_None split: sum.splits)

lemma pgCus_Append_Some: "pgCus_Append env e db = (Some err, db') \<Longrightarrow> db' = db"
  by (auto simp: pgCus_Append_def dest: pg_exec_Some split: sum.splits)

lemma sql_insert_event_cases:
  "sql_insert_event r db = Inr db' \<Longrightarrow>
     (if er_event_id r \<in> er_event_id ` set (tb_events db) then db' = db
      else db' = db\<lparr>tb_events := tb_events db @ [r]\<rparr>)"
  by (auto simp: sql_insert_event_def image_iff split: if_splits)

lemma chain_id:
  assumes "pg_inv env db" "x \<in> set (tb_events db)"
  shows "er_event_id x \<in> e_EventID ` set (pg_chain env db (er_delivery_id x))"
proof -
  have "row_event env x \<in> set (pg_chain env db (er_delivery_id x))"
    using assms(2) by (auto simp: pg_chain_def sel_events_set)
  moreover have "e_EventID (row_event env x) = er_event_id x"
    using row_event_fields [OF pg_invD(2) [OF assms]] by simp
  ultimately show ?thesis by force
qed

lemma pg_chain_append:
  assumes inv: "pg_inv env db" and app: "pgCus_Append env e db = (None, db')"
    and fresh: "\<forall>d. e_EventID e \<notin> e_EventID ` set (pg_chain env db d)"
    and num: "numbered (pg_chain env db (e_DeliveryID e))"
    and seq: "e_SequenceNum e = of_nat (length (pg_chain env db (e_DeliveryID e)))"
  shows "pg_chain env db' =
    (pg_chain env db)(e_DeliveryID e := pg_chain env db (e_DeliveryID e) @ [keep_event env e])"
proof -
  obtain docs r where m: "marshal_event e = Inr docs" "event_params env e docs = Inr r"
    and ins: "sql_insert_event r db = Inr db'" using pgCus_Append_None [OF app] by blast
  note r = scan_event_params [OF m]
  have row: "row_event env r = keep_event env e" by (simp add: row_event_def r(1))
  have "er_event_id r \<notin> er_event_id ` set (tb_events db)"
    using chain_id [OF inv] fresh r(2) by (metis imageE)
  with sql_insert_event_cases [OF ins] have db': "tb_events db' = tb_events db @ [r]" by simp
  have "sel_events (e_DeliveryID e) db' = sel_events (e_DeliveryID e) db @ [r]"
    using sel_events_snoc [OF pg_invD(1) [OF inv] num inv r(3) _ db'] seq r(4) by simp
  moreover have "sel_events i db' = sel_events i db" if "i \<noteq> e_DeliveryID e" for i
    using sel_events_other [OF _ db', of i] r(3) that by simp
  ultimately show ?thesis by (auto simp: fun_eq_iff pg_chain_def row)
qed

lemma pg_inv_append:
  assumes inv: "pg_inv env db" and app: "pgCus_Append env e db = (r, db')"
  shows "pg_inv env db'"
proof (cases r)
  case None
  obtain docs x where m: "marshal_event e = Inr docs" "event_params env e docs = Inr x"
    and ins: "sql_insert_event x db = Inr db'" using pgCus_Append_None app None by blast
  have "schema_inv db'" by (rule schema_inv_insert_event [OF pg_invD(1) [OF inv] ins])
  moreover have "is_ok (scanCustodyEvent env x)" by (simp add: scan_event_params(1) [OF m])
  ultimately show ?thesis
    using inv sql_insert_event_cases [OF ins] by (auto simp: pg_inv_def split: if_splits)
next
  case (Some err)
  with pgCus_Append_Some app inv show ?thesis by blast
qed

lemma pg_append_frame:
  assumes "pgCus_Append env e db = (r, db')"
  shows "pg_awbs env db' = pg_awbs env db \<and> pg_dels env db' = pg_dels env db"
proof (cases r)
  case None
  then obtain x where "sql_insert_event x db = Inr db'" using pgCus_Append_None assms by blast
  then show ?thesis
    by (auto dest!: sql_insert_event_frame simp: fun_eq_iff pg_awbs_def pg_dels_def find_awb_def find_delivery_def)
next
  case (Some err)
  with pgCus_Append_Some assms show ?thesis by blast
qed

lemma pgCus_Last_ok:
  assumes "pg_inv env db" "pgCus_LastByDelivery env i db = Inr prev"
  shows "prev = (if pg_chain env db i = [] then None else Some (last (pg_chain env db i)))"
proof (cases "sel_events i db = []")
  case True
  with assms sel_last_event_last [OF pg_invD(1) [OF assms(1)], of i] show ?thesis
    by (auto simp: pgCus_LastByDelivery_def pg_query_Inr pg_chain_def)
next
  case False
  then have "last (sel_events i db) \<in> set (tb_events db)" using last_in_set sel_events_set by fastforce
  from pg_invD(2) [OF assms(1) this] False assms sel_last_event_last [OF pg_invD(1) [OF assms(1)], of i]
  show ?thesis by (auto simp: pgCus_LastByDelivery_def pg_query_Inr pg_chain_def last_map)
qed

lemma pgCus_List_ok:
  assumes "pg_inv env db" "pgCus_ListByDelivery env i db = Inr es"
  shows "es = pg_chain env db i"
proof -
  have "each_ok (scanCustodyEvent env) (sel_events i db) = Inr (map (row_event env) (sel_events i db))"
    by (rule each_ok_Inr) (auto simp: sel_events_set pg_invD(2) [OF assms(1)])
  with assms(2) show ?thesis by (auto simp: pgCus_ListByDelivery_def pg_query_Inr pg_chain_def)
qed

text \<open>Without a fault both queries answer: every stored row can be scanned.\<close>

lemma pgCus_List_answers:
  assumes "pg_inv env db" "pg_fault env ''CustodyRepo.ListByDelivery'' db = None"
  shows "pgCus_ListByDelivery env i db = Inr (pg_chain env db i)"
proof -
  have "each_ok (scanCustodyEvent env) (sel_events i db) = Inr (map (row_event env) (sel_events i db))"
    by (rule each_ok_Inr) (auto simp: sel_events_set pg_invD(2) [OF assms(1)])
  with assms(2) show ?thesis by (simp add: pgCus_ListByDelivery_def pg_query_def pg_chain_def)
qed

lemma pgCus_Last_answers:
  assumes "pg_inv env db" "pg_fault env ''CustodyRepo.LastByDelivery'' db = None"
  shows "pgCus_LastByDelivery env i db =
    Inr (if pg_chain env db i = [] then None else Some (last (pg_chain env db i)))"
proof -
  have "scanCustodyEvent env (last (sel_events i db)) = Inr (row_event env (last (sel_events i db)))"
    if "sel_events i db \<noteq> []"
    using that last_in_set [OF that] sel_events_set by (intro pg_invD(2) [OF assms(1)]) fastforce
  with assms(2) sel_last_event_last [OF pg_invD(1) [OF assms(1)], of i] show ?thesis
    by (simp add: pgCus_LastByDelivery_def pg_query_def pg_chain_def last_map)
qed

section \<open>Saving a delivery\<close>

text \<open>What is stored of a delivery: a row that is already there keeps its keys and its creation time.\<close>

definition pg_stored_delivery :: "pg_env \<Rightarrow> pgdb \<Rightarrow> delivery \<Rightarrow> delivery" where
  "pg_stored_delivery env db d =
     (case pg_dels env db (d_ID d) of
        None \<Rightarrow> keep_delivery env d
      | Some d0 \<Rightarrow> (keep_delivery env d)\<lparr>d_AWBID := d_AWBID d0, d_LegNumber := d_LegNumber d0,
          d_IdempotencyKey := d_IdempotencyKey d0, d_CreatedAt := d_CreatedAt d0,
          d_UpdatedAt := go_time env (pg_now env db)\<rparr>)"

lemma row_delivery_row:
  assumes "scanDelivery env x = Inr d"
  shows "dr_id x = d_ID d" "dr_awb_id x = d_AWBID d" "dr_leg_number x = d_LegNumber d"
    "emptyIfNull (dr_idempotency_key x) = d_IdempotencyKey d" "go_time env (dr_created_at x) = d_CreatedAt d"
  using assms by (auto simp: scanDelivery_def)

lemma pgDel_Save_None:
  assumes "pgDel_Save env d db = (None, db')"
  shows "\<exists>docs r. marshal_delivery d = Inr docs \<and> delivery_params d docs = Inr r \<and>
    sql_upsert_delivery (pg_now env db) r db = Inr db'"
  using assms by (auto simp: pgDel_Save_def pg_exec_None split: sum.splits)

lemma pgDel_Save_Some: "pgDel_Save env d db = (Some err, db') \<Longrightarrow> db' = db"
  by (auto simp: pgDel_Save_def dest: pg_exec_Some split: sum.splits)

lemma sql_upsert_delivery_cases:
  "sql_upsert_delivery now r db = Inr db' \<Longrightarrow>
     (if find_delivery (dr_id r) db = None then db' = db\<lparr>tb_deliveries := tb_deliveries db @ [r]\<rparr>
      else db' = db\<lparr>tb_deliveries :=
        map (\<lambda>y. if dr_id y = dr_id r then delivery_do_update now r y else y) (tb_deliveries db)\<rparr>)"
  by (auto simp: sql_upsert_delivery_def find_delivery_def split: if_splits option.splits)

lemma pg_delivery_saved:
  assumes inv: "pg_inv env db" and save: "pgDel_Save env d db = (None, db')"
  shows "pg_dels env db' = (pg_dels env db)(d_ID d \<mapsto> pg_stored_delivery env db d)"
    and "pg_inv env db'"
proof -
  obtain docs r where m: "marshal_delivery d = Inr docs" "delivery_params d docs = Inr r"
    and ups: "sql_upsert_delivery (pg_now env db) r db = Inr db'" using pgDel_Save_None [OF save] by blast
  note r = scan_delivery_params [OF m]
  note schema = schema_inv_upsert_delivery [OF pg_invD(1) [OF inv] ups]
  note events = sql_upsert_delivery_frame [OF ups]
  let ?u = "delivery_do_update (pg_now env db) r"
  show "pg_dels env db' = (pg_dels env db)(d_ID d \<mapsto> pg_stored_delivery env db d)"
  proof (cases "find_delivery (d_ID d) db")
    case None
    then have db': "tb_deliveries db' = tb_deliveries db @ [r]"
      using sql_upsert_delivery_cases [OF ups] by (simp add: r(2))
    have "find_delivery i db' = (if i = d_ID d then Some r else find_delivery i db)" for i
      using None by (auto simp: find_delivery_def db' find_snoc r(2) split: option.splits)
    then show ?thesis
      using None by (auto simp: fun_eq_iff pg_dels_def pg_stored_delivery_def row_delivery_def r(1))
  next
    case (Some x)
    then have db': "tb_deliveries db' = map (\<lambda>y. if dr_id y = dr_id r then ?u y else y) (tb_deliveries db)"
      using sql_upsert_delivery_cases [OF ups] by (simp add: r(2))
    have find: "find_delivery i db' = (if i = d_ID d then Some (?u x) else find_delivery i db)" for i
      using Some find_upd [of dr_id ?u i "dr_id r" "tb_deliveries db"]
      by (auto simp: find_delivery_def db' r(2))
    have x: "x \<in> set (tb_deliveries db)" "dr_id x = d_ID d" using find_deliveryD [OF Some] by simp_all
    have "row_delivery env (?u x) = (keep_delivery env d)\<lparr>d_ID := dr_id x, d_AWBID := dr_awb_id x,
        d_LegNumber := dr_leg_number x, d_IdempotencyKey := emptyIfNull (dr_idempotency_key x),
        d_CreatedAt := go_time env (dr_created_at x), d_UpdatedAt := go_time env (pg_now env db)\<rparr>"
      by (simp add: row_delivery_def scan_delivery_update [OF r(1)])
    also have "\<dots> = pg_stored_delivery env db d"
      using x(2) by (simp add: pg_stored_delivery_def pg_dels_def Some keep_delivery_def
          row_delivery_row(2-5) [OF pg_invD(3) [OF inv x(1)]])
    finally have "row_delivery env (?u x) = pg_stored_delivery env db d" .
    then show ?thesis by (auto simp: fun_eq_iff pg_dels_def find)
  qed
  have upd: "is_ok (scanDelivery env (?u y))" for y by (simp add: scan_delivery_update [OF r(1)])
  have "\<forall>y \<in> set (tb_deliveries db'). is_ok (scanDelivery env y)"
    using sql_upsert_delivery_cases [OF ups] inv r(1) upd
    by (auto simp: pg_inv_def split: if_splits)
  then show "pg_inv env db'" using inv schema events by (simp add: pg_inv_def)
qed

lemma pg_inv_save_delivery: "pg_inv env db \<Longrightarrow> pgDel_Save env d db = (r, db') \<Longrightarrow> pg_inv env db'"
  using pg_delivery_saved(2) pgDel_Save_Some by (cases r) blast+

lemma pg_delivery_frame:
  assumes "pgDel_Save env d db = (r, db')"
  shows "pg_awbs env db' = pg_awbs env db \<and> pg_chain env db' = pg_chain env db"
proof (cases r)
  case None
  then obtain now x where "sql_upsert_delivery now x db = Inr db'" using pgDel_Save_None assms by blast
  then show ?thesis
    by (auto dest!: sql_upsert_delivery_frame simp: fun_eq_iff pg_awbs_def pg_chain_def find_awb_def sel_events_def)
next
  case (Some err)
  with pgDel_Save_Some assms show ?thesis by blast
qed

lemma keep_delivery_same:
  assumes "declared_state (d_State d)" "declared_location (l_Type (d_Pickup d))"
  shows "same_delivery d (keep_delivery env d)"
proof -
  have "utf8_coerce (location_type_string (l_Type (d_Pickup d))) = location_type_string (l_Type (d_Pickup d))"
    using assms(2) by (cases "l_Type (d_Pickup d)") (simp_all add: utf8_valid_ascii)
  then show ?thesis
    using assms by (simp add: same_delivery_def keep_delivery_def keep_location_def State_of_declared
        LocationType_of_declared)
qed

lemma pg_stored_delivery_same:
  assumes "delivery_storable (pg_dels env db) d"
  shows "same_delivery d (pg_stored_delivery env db d)"
proof -
  have same: "same_delivery d (keep_delivery env d)"
    using assms keep_delivery_same by (simp add: delivery_storable_def)
  show ?thesis
  proof (cases "pg_dels env db (d_ID d)")
    case None
    with same show ?thesis by (simp add: pg_stored_delivery_def)
  next
    case (Some d0)
    with assms have "d_AWBID d0 = d_AWBID d" "d_IdempotencyKey d0 = d_IdempotencyKey d"
      by (simp_all add: delivery_storable_def)
    with same Some show ?thesis by (simp add: pg_stored_delivery_def same_delivery_def)
  qed
qed

section \<open>Saving a parcel\<close>

lemma pgAWB_Save_None:
  assumes "pgAWB_Save env a db = (None, db')"
  shows "\<exists>docs r. marshal_awb a = Inr docs \<and> awb_params a docs = Inr r \<and>
    sql_upsert_awb (pg_now env db) r db = Inr db'"
  using assms by (auto simp: pgAWB_Save_def pg_exec_None split: sum.splits)

lemma pgAWB_Save_Some: "pgAWB_Save env a db = (Some err, db') \<Longrightarrow> db' = db"
  by (auto simp: pgAWB_Save_def dest: pg_exec_Some split: sum.splits)

lemma sql_upsert_awb_cases:
  "sql_upsert_awb now r db = Inr db' \<Longrightarrow>
     (if find_awb (wr_id r) db = None then db' = db\<lparr>tb_awbs := tb_awbs db @ [r]\<rparr>
      else db' = db\<lparr>tb_awbs := map (\<lambda>y. if wr_id y = wr_id r then awb_do_update now r y else y) (tb_awbs db)\<rparr>)"
  by (auto simp: sql_upsert_awb_def find_awb_def split: if_splits option.splits)

lemma f_pos0_cmp:
  "f_lt x (f_pos0 y) = f_lt x y" "f_lt (f_pos0 y) x = f_lt y x" "f_le (f_pos0 y) x = f_le y x"
  by (cases y; simp add: f_pos0_def f_le_def f_lt_def f_eq_def)+

lemma validatePackage_keep [simp]: "validatePackage (keep_package p) = validatePackage p"
  by (simp add: validatePackage_def keep_package_def f_pos0_cmp)

lemma keep_awb_same: "declared_awb_state (a_State a) \<Longrightarrow> same_awb a (keep_awb env a)"
  by (simp add: same_awb_def keep_awb_def AwbState_of_declared)

lemma pg_awb_saved:
  assumes storable: "awb_storable a" and save: "pgAWB_Save env a db = (None, db')"
  shows "\<exists>a'. same_awb a a' \<and> pg_awbs env db' = (pg_awbs env db)(a_ID a \<mapsto> a')"
proof -
  obtain docs r where m: "marshal_awb a = Inr docs" "awb_params a docs = Inr r"
    and ups: "sql_upsert_awb (pg_now env db) r db = Inr db'" using pgAWB_Save_None [OF save] by blast
  have same: "same_awb a (keep_awb env a)" using storable keep_awb_same by (simp add: awb_storable_def)
  have scan: "scanAWB env r = Inr (keep_awb env a)"
    using scan_awb_params(1) [where env = env, OF m] storable by (simp add: awb_storable_def)
  note id = scan_awb_params(2) [OF m]
  show ?thesis
  proof (cases "find_awb (a_ID a) db")
    case None
    then have "tb_awbs db' = tb_awbs db @ [r]"
      using sql_upsert_awb_cases [OF ups] by (simp add: id)
    then have "find_awb i db' = (if i = a_ID a then Some r else find_awb i db)" for i
      using None by (auto simp: find_awb_def find_snoc id split: option.splits)
    then have "pg_awbs env db' = (pg_awbs env db)(a_ID a \<mapsto> keep_awb env a)"
      by (auto simp: fun_eq_iff pg_awbs_def scan)
    with same show ?thesis by blast
  next
    case (Some x)
    let ?u = "awb_do_update (pg_now env db) r"
    have "tb_awbs db' = map (\<lambda>y. if wr_id y = wr_id r then ?u y else y) (tb_awbs db)"
      using sql_upsert_awb_cases [OF ups] Some by (simp add: id)
    then have find: "find_awb i db' = (if i = a_ID a then Some (?u x) else find_awb i db)" for i
      using Some find_upd [of wr_id ?u i "wr_id r" "tb_awbs db"] by (auto simp: find_awb_def id)
    have x: "wr_id x = a_ID a" using Some by (auto simp: find_awb_def dest: find_SomeD)
    let ?a' = "(keep_awb env a)\<lparr>a_ID := wr_id x, a_InternalAWB := wr_internal_awb x,
       a_RetailerID := wr_retailer_id x, a_CreatedAt := go_time env (wr_created_at x),
       a_UpdatedAt := go_time env (pg_now env db)\<rparr>"
    have "scanAWB env (?u x) = Inr ?a'" by (simp add: scan_awb_update scan)
    then have "pg_awbs env db' = (pg_awbs env db)(a_ID a \<mapsto> ?a')"
      by (auto simp: fun_eq_iff pg_awbs_def find)
    moreover have "same_awb a ?a'" using same x by (simp add: same_awb_def)
    ultimately show ?thesis by blast
  qed
qed

lemma pg_inv_save_awb:
  assumes inv: "pg_inv env db" and save: "pgAWB_Save env a db = (r, db')"
  shows "pg_inv env db'"
proof (cases r)
  case None
  obtain now x where ups: "sql_upsert_awb now x db = Inr db'" using pgAWB_Save_None save None by blast
  show ?thesis
    using inv sql_upsert_awb_frame [OF ups] schema_inv_upsert_awb [OF pg_invD(1) [OF inv] ups]
    by (simp add: pg_inv_def)
next
  case (Some err)
  with pgAWB_Save_Some save inv show ?thesis by blast
qed

lemma pg_awb_frame:
  assumes "pgAWB_Save env a db = (r, db')"
  shows "pg_dels env db' = pg_dels env db \<and> pg_chain env db' = pg_chain env db"
proof (cases r)
  case None
  then obtain now x where "sql_upsert_awb now x db = Inr db'" using pgAWB_Save_None assms by blast
  then show ?thesis
    by (auto dest!: sql_upsert_awb_frame simp: fun_eq_iff pg_dels_def pg_chain_def find_delivery_def sel_events_def)
next
  case (Some err)
  with pgAWB_Save_Some assms show ?thesis by blast
qed

section \<open>The events that are read back as they were hashed\<close>

definition opt_all :: "('a \<Rightarrow> bool) \<Rightarrow> 'a option \<Rightarrow> bool" where
  "opt_all P p \<longleftrightarrow> (case p of None \<Rightarrow> True | Some x \<Rightarrow> P x)"

definition plain_actor :: "actor \<Rightarrow> bool" where
  "plain_actor a \<longleftrightarrow> (\<forall>s \<in> set [ac_Type a, ac_CarrierID a, ac_ID a, ac_Name a]. utf8_valid s)"

definition plain_geo :: "custody_geo \<Rightarrow> bool" where
  "plain_geo g \<longleftrightarrow> NegZero \<notin> set [cg_Lat g, cg_Lng g, cg_AccuracyM g, cg_Altitude g, cg_Heading g]"

definition plain_photo :: "photo_ref \<Rightarrow> bool" where
  "plain_photo p \<longleftrightarrow> (\<forall>s \<in> set [ph_S3URI p, ph_SHA256 p, ph_ContentType p]. utf8_valid s) \<and>
     opt_all plain_geo (ph_ExifGPS p)"

definition plain_signature :: "signature_ref \<Rightarrow> bool" where
  "plain_signature s \<longleftrightarrow> utf8_valid (sg_S3URI s) \<and> utf8_valid (sg_SHA256 s)"

definition plain_event :: "event \<Rightarrow> bool" where
  "plain_event e \<longleftrightarrow>
     EventType_of (event_type_string (e_Type e)) = e_Type e \<and> plain_actor (e_Actor e) \<and>
     opt_all plain_geo (e_Location e) \<and> list_all plain_photo (e_Photos e) \<and>
     opt_all plain_signature (e_Signature e) \<and> e_Metadata e = []"

lemma utf8_coerce_id: "utf8_coerce s = s \<longleftrightarrow> utf8_valid s"
  by (metis utf8_valid_coerce utf8_coerce_valid)

lemma f_pos0_id_iff: "f_pos0 x = x \<longleftrightarrow> x \<noteq> NegZero"
  by (simp add: f_pos0_def)

lemma keep_actor_id: "keep_actor a = a \<longleftrightarrow> plain_actor a"
  by (cases a) (simp add: keep_actor_def plain_actor_def utf8_coerce_id)

lemma keep_geo_id: "keep_geo g = g \<longleftrightarrow> plain_geo g"
  by (cases g) (auto simp: keep_geo_def plain_geo_def f_pos0_id_iff)

lemma map_option_id: "map_option f p = p \<longleftrightarrow> opt_all (\<lambda>x. f x = x) p"
  by (cases p) (simp_all add: opt_all_def)

lemma map_fixed: "map f xs = xs \<longleftrightarrow> list_all (\<lambda>x. f x = x) xs"
  by (induction xs) simp_all

lemma keep_photo_id: "keep_photo p = p \<longleftrightarrow> plain_photo p"
  by (cases p) (simp add: keep_photo_def plain_photo_def utf8_coerce_id map_option_id keep_geo_id)

lemma keep_signature_id: "keep_signature s = s \<longleftrightarrow> plain_signature s"
  by (cases s) (simp add: keep_signature_def plain_signature_def utf8_coerce_id)

lemma keep_event_payload:
  assumes "e_Metadata e = []"
  shows "payload_of (keep_event env e) = payload_of e \<longleftrightarrow> plain_event e"
proof -
  have "map_option time_UnixMilli (map_option (keep_time env) p) = map_option time_UnixMilli p" for p
    by (cases p) (simp_all add: keep_time_milli)
  moreover have "(case sql_jsonb_text env (event_meta e) of Inl _ \<Rightarrow> [] | Inr m \<Rightarrow> scan_meta m) = []"
    using assms by (simp add: event_meta_def sql_jsonb_text_def scan_meta_def)
  ultimately show ?thesis
    using assms by (simp add: payload_of_def keep_event_def plain_event_def keep_time_milli keep_actor_id
        keep_geo_id keep_photo_id keep_signature_id map_option_id map_fixed)
qed

lemma keep_event_links: "same_links e (keep_event env e)"
  by (simp add: same_links_def keep_event_def)

lemma plain_event_links:
  "plain_event (e\<lparr>e_EventID := i, e_SequenceNum := n, e_PrevHash := p, e_Hash := h\<rparr>) = plain_event e"
  by (simp add: plain_event_def)

section \<open>The contracts\<close>

interpretation pg_awbs: awb_store "pg_awb_repo env" "pg_awbs env" "pg_inv env" for env
proof unfold_locales
  show "\<exists>a'. same_awb a a' \<and> pg_awbs env s' = (pg_awbs env s)(a_ID a \<mapsto> a')"
    if "awb_storable a" "ar_Save (pg_awb_repo env) a s = (None, s')" for s s' a
    using that by (intro pg_awb_saved) (simp_all add: pg_awb_repo_def)
  show "pg_awbs env s' = pg_awbs env s" if "ar_Save (pg_awb_repo env) a s = (Some err, s')" for s s' a err
    using that pgAWB_Save_Some by (fastforce simp: pg_awb_repo_def)
  show "pg_inv env s'" if "pg_inv env s" "ar_Save (pg_awb_repo env) a s = (r, s')" for s s' a r
    using that pg_inv_save_awb by (simp add: pg_awb_repo_def)
  show "pg_awbs env s i = Some a \<and> a_ID a = i" if get: "ar_GetByID (pg_awb_repo env) i s = Inr a" for s i a
  proof -
    obtain r where r: "find_awb i s = Some r" "scanAWB env r = Inr a"
      using get by (auto simp: pg_awb_repo_def pgAWB_GetByID_def pg_query_Inr split: option.splits)
    then have "wr_id r = i" by (auto simp: find_awb_def dest: find_SomeD)
    with r show ?thesis by (auto simp: pg_awbs_def scanAWB_def split: option.splits)
  qed
  show "pg_awbs env s i = None" if "ar_GetByID (pg_awb_repo env) i s = Inl ErrNotFound" for s i
    using that
    by (auto simp: pg_query_not_ErrNotFound pg_awb_repo_def pgAWB_GetByID_def pg_awbs_def on_ok_Inl_iff pg_query_Inr
        split: option.splits sum.splits)
qed

lemma pg_row_delivery:
  assumes "pg_inv env s" "r \<in> set (tb_deliveries s)" "scanDelivery env r = Inr d"
  shows "pg_dels env s (d_ID d) = Some d \<and> dr_id r = d_ID d \<and> d_CarrierID d = dr_carrier_id r \<and>
    d_CarrierExternalID d = emptyIfNull (dr_carrier_external_id r) \<and> d_State d = State_of (dr_state r)"
  using pg_dels_in [OF assms] row_delivery_fields [OF assms(3)] by simp

interpretation pg_dels: delivery_store "pg_delivery_repo env" "pg_dels env" "pg_inv env" for env
proof unfold_locales
  show "\<exists>d'. same_delivery d d' \<and> pg_dels env s' = (pg_dels env s)(d_ID d \<mapsto> d')"
    if "pg_inv env s" "delivery_storable (pg_dels env s) d" "dr_Save (pg_delivery_repo env) d s = (None, s')" for s s' d
    using pg_stored_delivery_same [OF that(2)] pg_delivery_saved(1) [OF that(1)] that(3)
    by (auto simp: pg_delivery_repo_def)
  show "pg_dels env s' = pg_dels env s" if "dr_Save (pg_delivery_repo env) d s = (Some err, s')" for s s' d err
    using that pgDel_Save_Some by (fastforce simp: pg_delivery_repo_def)
  show "pg_inv env s'" if "pg_inv env s" "dr_Save (pg_delivery_repo env) d s = (r, s')" for s s' d r
    using that pg_inv_save_delivery by (simp add: pg_delivery_repo_def)
  show "pg_dels env s i = Some d \<and> d_ID d = i"
    if inv: "pg_inv env s" and get: "dr_GetByID (pg_delivery_repo env) i s = Inr d" for s i d
  proof -
    obtain r where r: "find_delivery i s = Some r" "scanDelivery env r = Inr d"
      using get by (auto simp: pg_delivery_repo_def pgDel_GetByID_def pg_query_Inr split: option.splits)
    with pg_row_delivery [OF inv _ r(2)] find_deliveryD [OF r(1)] show ?thesis by simp
  qed
  show "pg_dels env s i = None"
    if "pg_inv env s" "dr_GetByID (pg_delivery_repo env) i s = Inl ErrNotFound" for s i
  proof (cases "find_delivery i s")
    case None
    then show ?thesis by (simp add: pg_dels_def)
  next
    case (Some r)
    with pg_invD(3) [OF that(1)] find_deliveryD that(2) show ?thesis
      by (fastforce simp: pg_query_not_ErrNotFound pg_delivery_repo_def pgDel_GetByID_def on_ok_Inl_iff pg_query_Inr)
  qed
  show "pg_dels env s (d_ID d) = Some d \<and> d_CarrierID d = c \<and> d_CarrierExternalID d = x"
    if inv: "pg_inv env s" and get: "dr_GetByCarrierExternalID (pg_delivery_repo env) c x s = Inr d" for s c x d
  proof -
    obtain r where "List.find (\<lambda>r. dr_carrier_id r = c \<and> dr_carrier_external_id r = Some x) (tb_deliveries s) = Some r"
      and scan: "scanDelivery env r = Inr d"
      using get by (auto simp: pg_delivery_repo_def pgDel_GetByCarrierExternalID_def pg_query_Inr
          split: option.splits)
    then have "r \<in> set (tb_deliveries s)" "dr_carrier_id r = c" "dr_carrier_external_id r = Some x"
      by (auto dest: find_SomeD)
    with pg_row_delivery [OF inv _ scan] show ?thesis by (simp add: emptyIfNull_def)
  qed
  show "pg_dels env s (d_ID d) = Some d \<and> d_State d = st"
    if inv: "pg_inv env s" and st: "declared_state st"
      and list: "dr_ListByState (pg_delivery_repo env) st n s = Inr ds" and d: "d \<in> set ds"
    for s st n ds d
  proof -
    obtain k where "each_ok (scanDelivery env) (sel_deliveries_by_state env (state_string st) k s) = Inr ds"
      using list by (auto simp: pg_delivery_repo_def pgDel_ListByState_def pg_query_Inr Let_def)
    from each_ok_mem [OF this d] obtain r where
      r: "r \<in> set (sel_deliveries_by_state env (state_string st) k s)" and scan: "scanDelivery env r = Inr d" by blast
    from r have "r \<in> set (tb_deliveries s)" "dr_state r = state_string st"
      by (auto simp: sel_deliveries_by_state_def dest!: in_set_takeD)
    with pg_row_delivery [OF inv _ scan] st show ?thesis by (simp add: State_of_declared)
  qed
qed

interpretation pg_custody: custody_store "pg_custody_repo env" "pg_chain env" "pg_inv env" "keep_event env"
    plain_event for env
proof unfold_locales
  show "prev = (if pg_chain env s d = [] then None else Some (last (pg_chain env s d)))"
    if "pg_inv env s" "cr_LastByDelivery (pg_custody_repo env) d s = Inr prev" for s d prev
    using that pgCus_Last_ok by (simp add: pg_custody_repo_def)
  show "es = pg_chain env s d"
    if "pg_inv env s" "cr_ListByDelivery (pg_custody_repo env) d s = Inr es" for s d es
    using that pgCus_List_ok by (simp add: pg_custody_repo_def)
  show "pg_chain env s' =
      (pg_chain env s)(e_DeliveryID e := pg_chain env s (e_DeliveryID e) @ [keep_event env e])"
    if "pg_inv env s" "cr_Append (pg_custody_repo env) e s = (None, s')"
      "\<forall>d. e_EventID e \<notin> e_EventID ` set (pg_chain env s d)" "numbered (pg_chain env s (e_DeliveryID e))"
      "e_SequenceNum e = of_nat (length (pg_chain env s (e_DeliveryID e)))" for s s' e
    using that by (intro pg_chain_append) (simp_all add: pg_custody_repo_def)
  show "pg_chain env s' = pg_chain env s" if "cr_Append (pg_custody_repo env) e s = (Some err, s')" for s s' e err
    using that pgCus_Append_Some by (fastforce simp: pg_custody_repo_def)
  show "pg_inv env s'" if "pg_inv env s" "cr_Append (pg_custody_repo env) e s = (r, s')" for s s' e r
    using that pg_inv_append by (simp add: pg_custody_repo_def)
  show "same_links e (keep_event env e)" for e by (rule keep_event_links)
  show "payload_of (keep_event env e) = payload_of e" if "plain_event e" for e
    using that keep_event_payload by (simp add: plain_event_def)
  show "plain_event (e\<lparr>e_EventID := i, e_SequenceNum := n, e_PrevHash := p, e_Hash := h\<rparr>) = plain_event e"
    for e i n p h by (rule plain_event_links)
qed

end
