(* ===== verification/AppPg.thy ===== *)
theory AppPg
  imports AppRun MemoryStore PgContracts
begin

text \<open>
  \<open>internal/app/app.go\<close> without \<open>USE_MEMORY_STORE\<close>: the pool, and the program on the Postgres
  repositories, with the theorems about its runs. What the program can read of the tables is
  \<open>pg_awbs\<close>, \<open>pg_dels\<close> and \<open>pg_chain\<close>; an operation may fail at any statement (\<open>pg_fault\<close>),
  and the recorded events of a run are those that come back as they were hashed (\<open>plain_event\<close>). The
  string functions that hide the password of the log line are at the end.
\<close>

section \<open>The pool\<close>

text \<open>
  \<open>pgxpool\<close> is not in the repository: parsing a URL, opening a pool and pinging it are functions of
  the environment. \<open>NewPool\<close> sets four fields of the parsed configuration (durations in ns).
\<close>

record pool_config =
  pc_MaxConns :: int32
  pc_MinConns :: int32
  pc_MaxConnLifetime :: int64
  pc_MaxConnIdleTime :: int64

record pool_env =
  pl_ParseConfig :: "string \<Rightarrow> goerror + pool_config"
  pl_NewWithConfig :: "pool_config \<Rightarrow> goerror option"
  pl_Ping :: "pool_config \<Rightarrow> goerror option"

definition NewPool :: "pool_env \<Rightarrow> string \<Rightarrow> int32 \<Rightarrow> goerror + pool_config" where
  "NewPool pe url maxConns =
     (case pl_ParseConfig pe url of
        Inl err \<Rightarrow> Inl (Wrapf ''postgres: parse config: %w'' [] err)
      | Inr cfg \<Rightarrow>
          (let cfg = (if 0 <s maxConns then cfg\<lparr>pc_MaxConns := maxConns\<rparr> else cfg);
               cfg = cfg\<lparr>pc_MinConns := 1, pc_MaxConnLifetime := 3600000000000,
                         pc_MaxConnIdleTime := 1800000000000\<rparr>
           in case pl_NewWithConfig pe cfg of
                Some err \<Rightarrow> Inl (Wrapf ''postgres: connect: %w'' [] err)
              | None \<Rightarrow>
                  (case pl_Ping pe cfg of
                     Some err \<Rightarrow> Inl (Wrapf ''postgres: ping: %w'' [] err)
                   | None \<Rightarrow> Inr cfg)))"

section \<open>The program on Postgres\<close>

definition pg_audit_handler :: "pgdb handler" where
  "pg_audit_handler e db =
     (None, db\<lparr>lg_audit := lg_audit db @ [(ev_EventType e, ev_ExternalID e, ev_OccurredAt e)]\<rparr>)"

definition pg_repos :: "pg_env \<Rightarrow> pgdb repos" where
  "pg_repos env =
     \<lparr>rp_AWBs = pg_awb_repo env, rp_Deliveries = pg_delivery_repo env, rp_Routing = pg_routing_repo env,
      rp_Custody = pg_custody_repo env, rp_Bus = mem_bus [pg_audit_handler]\<rparr>"

text \<open>\<open>New\<close> wires the carriers before it opens the pool.\<close>

definition app_New_pg ::
  "'w runtime \<Rightarrow> pg_env \<Rightarrow> pool_env \<Rightarrow> bolt_config \<Rightarrow> string \<Rightarrow> int32 \<Rightarrow> goerror + (pgdb, 'w) app" where
  "app_New_pg rt env pe cfg url maxConns =
     (case Wire (rt_bolt rt) cfg of
        Inl err \<Rightarrow> Inl (Wrapf ''wire carriers: %w'' [] err)
      | Inr _ \<Rightarrow> on_ok (NewPool pe url maxConns) (\<lambda>_. app_with rt (pg_repos env) cfg))"

text \<open>The database after the migrations: retailers and customers, and nothing booked.\<close>

definition pg_initial :: "pgdb \<Rightarrow> bool" where
  "pg_initial db \<longleftrightarrow> tb_awbs db = [] \<and> tb_deliveries db = [] \<and> tb_events db = [] \<and> tb_routing db = []"

definition pg_view :: "pg_env \<Rightarrow> pgdb view" where
  "pg_view env = \<lparr>vw_awbs = pg_awbs env, vw_dels = pg_dels env, vw_chain = pg_chain env,
     vw_fits = plain_event, vw_init = pg_initial\<rparr>"

abbreviation pg_step :: "pg_env \<Rightarrow> (pgdb, 'w) app \<Rightarrow> pgdb \<times> 'w \<Rightarrow> pgdb \<times> 'w \<Rightarrow> bool" where
  "pg_step env \<equiv> step_of (pg_view env)"

abbreviation pg_run :: "pg_env \<Rightarrow> (pgdb, 'w) app \<Rightarrow> pgdb \<times> 'w \<Rightarrow> bool" where
  "pg_run env \<equiv> run_of (pg_view env)"

section \<open>Postgres is what the services assume\<close>

lemma pg_audit_frame:
  "tb_awbs (publish_each [pg_audit_handler] es db) = tb_awbs db \<and>
   tb_deliveries (publish_each [pg_audit_handler] es db) = tb_deliveries db \<and>
   tb_events (publish_each [pg_audit_handler] es db) = tb_events db \<and>
   tb_routing (publish_each [pg_audit_handler] es db) = tb_routing db \<and>
   tb_retailers (publish_each [pg_audit_handler] es db) = tb_retailers db \<and>
   tb_customers (publish_each [pg_audit_handler] es db) = tb_customers db"
  by (induction es arbitrary: db) (simp_all add: pg_audit_handler_def)

lemma pg_same_tables:
  assumes "tb_awbs db' = tb_awbs db" "tb_deliveries db' = tb_deliveries db" "tb_events db' = tb_events db"
  shows "pg_awbs env db' = pg_awbs env db" "pg_dels env db' = pg_dels env db" "pg_chain env db' = pg_chain env db"
  using assms by (simp_all add: fun_eq_iff pg_awbs_def pg_dels_def pg_chain_def find_awb_def
      find_delivery_def sel_events_def)

lemma pgRouting_Save_same:
  assumes "pgRouting_Save env i rec db = (r, db')"
  shows "db' = db \<or> (\<exists>x. sql_insert_routing x db = Inr db')"
proof (cases r)
  case None
  with assms show ?thesis by (auto simp: pgRouting_Save_def pg_exec_None split: sum.splits)
next
  case (Some err)
  with assms show ?thesis by (auto simp: pgRouting_Save_def dest: pg_exec_Some split: sum.splits)
qed

interpretation postgres: app_store "pg_awb_repo env" "pg_awbs env" "pg_delivery_repo env" "pg_dels env"
    "pg_custody_repo env" "pg_chain env" "pg_inv env" "keep_event env" plain_event
    "pg_routing_repo env" "mem_bus [pg_audit_handler]"
  for env
proof unfold_locales
  show "pg_dels env s' = pg_dels env s \<and> pg_chain env s' = pg_chain env s"
    if "ar_Save (pg_awb_repo env) a s = (r, s')" for s s' a r
    using that pg_awb_frame by (simp add: pg_awb_repo_def)
  show "pg_awbs env s' = pg_awbs env s \<and> pg_chain env s' = pg_chain env s"
    if "dr_Save (pg_delivery_repo env) d s = (r, s')" for s s' d r
    using that pg_delivery_frame by (simp add: pg_delivery_repo_def)
  show "pg_awbs env s' = pg_awbs env s \<and> pg_dels env s' = pg_dels env s"
    if "cr_Append (pg_custody_repo env) e s = (r, s')" for s s' e r
    using that pg_append_frame by (simp add: pg_custody_repo_def)
  show "pg_awbs env s' = pg_awbs env s \<and> pg_dels env s' = pg_dels env s \<and> pg_chain env s' = pg_chain env s \<and>
      pg_inv env s'"
    if inv: "pg_inv env s" and save: "rr_Save (pg_routing_repo env) i rec s = (r, s')" for s s' i rec r
  proof (cases "s' = s")
    case True
    with inv show ?thesis by simp
  next
    case False
    with save obtain x where x: "sql_insert_routing x s = Inr s'"
      using pgRouting_Save_same by (fastforce simp: pg_routing_repo_def)
    then have same: "tb_awbs s' = tb_awbs s" "tb_deliveries s' = tb_deliveries s" "tb_events s' = tb_events s"
      by (auto simp: sql_insert_routing_def split: if_splits)
    have "pg_inv env s'"
      using inv schema_inv_insert_routing [OF pg_invD(1) [OF inv] x] same by (simp add: pg_inv_def)
    then show ?thesis by (simp add: pg_same_tables [OF same])
  qed
  show "pg_awbs env s' = pg_awbs env s \<and> pg_dels env s' = pg_dels env s \<and> pg_chain env s' = pg_chain env s \<and>
      pg_inv env s'"
    if inv: "pg_inv env s" and pub: "eb_Publish (mem_bus [pg_audit_handler]) evs s = (r, s')" for s s' evs r
  proof -
    have s': "s' = publish_each [pg_audit_handler] evs s" using pub by (simp add: mem_bus_def bus_Publish_def)
    with inv show ?thesis
      using pg_audit_frame [of evs s]
      by (auto simp: pg_inv_def schema_inv_def intro!: pg_same_tables)
  qed
qed

lemma pg_init_ok: "pg_initial s \<Longrightarrow> pg_inv env s \<and> app_inv H (pg_awbs env) (pg_dels env) (pg_chain env) s"
  by (simp add: pg_initial_def pg_inv_def schema_inv_def awbs_ok_def deliveries_ok_def events_ok_def
      app_inv_def ledger_intact_def pg_awbs_def pg_dels_def pg_chain_def find_awb_def find_delivery_def
      sel_events_def pg_max_rows_def)

lemma app_New_pg_with: "app_New_pg rt env pe cfg url n = Inr a \<Longrightarrow> app_with rt (pg_repos env) cfg = Inr a"
  by (auto simp: app_New_pg_def split: sum.splits)

lemma app_New_pg_Custody:
  "app_New_pg rt env pe cfg url n = Inr a \<Longrightarrow> app_Custody a =
     \<lparr>cu_hash = rt_hash rt, cu_repo = pg_custody_repo env, cu_Deliveries = pg_delivery_repo env\<rparr>"
  using app_with_wired [OF app_New_pg_with] by (fastforce simp: app_wired_def pg_repos_def)

lemma pg_run_inv:
  assumes "app_New_pg rt env pe cfg url n = Inr a" "pg_run env a sw"
  shows "pg_inv env (fst sw) \<and> app_inv (rt_hash rt) (pg_awbs env) (pg_dels env) (pg_chain env) (fst sw)"
  using postgres.app_run_inv [OF app_with_wired [OF app_New_pg_with [OF assms(1)], unfolded pg_repos_def] _
      assms(2) [unfolded pg_view_def]] pg_init_ok by blast

lemma pg_run_steps:
  assumes "app_New_pg rt env pe cfg url n = Inr a" "pg_run env a sw" "(pg_step env a)\<^sup>*\<^sup>* sw sw'"
  shows "pg_run env a sw' \<and> store_step (pg_dels env) (pg_chain env) (fst sw) (fst sw')"
  using postgres.app_runs [OF app_with_wired [OF app_New_pg_with [OF assms(1)], unfolded pg_repos_def] _
      assms(2,3) [unfolded pg_view_def]] pg_init_ok unfolding pg_view_def by blast

section \<open>The ledger on Postgres\<close>

text \<open>An event whose hashed content changes in storage breaks its chain, up to hash collisions.\<close>

lemma computeHash_kept:
  assumes "computeHash H e = Inr h" "char_of (31 :: nat) \<notin> set (e_PrevHash e)" "e_PrevHash e' = e_PrevHash e"
    and "\<not> digest_collision H e e'" "\<not> encoding_collision H e e'"
  shows "computeHash H e' = Inr h \<longleftrightarrow> payload_of e' = payload_of e"
proof
  assume "computeHash H e' = Inr h"
  then have "payload_of e = payload_of e'"
    using same_hash_step(1) [OF assms(1) _ assms(2) _ assms(4,5)] assms(2,3) by simp
  then show "payload_of e' = payload_of e" by simp
next
  assume "payload_of e' = payload_of e"
  with assms(1,3) show "computeHash H e' = Inr h" using computeHash_payload by metis
qed

lemma chain_event_prev_hex:
  assumes "chain_intact H es" "prev = (if es = [] then None else Some (last es))"
  shows "char_of (31 :: nat) \<notin> set (e_PrevHash (chain_event H i prev e))"
proof (cases "es = []")
  case True
  with assms(2) show ?thesis by (simp add: chain_event_def genesisHash_def hex_no_delimiter)
next
  case False
  then have "computeHash H (last es) = Inr (e_Hash (last es))"
    using assms(1) by (simp add: chain_intact_def last_conv_nth)
  then show ?thesis using False assms(2) computeHash_hex hex_no_delimiter by (simp add: chain_event_def) metis
qed

text \<open>
  C10: After a successful Record, on Postgres, of an event with a new identifier and without
  metadata at the end of an intact chain, the chain verifies exactly when none of the event's
  coordinates is a negative zero and the texts of its actor, photos and signature are valid
  UTF-8 (plain_event, whose condition on the type only asks for the one representation that
  every Go string has in the model), unless digests or JSON encodings collide, when the query of
  the verification does not fail.
\<close>

theorem pg_record_verifies_iff:
  assumes inv: "pg_inv env s" and intact: "chain_intact H (pg_chain env s (e_DeliveryID e))"
    and fresh: "fresh_event (pg_chain env) s i" and meta: "e_Metadata e = []"
    and rec: "Ledger_Record H (pg_custody_repo env) i e s = (Inr e', s')"
    and fault: "pg_fault env ''CustodyRepo.ListByDelivery'' s' = None"
    and coll: "\<not> digest_collision H e' (keep_event env e')"
      "\<not> encoding_collision H e' (keep_event env e')"
  shows "Ledger_Verify H (pg_custody_repo env) (e_DeliveryID e) s' = None \<longleftrightarrow> plain_event e"
proof -
  let ?es = "pg_chain env s (e_DeliveryID e)"
  from rec obtain prev h where last: "cr_LastByDelivery (pg_custody_repo env) (e_DeliveryID e) s = Inr prev"
    and hash: "computeHash H (chain_event H i prev e) = Inr h"
    and e': "e' = (chain_event H i prev e)\<lparr>e_Hash := h\<rparr>"
    and app: "cr_Append (pg_custody_repo env) e' s = (None, s')"
    by (auto simp: Ledger_Record_def Let_def split: option.splits sum.splits prod.splits)
  have prev: "prev = (if ?es = [] then None else Some (last ?es))" by (rule pg_custody.last_ok [OF inv last])
  have ext: "chain_intact H (?es @ [e'])" unfolding e' by (rule chain_event_extends [OF intact hash prev])
  have del: "e_DeliveryID e' = e_DeliveryID e" "e_EventID e' = i" "e_Metadata e' = []"
    using meta by (auto simp: e' chain_event_def split: option.splits)
  have plain: "plain_event e' = plain_event e"
    by (auto simp: e' chain_event_def plain_event_def split: option.splits)
  have "pg_chain env s' = (pg_chain env s)(e_DeliveryID e' := pg_chain env s (e_DeliveryID e') @ [keep_event env e'])"
    using pg_custody.append_ok [OF inv app] fresh chain_intact_numbered [OF intact] ext del
    by (simp add: fresh_event_def chain_intact_snoc)
  then have chain: "pg_chain env s' (e_DeliveryID e) = ?es @ [keep_event env e']" by (simp add: del)
  have inv': "pg_inv env s'" by (rule pg_custody.append_invar [OF inv app])
  have list: "cr_ListByDelivery (pg_custody_repo env) (e_DeliveryID e) s' = Inr (pg_chain env s' (e_DeliveryID e))"
    using pgCus_List_answers [OF inv' fault] by (simp add: pg_custody_repo_def)
  have "computeHash H (keep_event env e') = Inr h \<longleftrightarrow> payload_of (keep_event env e') = payload_of e'"
  proof (rule computeHash_kept [OF _ _ _ coll])
    show "computeHash H e' = Inr h" using hash by (simp add: e')
    show "char_of (31 :: nat) \<notin> set (e_PrevHash e')"
      using chain_event_prev_hex [OF intact prev] by (simp add: e')
    show "e_PrevHash (keep_event env e') = e_PrevHash e'" by (simp add: keep_event_def)
  qed
  moreover have "h = e_Hash (keep_event env e')" by (simp add: keep_event_def e')
  ultimately have "computeHash H (keep_event env e') = Inr (e_Hash (keep_event env e')) \<longleftrightarrow> plain_event e"
    using keep_event_payload [OF del(3)] plain by simp
  moreover have "chain_intact H (?es @ [keep_event env e']) \<longleftrightarrow>
      computeHash H (keep_event env e') = Inr (e_Hash (keep_event env e'))"
    using ext keep_event_links [of e' env]
    by (simp add: chain_intact_snoc prev_hash_at_snoc same_links_def)
  ultimately show ?thesis
    using pg_custody.verify_iff [OF inv' list] chain by simp
qed

section \<open>Properties of the program on Postgres\<close>

text \<open>
  C4: Every call of the program on Postgres, failing statements included, preserves the
  constraints of the schema, the readability of what is stored, and the application invariant
  (intact chains, well-formed parcels and deliveries, evidence for every state), as long as the
  calls come one after the other, with new identifiers, and every recorded event comes back from
  its columns as it was hashed: no metadata, no coordinate of negative zero, valid UTF-8 text
  (plain_event).
\<close>

theorem pg_run_invariant:
  assumes "app_New_pg rt env pe cfg url n = Inr a" "pg_run env a (s, w)"
  shows "pg_inv env s \<and> app_inv (rt_hash rt) (pg_awbs env) (pg_dels env) (pg_chain env) s"
  using pg_run_inv [OF assms] by simp

text \<open>The constraints hold after every write, whatever is written.\<close>

text \<open>
  C5: In every state that the program on Postgres reaches by calls one after the other, with new
  identifiers and storable events (plain_event), VerifyChain of any delivery reports no error
  when its query does not fail.
\<close>

theorem pg_run_chains_verify:
  assumes "app_New_pg rt env pe cfg url n = Inr a" "pg_run env a (s, w)"
    and "pg_fault env ''CustodyRepo.ListByDelivery'' s = None"
  shows "custody_VerifyChain (app_Custody a) i s = None"
proof -
  have inv: "pg_inv env s" "ledger_intact (rt_hash rt) (pg_chain env) s"
    using pg_run_inv [OF assms(1,2)] postgres.app_invD(1) by auto
  have "is_ok (cr_ListByDelivery (pg_custody_repo env) i s)"
    using pgCus_List_answers [OF inv(1) assms(3)] by (simp add: pg_custody_repo_def)
  then show ?thesis
    using postgres.custody_verify_ok [OF inv, where i = i] by (auto simp: app_New_pg_Custody [OF assms(1)])
qed

theorem pg_run_delivered_evidence:
  assumes "app_New_pg rt env pe cfg url n = Inr a" "pg_run env a (s, w)"
    and "pg_dels env s i = Some d" "d_State d = StateDelivered"
  shows "(\<exists>e \<in> set (pg_chain env s i). e_Type e = EventPackagePickedUp \<and> e_Photos e \<noteq> [] \<and> e_Location e \<noteq> None) \<and>
         (\<exists>e \<in> set (pg_chain env s i). e_Type e = EventPackageDelivered \<and> e_Photos e \<noteq> [] \<and> e_Location e \<noteq> None)"
proof -
  have "delivery_ok (pg_awbs env) (pg_chain env) s i d"
    using pg_run_inv [OF assms(1,2)] assms(3) postgres.app_invD(3) by fastforce
  then show ?thesis
    using assms(4) by (simp add: delivery_ok_def delivery_evidence_def has_evidence_def carried_def)
qed

text \<open>
  C18: On Postgres, whatever calls of the services follow one after the other, with new
  identifiers and storable events (plain_event): chains only grow, and a stored delivery is
  never lost, keeps its parcel and idempotency key and moves along the transition graph.
\<close>

theorem pg_run_history:
  assumes "app_New_pg rt env pe cfg url n = Inr a" "pg_run env a (s, w)" "(pg_step env a)\<^sup>*\<^sup>* (s, w) (s', w')"
  shows "prefix (pg_chain env s i) (pg_chain env s' i) \<and>
    (case pg_dels env s i of
       None \<Rightarrow> True
     | Some d \<Rightarrow> (\<exists>d'. pg_dels env s' i = Some d' \<and> d_AWBID d' = d_AWBID d \<and>
         d_IdempotencyKey d' = d_IdempotencyKey d \<and> state_edge\<^sup>*\<^sup>* (d_State d) (d_State d')))"
proof -
  have step: "store_step (pg_dels env) (pg_chain env) s s'" using pg_run_steps [OF assms(1-3)] by simp
  have "\<exists>d'. pg_dels env s' i = Some d' \<and> moves state_edge d d'" if "pg_dels env s i = Some d" for d
    using step that unfolding store_step_def by blast
  with step show ?thesis
    unfolding store_step_def chain_grows_def moves_def by (cases "pg_dels env s i") (simp_all, blast)
qed

text \<open>A saved delivery is read back as \<open>pg_stored_delivery\<close> says, when no statement fails.\<close>

text \<open>
  C21: GetByID after a successful Save, when its query does not fail, returns the saved delivery
  as the columns keep it (pg_stored_delivery): times cut to microseconds and in the zone of the
  connection; the window dropped if a bound is missing or both are the same microsecond, else in
  UTC; negative zero as zero, invalid UTF-8 replaced, metadata as jsonb holds it and an empty
  map for none. If the delivery was stored before, its parcel, leg, idempotency key and creation
  time are the old ones and its update time is the clock of the database.
\<close>

theorem pg_delivery_roundtrip:
  assumes "pg_inv env s" "pgDel_Save env d s = (None, s')"
    and "pg_fault env ''DeliveryRepo.GetByID'' s' = None"
  shows "pgDel_GetByID env (d_ID d) s' = Inr (pg_stored_delivery env s d)"
proof -
  note saved = pg_delivery_saved [OF assms(1,2)]
  then have "pg_dels env s' (d_ID d) = Some (pg_stored_delivery env s d)" by simp
  then obtain r where r: "find_delivery (d_ID d) s' = Some r" "row_delivery env r = pg_stored_delivery env s d"
    by (auto simp: pg_dels_def)
  with pg_invD(3) [OF saved(2)] find_deliveryD [OF r(1)] assms(3) show ?thesis
    by (simp add: pgDel_GetByID_def pg_query_def)
qed

text \<open>
  An event that continues its chain is read back as \<open>keep_event\<close> says, at the end of the list and as
  its tail; the chains of other deliveries are what they were.
\<close>

text \<open>
  C22: After a successful Append on Postgres of a new event that continues its chain,
  ListByDelivery returns the chain it returned before followed by the event as its columns keep
  it (times in microseconds, negative zero as zero, invalid UTF-8 replaced, metadata as jsonb
  prints it), LastByDelivery returns that event, and the chains of other deliveries are read as
  before, when these queries do not fail.
\<close>

theorem pg_event_roundtrip:
  assumes "pg_inv env s" "pgCus_Append env e s = (None, s')"
    and "pgCus_ListByDelivery env (e_DeliveryID e) s = Inr es" "numbered es" "e_SequenceNum e = of_nat (length es)"
    and "fresh_event (pg_chain env) s (e_EventID e)"
    and "pg_fault env ''CustodyRepo.ListByDelivery'' s' = None" "pg_fault env ''CustodyRepo.LastByDelivery'' s' = None"
  shows "pgCus_ListByDelivery env (e_DeliveryID e) s' = Inr (es @ [keep_event env e]) \<and>
    pgCus_LastByDelivery env (e_DeliveryID e) s' = Inr (Some (keep_event env e)) \<and>
    (i \<noteq> e_DeliveryID e \<longrightarrow> pgCus_ListByDelivery env i s' = Inr (pg_chain env s i))"
proof -
  have es: "pg_chain env s (e_DeliveryID e) = es" using pgCus_List_ok [OF assms(1,3)] by simp
  have "pg_chain env s' = (pg_chain env s)(e_DeliveryID e := es @ [keep_event env e])"
    using pg_chain_append [OF assms(1,2)] assms(4-6) by (simp add: es fresh_event_def)
  moreover have "pg_inv env s'" using pg_inv_append [OF assms(1,2)] .
  ultimately show ?thesis
    using pgCus_List_answers [where db = s'] pgCus_Last_answers [where db = s'] assms(7,8) by simp
qed

text \<open>A booking is two statements without a transaction: a refused one can leave its parcel behind.\<close>

theorem pg_booking_orphan:
  assumes "bk_AWBs deps = pg_awb_repo env" "bk_Deliveries deps = pg_delivery_repo env"
    and "\<not> time_Before (in_SlotEnd i) (in_SlotStart i)" "booking_awb bv i = Inr a" "booking_delivery deps bv i a = Inr d"
    and "pgAWB_Save env a s = (None, s1)" "pgDel_Save env d s1 = (Some err, s2)"
  shows "CreateBooking deps bv i s = (Inl err, s1) \<and> pg_dels env s1 = pg_dels env s \<and>
    (\<exists>a'. same_awb a a' \<and> pg_awbs env s1 (a_ID a) = Some a')"
proof -
  have "awb_storable a" using booking_awb_ok [OF assms(4)] by (simp add: awb_storable_def)
  from pg_awb_saved [OF this assms(6)] have "\<exists>a'. same_awb a a' \<and> pg_awbs env s1 (a_ID a) = Some a'" by auto
  moreover have "CreateBooking deps bv i s = (Inl err, s2)"
    using assms by (simp add: CreateBooking_def pg_awb_repo_def pg_delivery_repo_def)
  ultimately show ?thesis using pg_awb_frame [OF assms(6)] pgDel_Save_Some [OF assms(7)] by simp
qed

text \<open>\<open>NULL\<close> in the state reason: the parcel is stored and cannot be read.\<close>

theorem pg_awb_unreadable:
  assumes "pgAWB_Save env a s = (None, s')" "a_StateReason a = []"
    and "pg_fault env ''AWBRepo.GetByID'' s' = None"
  shows "pgAWB_GetByID env (a_ID a) s' =
    Inl (Wrapf ''postgres: scan awb: %w'' [] (External ''cannot scan NULL into *string''))"
proof -
  obtain docs r where m: "marshal_awb a = Inr docs" "awb_params a docs = Inr r"
    and ups: "sql_upsert_awb (pg_now env s) r s = Inr s'" using pgAWB_Save_None [OF assms(1)] by blast
  note id = scan_awb_params(2) [OF m]
  have scan: "scanAWB env r = Inl (Wrapf ''postgres: scan awb: %w'' [] (External ''cannot scan NULL into *string''))"
    using scan_awb_params(1) [OF m] assms(2) by simp
  have "\<exists>x. find_awb (a_ID a) s' = Some x \<and> scanAWB env x = scanAWB env r"
  proof (cases "find_awb (a_ID a) s")
    case None
    then have "find_awb (a_ID a) s' = Some r"
      using sql_upsert_awb_cases [OF ups] by (simp add: id find_awb_def find_snoc)
    then show ?thesis by blast
  next
    case (Some x)
    let ?u = "awb_do_update (pg_now env s) r"
    have "tb_awbs s' = map (\<lambda>y. if wr_id y = wr_id r then ?u y else y) (tb_awbs s)"
      using sql_upsert_awb_cases [OF ups] Some by (simp add: id)
    then have "find_awb (a_ID a) s' = Some (?u x)"
      using Some find_upd [of wr_id ?u "a_ID a" "wr_id r" "tb_awbs s"] by (simp add: find_awb_def id)
    moreover have "scanAWB env (?u x) = scanAWB env r" by (simp add: scan_awb_update scan)
    ultimately show ?thesis by blast
  qed
  with scan assms(3) show ?thesis by (auto simp: pgAWB_GetByID_def pg_query_def)
qed

section \<open>The log line\<close>

fun index_from :: "int \<Rightarrow> string \<Rightarrow> string \<Rightarrow> int" where
  "index_from i [] sub = (if sub = [] then i else -1)"
| "index_from i (c # cs) sub =
     (if length (c # cs) < length sub then -1
      else if take (length sub) (c # cs) = sub then i else index_from (i + 1) cs sub)"

definition indexOf :: "string \<Rightarrow> string \<Rightarrow> int" where
  "indexOf s sub = index_from 0 s sub"

definition redactDBURL :: "string \<Rightarrow> string" where
  "redactDBURL url =
     (let j = indexOf url ''://'';
          i = (if 0 \<le> j then nat j + 3 else 0);
          k = indexOf (drop i url) ''@''
      in if 0 < k then take i url @ ''***@'' @ drop (i + nat k + 1) url else url)"

lemma index_from_skip:
  assumes "c \<notin> set xs"
  shows "index_from i (xs @ c # sub @ ys) (c # sub) = i + int (length xs)"
  using assms by (induction xs arbitrary: i) auto

lemma index_from_none: "c \<notin> set xs \<Longrightarrow> index_from i xs (c # sub) = -1"
  by (induction xs arbitrary: i) auto

text \<open>Everything up to the first \<open>@\<close> after the scheme is hidden, and nothing behind it.\<close>

theorem redactDBURL_spec:
  assumes "CHR '':'' \<notin> set scheme" "CHR ''@'' \<notin> set user" "user \<noteq> []"
  shows
    "redactDBURL (scheme @ ''://'' @ user @ ''@'' @ rest) = scheme @ ''://***@'' @ rest"
    (is "redactDBURL ?url = _")
proof -
  have "indexOf ?url ''://'' = int (length scheme)"
    using index_from_skip [OF assms(1), of 0 "''//''"] by (simp add: indexOf_def)
  moreover have "indexOf (drop (nat (int (length scheme)) + 3) ?url) ''@'' = int (length user)"
    using index_from_skip [OF assms(2), of 0 "[]"] by (simp add: indexOf_def)
  moreover have "drop (4 + length user) (CHR '':'' # CHR ''/'' # CHR ''/'' # user @ CHR ''@'' # rest) = rest"
    by (simp add: numeral_eq_Suc)
  ultimately show ?thesis
    using assms(3) by (simp add: redactDBURL_def Let_def)
qed

theorem redactDBURL_no_at:
  assumes "CHR ''@'' \<notin> set url"
  shows "redactDBURL url = url"
proof -
  have "indexOf (drop k url) ''@'' = -1" for k
    using index_from_none [of "CHR ''@''" "drop k url" 0 "[]"] assms by (auto simp: indexOf_def dest: in_set_dropD)
  then show ?thesis by (simp add: redactDBURL_def Let_def)
qed

end
