(* ===== verification/DemoPg.thy ===== *)
theory DemoPg
  imports AppPg Demo
begin

text \<open>
  The delivery of \<open>Demo\<close> on a small Postgres: a database with one retailer, no failing statement, a
  constant clock. The states it goes through are computed.
\<close>

definition demo_env :: pg_env where
  "demo_env = \<lparr>pg_now = (\<lambda>_. 1767225600000000), pg_zone = (\<lambda>_. 0), pg_jsonb_text = (\<lambda>s. Inr s),
     pg_rank = (\<lambda>_. 0), pg_fault = (\<lambda>_ _. None)\<rparr>"

definition demo_pool :: pool_env where
  "demo_pool = \<lparr>pl_ParseConfig = (\<lambda>_. Inr \<lparr>pc_MaxConns = 4, pc_MinConns = 0, pc_MaxConnLifetime = 0,
     pc_MaxConnIdleTime = 0\<rparr>), pl_NewWithConfig = (\<lambda>_. None), pl_Ping = (\<lambda>_. None)\<rparr>"

definition demo_db :: pgdb where
  "demo_db = \<lparr>tb_retailers = [\<lparr>rt_id = 1, rt_name = ''Shop'', rt_slug = ''shop'', rt_api_key_hash = ''aa'',
       rt_is_active = True\<rparr>], tb_customers = [], tb_awbs = [], tb_deliveries = [], tb_events = [],
     tb_routing = [], lg_audit = []\<rparr>"

definition demo_pg :: "(pgdb, unit) app" where
  "demo_pg = projr (app_New_pg demo_rt demo_env demo_pool demo_cfg ''postgres://db'' 10)"

lemma demo_pg_New: "app_New_pg demo_rt demo_env demo_pool demo_cfg ''postgres://db'' 10 = Inr demo_pg"
  by (simp add: demo_pg_def app_New_pg_def app_with_def Wire_ok Let_def NewPool_def demo_pool_def)

definition demo_pg_booked :: pgdb where
  "demo_pg_booked = fst (app_exec demo_pg (OpBook demo_booking_env demo_input) (demo_db, ()))"

definition demo_pg_record :: "record_env \<times> record_input \<Rightarrow> pgdb \<Rightarrow> pgdb" where
  "demo_pg_record x s = fst (app_exec demo_pg (OpRecord (fst x) (snd x)) (s, ()))"

definition demo_pg_end :: pgdb where
  "demo_pg_end = fold demo_pg_record demo_records demo_pg_booked"

text \<open>An append and a record add at most the event they are given; a booking adds none.\<close>

lemma pg_append_ids:
  assumes "pgCus_Append env e s = (r, s')"
  shows "er_event_id ` set (tb_events s') \<subseteq> insert (e_EventID e) (er_event_id ` set (tb_events s))"
proof (cases r)
  case None
  then obtain docs x where m: "marshal_event e = Inr docs" "event_params env e docs = Inr x"
    and ins: "sql_insert_event x s = Inr s'" using pgCus_Append_None assms by blast
  show ?thesis
    using sql_insert_event_cases [OF ins] scan_event_params(2) [OF m] by (auto split: if_splits)
next
  case (Some err)
  with pgCus_Append_Some assms have "s' = s" by blast
  then show ?thesis by auto
qed

lemma pg_save_events: "tb_events (snd (pgDel_Save env d s)) = tb_events s"
proof (cases "pgDel_Save env d s")
  case (Pair r s')
  show ?thesis
  proof (cases r)
    case None
    then obtain now x where "sql_upsert_delivery now x s = Inr s'" using pgDel_Save_None Pair by blast
    then show ?thesis using sql_upsert_delivery_frame Pair by simp
  next
    case (Some err)
    with pgDel_Save_Some Pair have "s' = s" by blast
    with Pair show ?thesis by simp
  qed
qed

lemma pg_save_awb_events: "tb_events (snd (pgAWB_Save env a s)) = tb_events s"
proof (cases "pgAWB_Save env a s")
  case (Pair r s')
  show ?thesis
  proof (cases r)
    case None
    then obtain now x where "sql_upsert_awb now x s = Inr s'" using pgAWB_Save_None Pair by blast
    then show ?thesis using sql_upsert_awb_frame Pair by simp
  next
    case (Some err)
    with pgAWB_Save_Some Pair have "s' = s" by blast
    with Pair show ?thesis by simp
  qed
qed

lemma pg_ledger_ids:
  assumes "Ledger_Record H (pg_custody_repo env) j e s = (r, s')"
  shows "er_event_id ` set (tb_events s') \<subseteq> insert j (er_event_id ` set (tb_events s))"
proof -
  have "s' = s \<or> (\<exists>x q. e_EventID x = j \<and> pgCus_Append env x s = (q, s'))"
    using assms
    by (auto simp: Ledger_Record_def Let_def pg_custody_repo_def chain_event_def
        split: option.splits sum.splits prod.splits)
  then show ?thesis using pg_append_ids by blast
qed

lemma pg_record_ids:
  "er_event_id ` set (tb_events (snd (custody_Record \<lparr>cu_hash = H, cu_repo = pg_custody_repo env,
      cu_Deliveries = pg_delivery_repo env\<rparr> renv i s))) \<subseteq> insert (rv_eventID renv) (er_event_id ` set (tb_events s))"
proof -
  obtain q s1 where led: "Ledger_Record H (pg_custody_repo env) (rv_eventID renv) (record_event renv i) s = (q, s1)"
    by fastforce
  have "tb_events s' = tb_events s1" if "dr_Save (pg_delivery_repo env) d s1 = (x, s')" for d x s'
    using that pg_save_events [of env d s1] by (simp add: pg_delivery_repo_def)
  then show ?thesis
    using pg_ledger_ids [OF led] unfolding custody_Record_def
    by (auto simp: led Let_def split: sum.split option.split prod.split)
qed

lemma pg_book_events:
  assumes "bk_AWBs deps = pg_awb_repo env" "bk_Deliveries deps = pg_delivery_repo env"
  shows "tb_events (snd (CreateBooking deps benv i s)) = tb_events s"
proof -
  have a: "tb_events s1 = tb_events s" if "ar_Save (pg_awb_repo env) a s = (r, s1)" for a r s1
    using that pg_save_awb_events [of env a s] by (simp add: pg_awb_repo_def)
  have d: "tb_events s2 = tb_events s1" if "dr_Save (pg_delivery_repo env) d s1 = (r, s2)" for d r s1 s2
    using that pg_save_events [of env d s1] by (simp add: pg_delivery_repo_def)
  show ?thesis
    unfolding CreateBooking_def assms using a d
    by (auto split: sum.split option.split prod.split)
qed

section \<open>It is a run of the program\<close>

lemma pg_fresh_rows:
  assumes "pg_inv env s" "j \<notin> er_event_id ` set (tb_events s)"
  shows "fresh_event (pg_chain env) s j"
proof -
  have "e_EventID e \<in> er_event_id ` set (tb_events s)" if "e \<in> set (pg_chain env s d)" for e d
  proof -
    from that obtain r where r: "r \<in> set (tb_events s)" "e = row_event env r"
      by (auto simp: pg_chain_def sel_events_set)
    with row_event_fields [OF pg_invD(2) [OF assms(1) r(1)]] show ?thesis by simp
  qed
  with assms(2) show ?thesis by (fastforce simp: fresh_event_def)
qed

lemma demo_pg_wired: "app_wired demo_rt (pg_repos demo_env) demo_pg"
  by (rule app_with_wired [OF app_New_pg_with [OF demo_pg_New]])

lemma demo_pg_record_ids:
  "er_event_id ` set (tb_events (demo_pg_record x s)) \<subseteq> insert (rv_eventID (fst x)) (er_event_id ` set (tb_events s))"
  using pg_record_ids demo_pg_wired by (simp add: demo_pg_record_def app_wired_def pg_repos_def)

lemma demo_pg_run_records:
  assumes "pg_run demo_env demo_pg (s, ())" "distinct (map (rv_eventID \<circ> fst) xs)"
    "\<forall>x \<in> set xs. rv_eventID (fst x) \<notin> er_event_id ` set (tb_events s) \<and> plain_event (record_event (fst x) (snd x))"
  shows "pg_run demo_env demo_pg (fold demo_pg_record xs s, ()) \<and>
    (pg_step demo_env demo_pg)\<^sup>*\<^sup>* (s, ()) (fold demo_pg_record xs s, ())"
  using assms
proof (induction xs arbitrary: s)
  case (Cons x xs)
  have "pg_inv demo_env s" using pg_run_inv [OF demo_pg_New Cons.prems(1)] by simp
  with Cons.prems(3) have "op_fresh (pg_view demo_env) demo_pg s (OpRecord (fst x) (snd x))"
    using pg_fresh_rows by (simp add: pg_view_def)
  then have step: "pg_step demo_env demo_pg (s, ()) (demo_pg_record x s, ())"
    using step_of.step [of "pg_view demo_env" demo_pg s "OpRecord (fst x) (snd x)" "()"]
    by (simp add: demo_pg_record_def)
  have new: "rv_eventID (fst y) \<noteq> rv_eventID (fst x)" if "y \<in> set xs" for y
    using that Cons.prems(2) by (auto simp: image_iff)
  have "\<forall>y \<in> set xs. rv_eventID (fst y) \<notin> er_event_id ` set (tb_events (demo_pg_record x s)) \<and>
      plain_event (record_event (fst y) (snd y))"
  proof
    fix y assume y: "y \<in> set xs"
    then have "rv_eventID (fst y) \<notin> insert (rv_eventID (fst x)) (er_event_id ` set (tb_events s))"
      using new Cons.prems(3) by simp
    with demo_pg_record_ids [of x s] y Cons.prems(3)
    show "rv_eventID (fst y) \<notin> er_event_id ` set (tb_events (demo_pg_record x s)) \<and>
      plain_event (record_event (fst y) (snd y))" by (metis list.set_intros(2) subsetD)
  qed
  with Cons.IH [OF run_of.more [OF Cons.prems(1) step]] Cons.prems(2)
  have "pg_run demo_env demo_pg (fold demo_pg_record xs (demo_pg_record x s), ())"
    "(pg_step demo_env demo_pg)\<^sup>*\<^sup>* (demo_pg_record x s, ()) (fold demo_pg_record xs (demo_pg_record x s), ())"
    by simp_all
  then show ?case using converse_rtranclp_into_rtranclp [where r = "pg_step demo_env demo_pg", OF step] by simp
qed simp

lemma demo_pg_start: "pg_run demo_env demo_pg (demo_db, ())"
  by (rule run_of.start) (simp add: pg_view_def pg_initial_def demo_db_def)

lemma demo_pg_booked_run: "pg_run demo_env demo_pg (demo_pg_booked, ()) \<and> tb_events demo_pg_booked = []"
proof -
  have "op_fresh (pg_view demo_env) demo_pg demo_db (OpBook demo_booking_env demo_input)"
    by (simp add: pg_view_def pg_dels_def pg_awbs_def find_delivery_def find_awb_def demo_db_def)
  then have "pg_step demo_env demo_pg (demo_db, ()) (demo_pg_booked, ())"
    using step_of.step [of "pg_view demo_env" demo_pg demo_db "OpBook demo_booking_env demo_input" "()"]
    by (simp only: demo_pg_booked_def app_exec.simps fst_conv)
  with demo_pg_start have "pg_run demo_env demo_pg (demo_pg_booked, ())" by (rule run_of.more)
  moreover have "tb_events (snd (CreateBooking (app_Booking demo_pg) demo_booking_env demo_input demo_db)) = tb_events demo_db"
    by (rule pg_book_events; use demo_pg_wired in \<open>simp add: app_wired_def pg_repos_def\<close>)
  then have "tb_events demo_pg_booked = tb_events demo_db" by (simp only: demo_pg_booked_def app_exec.simps fst_conv)
  then have "tb_events demo_pg_booked = []" by (simp add: demo_db_def)
  ultimately show ?thesis by simp
qed

lemma demo_pg_plain: "list_all (\<lambda>x. plain_event (record_event (fst x) (snd x))) demo_records"
  by code_simp

lemma demo_pg_run:
  "pg_run demo_env demo_pg (demo_pg_end, ())"
  "(pg_step demo_env demo_pg)\<^sup>*\<^sup>* (demo_pg_booked, ()) (demo_pg_end, ())"
proof -
  have "distinct (map (rv_eventID \<circ> fst) demo_records)"
    by (simp add: demo_records_def demo_record_env_def)
  then show "pg_run demo_env demo_pg (demo_pg_end, ())"
    "(pg_step demo_env demo_pg)\<^sup>*\<^sup>* (demo_pg_booked, ()) (demo_pg_end, ())"
    using demo_pg_run_records [of demo_pg_booked demo_records] demo_pg_booked_run demo_pg_plain
    by (simp_all add: demo_pg_end_def list_all_iff)
qed

end
