(* ===== verification/Interleave.thy ===== *)
theory Interleave
  imports Prelude
begin

text \<open>
  Goroutines that share a state: each is a process with a program counter, and a step of the system
  is a step of one of them. \<open>step i\<close> is what process \<open>i\<close> does, the state is shared.
\<close>

inductive interleave ::
  "(nat \<Rightarrow> 'pc \<Rightarrow> 's \<Rightarrow> 'pc \<times> 's) \<Rightarrow> 'pc list \<times> 's \<Rightarrow> 'pc list \<times> 's \<Rightarrow> bool" for step where
  step: "i < length pcs \<Longrightarrow> step i (pcs ! i) s = (pc, s') \<Longrightarrow> interleave step (pcs, s) (pcs[i := pc], s')"

inductive_cases interleaveE: "interleave step (pcs, s) y"

inductive_simps interleave_iff: "interleave step (pcs, s) (pcs', s')"

text \<open>A schedule: the processes that step, one after the other.\<close>

fun run_schedule :: "(nat \<Rightarrow> 'pc \<Rightarrow> 's \<Rightarrow> 'pc \<times> 's) \<Rightarrow> nat list \<Rightarrow> 'pc list \<times> 's \<Rightarrow> 'pc list \<times> 's" where
  "run_schedule step [] y = y"
| "run_schedule step (i # is) (pcs, s) =
     (if i < length pcs
      then (case step i (pcs ! i) s of (pc, s') \<Rightarrow> run_schedule step is (pcs[i := pc], s'))
      else run_schedule step is (pcs, s))"

lemma run_schedule_steps: "(interleave step)\<^sup>*\<^sup>* y (run_schedule step is y)"
proof (induction step "is" y rule: run_schedule.induct)
  case (2 step i "is" pcs s)
  then show ?case
    using converse_rtranclp_into_rtranclp [where r = "interleave step", OF interleave.step [of i pcs step s]]
    by (auto split: prod.split)
qed simp

lemma run_schedule_reach: "run_schedule step is y = z \<Longrightarrow> (interleave step)\<^sup>*\<^sup>* y z"
  using run_schedule_steps [of step y "is"] by simp

text \<open>An invariant that every process keeps holds after any number of steps.\<close>

lemma interleave_invariant [consumes 2, case_names step]:
  assumes "(interleave step)\<^sup>*\<^sup>* y z" "I y"
    and "\<And>i pcs s pc s'. I (pcs, s) \<Longrightarrow> i < length pcs \<Longrightarrow> step i (pcs ! i) s = (pc, s') \<Longrightarrow> I (pcs[i := pc], s')"
  shows "I z"
  using assms(1,2)
  by induction (auto elim!: interleave.cases intro: assms(3))

lemma interleave_length: "(interleave step)\<^sup>*\<^sup>* y z \<Longrightarrow> length (fst z) = length (fst y)"
  by (induction rule: rtranclp_induct) (auto elim!: interleave.cases)

end
