(* ===== verification/Concurrency.thy ===== *)
theory Concurrency
  imports App PgContracts Interleave
begin

text \<open>
  The HTTP server runs every request on a goroutine of its own, and \<open>Ledger.Record\<close> reads the tail
  of a chain and appends to it in two calls of its repository. Here a call is a process with a
  program counter, and the theorems are about every interleaving of the calls: with the unique key of
  the Postgres table the calls that succeed are as good as atomic (the locale \<open>unique_store\<close>), with the
  in-memory repository they are not.
\<close>

section \<open>Concurrent calls of Record\<close>

datatype ledger_pc = Begin | Ready event | Ended "goerror + event"

record ledger_call =
  lc_id :: uuid
  lc_event :: event

text \<open>One step: everything up to the read of the tail, then the append.\<close>

fun ledger_step ::
  "hash_fns \<Rightarrow> 's custody_repo \<Rightarrow> ledger_call \<Rightarrow> ledger_pc \<Rightarrow> 's \<Rightarrow> ledger_pc \<times> 's" where
  "ledger_step H repo c Begin s =
     (case Validate (lc_event c) of
        Some err \<Rightarrow> (Ended (Inl err), s)
      | None \<Rightarrow>
          (case cr_LastByDelivery repo (e_DeliveryID (lc_event c)) s of
             Inl err \<Rightarrow> (Ended (Inl (Wrapf ''custody: read tail: %w'' [] err)), s)
           | Inr prev \<Rightarrow>
               (let e = chain_event H (lc_id c) prev (lc_event c) in
                case computeHash H e of
                  Inl err \<Rightarrow> (Ended (Inl err), s)
                | Inr h \<Rightarrow> (Ready (e\<lparr>e_Hash := h\<rparr>), s))))"
| "ledger_step H repo c (Ready e) s =
     (case cr_Append repo e s of
        (Some err, s') \<Rightarrow> (Ended (Inl (Wrapf ''custody: append: %w'' [] err)), s')
      | (None, s') \<Rightarrow> (Ended (Inr e), s'))"
| "ledger_step H repo c (Ended r) s = (Ended r, s)"

abbreviation ledger_steps ::
  "hash_fns \<Rightarrow> 's custody_repo \<Rightarrow> ledger_call list \<Rightarrow> ledger_pc list \<times> 's \<Rightarrow> ledger_pc list \<times> 's \<Rightarrow> bool" where
  "ledger_steps H repo cs \<equiv> interleave (\<lambda>i. ledger_step H repo (cs ! i))"

section \<open>The calls one after the other\<close>

text \<open>
  The abstract ledger: the chains themselves as a storage that never fails and has one caller at a
  time. \<open>record_all\<close> makes the calls in the order of the list, each as a whole.
\<close>

definition chain_repo :: "(event \<Rightarrow> event) \<Rightarrow> (uuid \<Rightarrow> event list) custody_repo" where
  "chain_repo keep =
     \<lparr>cr_Append = (\<lambda>e ch. (None, ch(e_DeliveryID e := ch (e_DeliveryID e) @ [keep e]))),
      cr_LastByDelivery = (\<lambda>d ch. Inr (if ch d = [] then None else Some (last (ch d)))),
      cr_ListByDelivery = (\<lambda>d ch. Inr (ch d))\<rparr>"

fun record_all ::
  "hash_fns \<Rightarrow> 's custody_repo \<Rightarrow> ledger_call list \<Rightarrow> 's \<Rightarrow> (goerror + event) list \<times> 's" where
  "record_all H repo [] s = ([], s)"
| "record_all H repo (c # cs) s =
     (case Ledger_Record H repo (lc_id c) (lc_event c) s of
        (r, s1) \<Rightarrow> (case record_all H repo cs s1 of (rs, s2) \<Rightarrow> (r # rs, s2)))"

lemma record_all_snoc:
  "record_all H repo cs s = (rs, s1) \<Longrightarrow> Ledger_Record H repo (lc_id c) (lc_event c) s1 = (r, s2) \<Longrightarrow>
     record_all H repo (cs @ [c]) s = (rs @ [r], s2)"
  by (induction cs arbitrary: s rs) (auto split: prod.splits)

definition succeeded :: "ledger_pc list \<Rightarrow> nat set" where
  "succeeded pcs = {i. i < length pcs \<and> (\<exists>e. pcs ! i = Ended (Inr e))}"

text \<open>
  A linearization: an order of the calls that succeeded in which they return the same events and
  take the chains from \<open>ch\<close> to \<open>ch'\<close>.
\<close>

definition linearized ::
  "hash_fns \<Rightarrow> (event \<Rightarrow> event) \<Rightarrow> ledger_call list \<Rightarrow> ledger_pc list \<Rightarrow> (uuid \<Rightarrow> event list) \<Rightarrow> (uuid \<Rightarrow> event list) \<Rightarrow> bool" where
  "linearized H keep cs pcs ch ch' \<longleftrightarrow>
     (\<exists>order rs. distinct order \<and> set order = succeeded pcs \<and> map ((!) pcs) order = map Ended rs \<and>
        record_all H (chain_repo keep) (map ((!) cs) order) ch = (rs, ch'))"

lemma linearized_same:
  assumes "linearized H keep cs pcs ch ch'" "i < length pcs" "i \<notin> succeeded pcs" "\<nexists>e. pc = Ended (Inr e)"
  shows "linearized H keep cs (pcs[i := pc]) ch ch'"
proof -
  have same: "succeeded (pcs[i := pc]) = succeeded pcs"
    using assms(2-4) by (auto simp: succeeded_def nth_list_update split: if_splits)
  have "map ((!) (pcs[i := pc])) order = map ((!) pcs) order" if "set order = succeeded pcs" for order
    using assms(3) that by (auto intro!: nth_list_update_neq)
  with assms(1) show ?thesis unfolding linearized_def same by metis
qed

lemma linearized_append:
  assumes "linearized H keep cs pcs ch ch'" "i < length pcs" "i \<notin> succeeded pcs"
    and "Ledger_Record H (chain_repo keep) (lc_id (cs ! i)) (lc_event (cs ! i)) ch' = (Inr e, ch'')"
  shows "linearized H keep cs (pcs[i := Ended (Inr e)]) ch ch''"
proof -
  from assms(1) obtain order rs where o: "distinct order" "set order = succeeded pcs" "map ((!) pcs) order = map Ended rs"
    "record_all H (chain_repo keep) (map ((!) cs) order) ch = (rs, ch')"
    by (auto simp: linearized_def)
  let ?pcs = "pcs[i := Ended (Inr e)]"
  have "map ((!) ?pcs) order = map Ended rs"
    unfolding o(3) [symmetric] using o(2) assms(3) by (auto intro!: nth_list_update_neq)
  moreover have "set (order @ [i]) = succeeded ?pcs"
    using o(2) assms(2) by (auto simp: succeeded_def nth_list_update split: if_splits)
  moreover have "record_all H (chain_repo keep) (map ((!) cs) (order @ [i])) ch = (rs @ [Inr e], ch'')"
    using record_all_snoc [OF o(4) assms(4)] by simp
  ultimately show ?thesis
    unfolding linearized_def using o(1,2) assms(2,3)
    by (intro exI [of _ "order @ [i]"] exI [of _ "rs @ [Inr e]"]) auto
qed

section \<open>A storage with unique sequence numbers\<close>

locale unique_store = custody_store +
  assumes append_unique: "invar s \<Longrightarrow> cr_Append repo e s = (None, s') \<Longrightarrow>
    \<forall>d. e_EventID e \<notin> e_EventID ` set (chain s d) \<Longrightarrow>
    e_SequenceNum e \<notin> e_SequenceNum ` set (chain s (e_DeliveryID e))"
begin

text \<open>An event that is ready was made for some prefix of its chain.\<close>

definition made_for :: "hash_fns \<Rightarrow> ledger_call \<Rightarrow> event list \<Rightarrow> event \<Rightarrow> bool" where
  "made_for H c es e \<longleftrightarrow> (let x = chain_event H (lc_id c) (if es = [] then None else Some (last es)) (lc_event c)
     in \<exists>h. computeHash H x = Inr h \<and> e = x\<lparr>e_Hash := h\<rparr>)"

definition ready_ok :: "hash_fns \<Rightarrow> 'a \<Rightarrow> ledger_call \<Rightarrow> event \<Rightarrow> bool" where
  "ready_ok H s c e \<longleftrightarrow> fits (lc_event c) \<and> Validate (lc_event c) = None \<and>
     (let es = chain s (e_DeliveryID (lc_event c)) in \<exists>k \<le> length es. made_for H c (take k es) e)"

fun call_ok :: "hash_fns \<Rightarrow> 'a \<Rightarrow> ledger_call \<Rightarrow> ledger_pc \<Rightarrow> bool" where
  "call_ok H s c Begin \<longleftrightarrow> fresh_event chain s (lc_id c) \<and> fits (lc_event c)"
| "call_ok H s c (Ready e) \<longleftrightarrow> fresh_event chain s (lc_id c) \<and> ready_ok H s c e"
| "call_ok H s c (Ended (Inr e)) \<longleftrightarrow> e_EventID e = lc_id c \<and> same_content (lc_event c) e \<and>
     keep e \<in> set (chain s (e_DeliveryID e))"
| "call_ok H s c (Ended (Inl err)) \<longleftrightarrow> True"

lemma made_for_fields:
  assumes "made_for H c es e"
  shows "e_DeliveryID e = e_DeliveryID (lc_event c)" "e_EventID e = lc_id c" "same_content (lc_event c) e"
    "fits e = fits (lc_event c)"
  using assms by (auto simp: made_for_def Let_def fits_chain_event, auto simp: chain_event_def same_content_def split: option.splits)

lemma made_for_extends: "made_for H c es e \<Longrightarrow> chain_intact H es \<Longrightarrow> chain_intact H (es @ [e])"
  using chain_event_extends [of H es "lc_id c" _ "lc_event c"] by (auto simp: made_for_def Let_def)

lemma made_for_records:
  assumes "made_for H c (ch (e_DeliveryID (lc_event c))) e" "Validate (lc_event c) = None"
  shows "Ledger_Record H (chain_repo keep) (lc_id c) (lc_event c) ch =
    (Inr e, ch(e_DeliveryID e := ch (e_DeliveryID e) @ [keep e]))"
  using assms(2) made_for_fields(1) [OF assms(1)] assms(1)
  by (auto simp: Ledger_Record_def chain_repo_def made_for_def Let_def)

definition calls_ok :: "hash_fns \<Rightarrow> ledger_call list \<Rightarrow> ledger_pc list \<times> 'a \<Rightarrow> bool" where
  "calls_ok H cs y \<longleftrightarrow> invar (snd y) \<and> ledger_intact H chain (snd y) \<and> length (fst y) = length cs \<and>
     (\<forall>i < length cs. call_ok H (snd y) (cs ! i) (fst y ! i))"

lemma begin_ready:
  assumes inv: "invar s" and ok: "call_ok H s c Begin" and st: "ledger_step H repo c Begin s = (pc, s')"
  shows "s' = s \<and> call_ok H s c pc \<and> (\<nexists>e. pc = Ended (Inr e))"
proof (cases pc)
  case (Ready e)
  with st obtain prev h where v: "Validate (lc_event c) = None"
    and last: "cr_LastByDelivery repo (e_DeliveryID (lc_event c)) s = Inr prev"
    and hash: "computeHash H (chain_event H (lc_id c) prev (lc_event c)) = Inr h"
    and e: "e = (chain_event H (lc_id c) prev (lc_event c))\<lparr>e_Hash := h\<rparr>" and s': "s' = s"
    by (auto simp: Let_def split: option.splits sum.splits)
  let ?es = "chain s (e_DeliveryID (lc_event c))"
  have "made_for H c (take (length ?es) ?es) e"
    using hash e last_ok [OF inv last] by (auto simp: made_for_def)
  then have "ready_ok H s c e"
    unfolding ready_ok_def Let_def using ok v by (auto intro: exI [of _ "length ?es"])
  with ok s' Ready show ?thesis by simp
next
  case (Ended r)
  with st have "s' = s \<and> (\<exists>err. r = Inl err)"
    by (auto simp: Let_def split: option.splits sum.splits)
  with Ended show ?thesis by auto
next
  case Begin
  with st show ?thesis by (auto simp: Let_def split: option.splits sum.splits)
qed

text \<open>An append that succeeds is at the end of its chain: no other call came in between.\<close>

lemma ready_append:
  assumes inv: "invar s" and intact: "ledger_intact H chain s" and ok: "call_ok H s c (Ready e)"
    and app: "cr_Append repo e s = (None, s')"
  shows "chain s' = (chain s)(e_DeliveryID e := chain s (e_DeliveryID e) @ [keep e])" "ledger_intact H chain s'"
    "Ledger_Record H (chain_repo keep) (lc_id c) (lc_event c) (chain s) = (Inr e, chain s')"
proof -
  let ?es = "chain s (e_DeliveryID (lc_event c))"
  have es: "chain_intact H ?es" using intact by (simp add: ledger_intact_def)
  from ok obtain k where k: "k \<le> length ?es" "made_for H c (take k ?es) e"
    by (auto simp: ready_ok_def Let_def)
  note f = made_for_fields [OF k(2)]
  have unused: "\<forall>d. e_EventID e \<notin> e_EventID ` set (chain s d)" using ok f by (simp add: fresh_event_def)
  have seq: "e_SequenceNum e = of_nat k"
    using made_for_extends [OF k(2) chain_intact_take [OF es]] k(1) by (simp add: chain_intact_snoc min_def)
  have "\<not> k < length ?es"
  proof
    assume "k < length ?es"
    then have "e_SequenceNum (?es ! k) = of_nat k" "?es ! k \<in> set ?es"
      using es by (simp_all add: chain_intact_def)
    with seq append_unique [OF inv app unused] f(1) show False by force
  qed
  with k have made: "made_for H c ?es e" and len: "k = length ?es" by simp_all
  show ch: "chain s' = (chain s)(e_DeliveryID e := chain s (e_DeliveryID e) @ [keep e])"
    using append_ok [OF inv app unused] chain_intact_numbered [OF es] seq len f(1) by simp
  have "payload_of (keep e) = payload_of e" using ok keep_payload f(4) by (simp add: ready_ok_def)
  from chain_intact_kept [OF made_for_extends [OF made es] this keep_links] have "chain_intact H (chain s' (e_DeliveryID e))"
    by (simp add: ch f(1))
  with intact show "ledger_intact H chain s'" by (simp add: ledger_intact_def ch)
  have "Validate (lc_event c) = None" using ok by (simp add: ready_ok_def)
  from made_for_records [where ch = "chain s", OF made this]
  show "Ledger_Record H (chain_repo keep) (lc_id c) (lc_event c) (chain s) = (Inr e, chain s')"
    by (simp add: ch f(1))
qed

text \<open>What a call knows stays true when another call appends its event.\<close>

lemma call_ok_append:
  assumes "call_ok H s c pc" "chain s' = (chain s)(e_DeliveryID e := chain s (e_DeliveryID e) @ [keep e])"
    and "e_EventID e \<noteq> lc_id c"
  shows "call_ok H s' c pc"
proof -
  have unused: "fresh_event chain s' (lc_id c)" if "fresh_event chain s (lc_id c)"
    using that assms(2,3) keep_links [of e] by (auto simp: fresh_event_def same_links_def)
  have ready: "ready_ok H s' c x" if x: "ready_ok H s c x" for x
  proof -
    from x obtain k where "k \<le> length (chain s (e_DeliveryID (lc_event c)))"
        "made_for H c (take k (chain s (e_DeliveryID (lc_event c)))) x"
      by (auto simp: ready_ok_def Let_def)
    then show ?thesis
      using x unfolding ready_ok_def assms(2) Let_def by (intro conjI exI [of _ k]) auto
  qed
  show ?thesis
    using assms(1) unused ready
    by (cases "(H, s, c, pc)" rule: call_ok.cases) (auto simp: assms(2))
qed

lemma calls_ok_same:
  assumes "calls_ok H cs (pcs, s)" "i < length cs" "chain s' = chain s" "invar s'" "call_ok H s (cs ! i) pc"
  shows "calls_ok H cs (pcs[i := pc], s')"
proof -
  have "call_ok H s' c x = call_ok H s c x" for c x
    using assms(3) by (cases "(H, s, c, x)" rule: call_ok.cases) (simp_all add: fresh_event_def ready_ok_def)
  with assms show ?thesis by (auto simp: calls_ok_def ledger_intact_def nth_list_update)
qed

lemma calls_ok_append:
  assumes ok: "calls_ok H cs (pcs, s)" "distinct (map lc_id cs)" "i < length cs" "pcs ! i = Ready e"
    and app: "cr_Append repo e s = (None, s')"
  shows "calls_ok H cs (pcs[i := Ended (Inr e)], s')" "\<forall>d. prefix (chain s d) (chain s' d)"
    "Ledger_Record H (chain_repo keep) (lc_id (cs ! i)) (lc_event (cs ! i)) (chain s) = (Inr e, chain s')"
proof -
  have inv: "invar s" and intact: "ledger_intact H chain s" and len: "length pcs = length cs"
    and each: "\<And>j. j < length cs \<Longrightarrow> call_ok H s (cs ! j) (pcs ! j)"
    using ok(1) by (auto simp: calls_ok_def)
  have oki: "call_ok H s (cs ! i) (Ready e)" using each [OF ok(3)] ok(4) by simp
  note ch = ready_append [OF inv intact oki app]
  from oki have f: "e_EventID e = lc_id (cs ! i)" "same_content (lc_event (cs ! i)) e"
    by (auto simp: ready_ok_def Let_def dest: made_for_fields)
  have "call_ok H s' (cs ! j) (pcs[i := Ended (Inr e)] ! j)" if "j < length cs" for j
  proof (cases "j = i")
    case True
    with f len that ch(1) show ?thesis by simp
  next
    case False
    then have "e_EventID e \<noteq> lc_id (cs ! j)" using ok(2,3) that f by (simp add: distinct_conv_nth)
    with call_ok_append [OF each [OF that] ch(1)] False show ?thesis by simp
  qed
  then show "calls_ok H cs (pcs[i := Ended (Inr e)], s')"
    using append_invar [OF inv app] ch len by (simp add: calls_ok_def)
qed (use ready_append [of s H "cs ! i" e s'] ok app in \<open>auto simp: calls_ok_def\<close>)

text \<open>All that a run of the calls keeps, from the chains \<open>ch\<close> it started with.\<close>

definition run_ok :: "hash_fns \<Rightarrow> ledger_call list \<Rightarrow> (uuid \<Rightarrow> event list) \<Rightarrow> ledger_pc list \<times> 'a \<Rightarrow> bool" where
  "run_ok H cs ch y \<longleftrightarrow> calls_ok H cs y \<and> (\<forall>d. prefix (ch d) (chain (snd y) d)) \<and>
     linearized H keep cs (fst y) ch (chain (snd y))"

lemma run_ok_step:
  assumes ok: "run_ok H cs ch (pcs, s)" and dist: "distinct (map lc_id cs)"
    and i: "i < length pcs" and st: "ledger_step H repo (cs ! i) (pcs ! i) s = (pc, s')"
  shows "run_ok H cs ch (pcs[i := pc], s')"
proof -
  have calls: "calls_ok H cs (pcs, s)" and lin: "linearized H keep cs pcs ch (chain s)"
    and pre: "\<forall>d. prefix (ch d) (chain s d)"
    using ok by (simp_all add: run_ok_def)
  then have inv: "invar s" and len: "i < length cs" and oki: "call_ok H s (cs ! i) (pcs ! i)"
    using i by (auto simp: calls_ok_def)
  have same: ?thesis if "chain s' = chain s" "invar s'" "call_ok H s (cs ! i) pc"
      "i \<notin> succeeded pcs" "\<nexists>e. pc = Ended (Inr e)"
    using calls_ok_same [OF calls len that(1-3)] linearized_same [OF lin i that(4,5)] that(1) pre
    by (simp add: run_ok_def)
  show ?thesis
  proof (cases "pcs ! i")
    case Begin
    with begin_ready [OF inv, of H "cs ! i" pc s'] oki st inv show ?thesis
      by (intro same) (auto simp: succeeded_def)
  next
    case (Ended r)
    with st have "pcs[i := pc] = pcs" "s' = s" using list_update_id [of pcs i] by auto
    with ok show ?thesis by simp
  next
    case (Ready e)
    then have i': "i \<notin> succeeded pcs" by (simp add: succeeded_def)
    obtain x where app: "cr_Append repo e s = (x, s')"
      and pc: "pc = (case x of Some err \<Rightarrow> Ended (Inl (Wrapf ''custody: append: %w'' [] err)) | None \<Rightarrow> Ended (Inr e))"
      using st Ready by (auto split: prod.splits option.splits)
    show ?thesis
    proof (cases x)
      case (Some err)
      with app pc i' append_err [OF inv] append_invar [OF inv] show ?thesis by (intro same) auto
    next
      case None
      with app pc pre calls_ok_append [OF calls dist len Ready, of s'] linearized_append [OF lin i i']
      show ?thesis by (auto simp: run_ok_def intro: prefix_order.trans)
    qed
  qed
qed

lemma run_ok_reach:
  assumes "(ledger_steps H repo cs)\<^sup>*\<^sup>* (map (\<lambda>_. Begin) cs, s) z" "calls_ok H cs (map (\<lambda>_. Begin) cs, s)"
    and "distinct (map lc_id cs)"
  shows "run_ok H cs (chain s) z"
proof -
  have "succeeded (map (\<lambda>_. Begin) cs) = {}" by (auto simp: succeeded_def)
  then have "linearized H keep cs (map (\<lambda>_. Begin) cs) (chain s) (chain s)" by (simp add: linearized_def)
  with assms(2) have "run_ok H cs (chain s) (map (\<lambda>_. Begin) cs, s)" by (simp add: run_ok_def)
  with assms(1) show ?thesis
    by (rule interleave_invariant) (rule run_ok_step [OF _ assms(3)])
qed

end

section \<open>Postgres\<close>

interpretation pg_unique: unique_store "pg_custody_repo env" "pg_chain env" "pg_inv env" "keep_event env"
    plain_event for env
proof unfold_locales
  show "e_SequenceNum e \<notin> e_SequenceNum ` set (pg_chain env s (e_DeliveryID e))"
    if inv: "pg_inv env s" and app: "cr_Append (pg_custody_repo env) e s = (None, s')"
      and new: "\<forall>d. e_EventID e \<notin> e_EventID ` set (pg_chain env s d)" for s s' e
  proof
    assume "e_SequenceNum e \<in> e_SequenceNum ` set (pg_chain env s (e_DeliveryID e))"
    then obtain x where x: "x \<in> set (tb_events s)" "er_delivery_id x = e_DeliveryID e"
        "e_SequenceNum (row_event env x) = e_SequenceNum e"
      by (auto simp: pg_chain_def sel_events_set)
    have seq: "er_sequence_num x = e_SequenceNum e"
      using row_event_fields [OF pg_invD(2) [OF inv x(1)]] x(3) by simp
    have "pgCus_Append env e s = (None, s')" using app by (simp add: pg_custody_repo_def)
    then obtain docs r where m: "marshal_event e = Inr docs" "event_params env e docs = Inr r"
      and ins: "sql_insert_event r s = Inr s'"
      using pgCus_Append_None by blast
    note r = scan_event_params(2-4) [OF m]
    have "\<not> (\<exists>y \<in> set (tb_events s). er_event_id y = er_event_id r)"
    proof
      assume "\<exists>y \<in> set (tb_events s). er_event_id y = er_event_id r"
      then obtain y where "y \<in> set (tb_events s)" "er_event_id y = e_EventID e" using r(1) by auto
      with chain_id [OF inv] new show False by metis
    qed
    moreover have "\<exists>y \<in> set (tb_events s). er_delivery_id y = er_delivery_id r \<and>
        er_sequence_num y = er_sequence_num r"
      using x seq r by auto
    ultimately show False using ins by (simp add: sql_insert_event_def)
  qed
qed

section \<open>The custody service\<close>

text \<open>
  \<open>custodyapp.Service.Record\<close> reads the delivery first and saves it last. Its steps: load, record in
  the ledger (taken as one step here), save the loaded delivery in its next state.
\<close>

datatype custody_pc = Start | Loaded delivery | Recorded delivery event | Done "event option \<times> goerror option"

fun custody_step ::
  "'s custody_deps \<Rightarrow> record_env \<Rightarrow> record_input \<Rightarrow> custody_pc \<Rightarrow> 's \<Rightarrow> custody_pc \<times> 's" where
  "custody_step deps env i Start s =
     (case dr_GetByID (cu_Deliveries deps) (ri_DeliveryID i) s of
        Inl err \<Rightarrow> (Done (None, Some err), s)
      | Inr d \<Rightarrow> (Loaded d, s))"
| "custody_step deps env i (Loaded d) s =
     (case Ledger_Record (cu_hash deps) (cu_repo deps) (rv_eventID env) (record_event env i) s of
        (Inl err, s1) \<Rightarrow> (Done (None, Some err), s1)
      | (Inr recorded, s1) \<Rightarrow>
          (case applyDeliveryTransition env d (ri_Type i) of
             Inl err \<Rightarrow> (Done (Some recorded, Some err), s1)
           | Inr d' \<Rightarrow> (Recorded d' recorded, s1)))"
| "custody_step deps env i (Recorded d' recorded) s =
     (case dr_Save (cu_Deliveries deps) d' s of
        (Some err, s2) \<Rightarrow> (Done (Some recorded, Some err), s2)
      | (None, s2) \<Rightarrow> (Done (Some recorded, None), s2))"
| "custody_step deps env i (Done r) s = (Done r, s)"

abbreviation custody_steps ::
  "'s custody_deps \<Rightarrow> (record_env \<times> record_input) list \<Rightarrow> custody_pc list \<times> 's \<Rightarrow> custody_pc list \<times> 's \<Rightarrow> bool" where
  "custody_steps deps cs \<equiv> interleave (\<lambda>i. custody_step deps (fst (cs ! i)) (snd (cs ! i)))"

section \<open>Properties\<close>

text \<open>Run without interruption, the two steps are \<open>Ledger_Record\<close>.\<close>

theorem Record_is_two_steps:
  "(case ledger_step H repo c Begin s of (pc, s1) \<Rightarrow> ledger_step H repo c pc s1) =
   (case Ledger_Record H repo (lc_id c) (lc_event c) s of (r, s') \<Rightarrow> (Ended r, s'))"
  by (simp add: Ledger_Record_def Let_def split: option.split sum.split prod.split)

theorem custody_Record_is_three_steps:
  "(case custody_step deps env i Start s of (pc, s1) \<Rightarrow>
      case custody_step deps env i pc s1 of (pc', s2) \<Rightarrow> custody_step deps env i pc' s2) =
   (case custody_Record deps env i s of (r, s') \<Rightarrow> (Done r, s'))"
  by (simp add: custody_Record_def split: option.split sum.split prod.split)

text \<open>
  On Postgres the calls that succeed are as if made one after the other, and the others as if not made.
\<close>

text \<open>
  C6: Any number of concurrent Record calls on Postgres, interleaved step by step, with new
  identifiers and events that come back from their columns as they were hashed (plain_event):
  the calls that report success are linearizable, that is, there is an order in which the same
  calls, each made as a whole on the chains alone, return the same events and give the same
  chains, and the other calls leave no trace. So all chains stay intact and only grow.
\<close>

theorem pg_records_interleave:
  assumes "pg_inv env s" "ledger_intact H (pg_chain env) s" "distinct (map lc_id cs)"
    and "list_all (\<lambda>c. fresh_event (pg_chain env) s (lc_id c) \<and> plain_event (lc_event c)) cs"
    and "(ledger_steps H (pg_custody_repo env) cs)\<^sup>*\<^sup>* (map (\<lambda>_. Begin) cs, s) (pcs, s')"
  shows "ledger_intact H (pg_chain env) s' \<and> (\<forall>d. prefix (pg_chain env s d) (pg_chain env s' d)) \<and>
    list_all (\<lambda>pc. case pc of Ended (Inr e) \<Rightarrow> keep_event env e \<in> set (pg_chain env s' (e_DeliveryID e)) | _ \<Rightarrow> True) pcs \<and>
    linearized H (keep_event env) cs pcs (pg_chain env s) (pg_chain env s')"
proof -
  have "pg_unique.calls_ok env H cs (map (\<lambda>_. Begin) cs, s)"
    using assms(1,2,4) by (simp add: pg_unique.calls_ok_def list_all_length)
  note ok = pg_unique.run_ok_reach [OF assms(5) this assms(3), unfolded pg_unique.run_ok_def]
  have "case pcs ! j of Ended (Inr e) \<Rightarrow> keep_event env e \<in> set (pg_chain env s' (e_DeliveryID e)) | _ \<Rightarrow> True"
    if "j < length pcs" for j
  proof -
    have "pg_unique.call_ok env H s' (cs ! j) (pcs ! j)"
      using ok that by (simp add: pg_unique.calls_ok_def)
    then show ?thesis by (cases "pcs ! j") (auto split: sum.split)
  qed
  with ok show ?thesis by (simp add: pg_unique.calls_ok_def list_all_length)
qed

text \<open>In memory, two calls that read the same tail are both accepted, and the chain is broken.\<close>

text \<open>
  C11: In memory two concurrent Record calls that read the same tail both report success, and
  the chain no longer verifies: a sequence gap after the tail.
\<close>

theorem mem_records_fork:
  assumes intact: "chain_intact H (m_byDel m d)"
    and ev: "Validate e1 = None" "Validate e2 = None" "e_DeliveryID e1 = d" "e_DeliveryID e2 = d"
    and prev: "prev = (if m_byDel m d = [] then None else Some (last (m_byDel m d)))"
    and hash: "computeHash H (chain_event H i1 prev e1) = Inr h1" "computeHash H (chain_event H i2 prev e2) = Inr h2"
    and new: "i1 \<noteq> i2" "{i1, i2} \<inter> e_EventID ` set (m_byDel m d) = {}"
  shows "\<exists>m'. (ledger_steps H mem_custody_repo [\<lparr>lc_id = i1, lc_event = e1\<rparr>, \<lparr>lc_id = i2, lc_event = e2\<rparr>])\<^sup>*\<^sup>*
        ([Begin, Begin], m)
        ([Ended (Inr ((chain_event H i1 prev e1)\<lparr>e_Hash := h1\<rparr>)),
          Ended (Inr ((chain_event H i2 prev e2)\<lparr>e_Hash := h2\<rparr>))], m') \<and>
      Ledger_Verify H mem_custody_repo d m' =
        Some (ChainBrokenError (Suc (length (m_byDel m d))) ''sequence gap'')"
proof -
  let ?es = "m_byDel m d"
  let ?x = "(chain_event H i1 prev e1)\<lparr>e_Hash := h1\<rparr>" and ?y = "(chain_event H i2 prev e2)\<lparr>e_Hash := h2\<rparr>"
  let ?cs = "[\<lparr>lc_id = i1, lc_event = e1\<rparr>, \<lparr>lc_id = i2, lc_event = e2\<rparr>]"
  let ?m1 = "m\<lparr>m_byDel := (m_byDel m)(d := ?es @ [?x])\<rparr>"
  let ?m2 = "m\<lparr>m_byDel := (m_byDel m)(d := ?es @ [?x, ?y])\<rparr>"
  let ?S = "ledger_steps H mem_custody_repo ?cs"
  have f: "e_DeliveryID ?x = d" "e_DeliveryID ?y = d" "e_EventID ?x = i1" "e_EventID ?y = i2"
    using ev(3,4) by (auto simp: chain_event_def split: option.split)
  have last: "cr_LastByDelivery mem_custody_repo d m = Inr prev"
    by (simp add: prev mem_custody_repo_def memCus_LastByDelivery_def Let_def last_conv_nth)
  have a1: "cr_Append mem_custody_repo ?x m = (None, ?m1)"
  proof -
    have "\<not> (\<exists>z \<in> set ?es. e_EventID z = i1)" using new(2) by auto
    then show ?thesis by (simp only: mem_custody_repo_def custody_repo.simps memCus_Append_def Let_def f) simp
  qed
  have a2: "cr_Append mem_custody_repo ?y ?m1 = (None, ?m2)"
  proof -
    have "\<not> (\<exists>z \<in> set (?es @ [?x]). e_EventID z = i2)" using new f(3) by auto
    then show ?thesis by (simp only: mem_custody_repo_def custody_repo.simps memCus_Append_def Let_def f) simp
  qed
  have "run_schedule (\<lambda>i. ledger_step H mem_custody_repo (?cs ! i)) [0, 1, 0, 1] ([Begin, Begin], m) =
      ([Ended (Inr ?x), Ended (Inr ?y)], ?m2)"
    using ev last hash a1 a2 by (simp add: Let_def)
  then have "?S\<^sup>*\<^sup>* ([Begin, Begin], m) ([Ended (Inr ?x), Ended (Inr ?y)], ?m2)" by (rule run_schedule_reach)
  moreover have "Ledger_Verify H mem_custody_repo d ?m2 = Some (ChainBrokenError (Suc (length ?es)) ''sequence gap'')"
  proof -
    have ext: "chain_intact H (?es @ [?x])" by (rule chain_event_extends [OF intact hash(1) prev])
    then have "verify_from H 0 (genesisHash H) (?es @ [?x]) = None" by (simp add: verify_chain_intact)
    moreover have "e_SequenceNum ?y = of_nat (length ?es)"
      using chain_event_extends [OF intact hash(2) prev] by (simp add: chain_intact_snoc)
    ultimately show ?thesis
      using verify_from_append [of H 0 "genesisHash H" "?es @ [?x]" "[?y]"]
      by (simp add: Ledger_Verify_def mem_custody_repo_def memCus_ListByDelivery_def)
  qed
  ultimately show ?thesis by blast
qed

text \<open>
  Two calls that load the same delivery: the one that saves last decides the state, whatever the
  other recorded and saved in between.
\<close>

text \<open>
  C12: In memory, two concurrent calls of the custody service that load the same delivery, with
  new identifiers and valid events that json.Marshal can encode and that the loaded state
  allows, can both succeed: both events are in the chain, and the delivery has the state of the
  call that saves last, as if the other had not been made.
\<close>

theorem custody_lost_update:
  assumes hash: "is_ok (json_Marshal H (payload_of ((record_event v1 i1)\<lparr>e_EventID := rv_eventID v1\<rparr>)))"
      "is_ok (json_Marshal H (payload_of ((record_event v2 i2)\<lparr>e_EventID := rv_eventID v2\<rparr>)))" and del: "m_delByID m d = Some x" "d_ID x = d"
    and calls: "ri_DeliveryID i1 = d" "ri_DeliveryID i2 = d" "rv_eventID v1 \<noteq> rv_eventID v2"
      "fresh_event m_byDel m (rv_eventID v1)" "fresh_event m_byDel m (rv_eventID v2)"
    and ok: "Validate (record_event v1 i1) = None" "Validate (record_event v2 i2) = None"
      "applyDeliveryTransition v1 x (ri_Type i1) = Inr x1" "applyDeliveryTransition v2 x (ri_Type i2) = Inr x2"
  shows "\<exists>m' e1 e2. (custody_steps (mem_custody_deps H ord) [(v1, i1), (v2, i2)])\<^sup>*\<^sup>*
        ([Start, Start], m) ([Done (Some e1, None), Done (Some e2, None)], m') \<and>
      e_Type e1 = ri_Type i1 \<and> e_Type e2 = ri_Type i2 \<and>
      m_byDel m' d = m_byDel m d @ [e2, e1] \<and> m_delByID m' d = Some x1"
proof -
  let ?deps = "mem_custody_deps H ord" and ?cs = "[(v1, i1), (v2, i2)]"
  let ?S = "custody_steps ?deps ?cs"
  have pay: "payload_of (chain_event H j prev e) = payload_of (e\<lparr>e_EventID := j\<rparr>)" for j prev e
    by (simp add: chain_event_def payload_of_def split: option.split)
  have next_ok: "\<exists>e. next_event H m' v i = Inr e"
    if "is_ok (json_Marshal H (payload_of ((record_event v i)\<lparr>e_EventID := rv_eventID v\<rparr>)))" for m' v i
    using that by (auto simp: next_event_def Let_def computeHash_def pay is_ok_def split: sum.splits)
  obtain e2 where e2: "next_event H m v2 i2 = Inr e2" using next_ok [OF hash(2)] by blast
  let ?m1 = "m\<lparr>m_byDel := (m_byDel m)(d := m_byDel m d @ [e2])\<rparr>"
  have led2: "Ledger_Record H mem_custody_repo (rv_eventID v2) (record_event v2 i2) m = (Inr e2, ?m1)"
    using ok(2) e2 calls(2) by (simp add: mem_Ledger_Record [OF calls(5)])
  obtain m2 where save2: "memDel_Save x2 ?m1 = (None, m2)"
    by (cases "memDel_Save x2 ?m1") (auto dest: memDel_Save_res)
  note m2 = memDel_Save_res [OF save2]
  have id2: "e_EventID e2 = rv_eventID v2" "e_Type e2 = ri_Type i2" using next_event_fields [OF e2] by simp_all
  have chain2: "m_byDel m2 = (m_byDel m)(d := m_byDel m d @ [e2])" using m2(4) by simp
  have fresh: "fresh_event m_byDel m2 (rv_eventID v1)"
    using fresh_event_snoc [OF calls(4) _ chain2] id2 calls(3) by simp
  obtain e1 where e1: "next_event H m2 v1 i1 = Inr e1" using next_ok [OF hash(1)] by blast
  let ?m3 = "m2\<lparr>m_byDel := (m_byDel m2)(d := m_byDel m2 d @ [e1])\<rparr>"
  have led1: "Ledger_Record H mem_custody_repo (rv_eventID v1) (record_event v1 i1) m2 = (Inr e1, ?m3)"
    using ok(1) e1 calls(1) by (simp add: mem_Ledger_Record [OF fresh])
  obtain m4 where save1: "memDel_Save x1 ?m3 = (None, m4)"
    by (cases "memDel_Save x1 ?m3") (auto dest: memDel_Save_res)
  note m4 = memDel_Save_res [OF save1]
  have id1: "e_Type e1 = ri_Type i1" using next_event_fields [OF e1] by simp
  have x1: "d_ID x1 = d" using apply_target [OF ok(3)] del(2) by (simp add: same_job_def)
  have load: "custody_step ?deps v i Start m = (Loaded x, m)" if "ri_DeliveryID i = d" for v i
    using that del(1) by (simp add: mem_custody_deps_def mem_delivery_repo_def memDel_GetByID_def)
  have "run_schedule (\<lambda>i. custody_step ?deps (fst (?cs ! i)) (snd (?cs ! i))) [0, 1, 1, 1, 0, 0] ([Start, Start], m) =
      ([Done (Some e1, None), Done (Some e2, None)], m4)"
    using load [OF calls(1)] load [OF calls(2)] led1 led2 ok(3,4) save1 save2
    by (simp add: mem_custody_deps_def mem_delivery_repo_def)
  then have "?S\<^sup>*\<^sup>* ([Start, Start], m) ([Done (Some e1, None), Done (Some e2, None)], m4)"
    by (rule run_schedule_reach)
  moreover have "m_byDel m4 d = m_byDel m d @ [e2, e1]" "m_delByID m4 d = Some x1"
    using m4 chain2 x1 by simp_all
  ultimately show ?thesis using id1 id2(2) by blast
qed

end
