(* ===== verification/WitnessesPg.thy ===== *)
theory WitnessesPg
  imports DemoPg Concurrency
begin

text \<open>
  The properties of the Postgres storage and of concurrent calls at concrete inputs: the run of
  \<open>DemoPg\<close>, and a small database with one assigned delivery and no events.
\<close>

section \<open>A small database\<close>

definition one_awb :: awb_row where
  "one_awb = \<lparr>wr_id = 1, wr_internal_awb = ''DF-2026-A'', wr_retailer_id = 1, wr_customer_id = None,
     wr_external_awbs = JNull, wr_package = JNull, wr_declared_value_minor = 0, wr_declared_value_currency = None,
     wr_state = ''at_locker'', wr_state_reason = Some ''x'', wr_metadata = JObj [], wr_created_at = 0, wr_updated_at = 0\<rparr>"

definition one_delivery :: delivery_row where
  "one_delivery = \<lparr>dr_id = 2, dr_awb_id = 1, dr_leg_number = 1, dr_carrier_id = ''bolt_food'', dr_carrier_version = ''v1'',
     dr_carrier_external_id = None, dr_pickup = JNull, dr_drop = JNull, dr_scheduled_window = RangeNull,
     dr_state = ''assigned'', dr_state_reason = None, dr_rider = JNull, dr_price_quoted_minor = 1200,
     dr_price_charged_minor = None, dr_price_currency = ''RON'', dr_estimated_pickup_at = None,
     dr_estimated_drop_at = None, dr_actual_pickup_at = None, dr_actual_drop_at = None,
     dr_idempotency_key = None, dr_metadata = JObj [], dr_created_at = 0, dr_updated_at = 0\<rparr>"

definition one_db :: pgdb where
  "one_db = demo_db\<lparr>tb_awbs := [one_awb], tb_deliveries := [one_delivery]\<rparr>"

lemma one_db_inv: "schema_inv one_db" "pg_inv demo_env one_db"
proof -
  show schema: "schema_inv one_db"
    by (simp add: schema_inv_def awbs_ok_def deliveries_ok_def events_ok_def awb_fk_ok_def one_db_def
        demo_db_def one_awb_def one_delivery_def chk_awb_state_def chk_delivery_state_def pg_max_rows_def)
  have "is_ok (scanDelivery demo_env one_delivery)" by code_simp
  with schema show "pg_inv demo_env one_db" by (simp add: pg_inv_def one_db_def demo_db_def)
qed

lemma one_db_chain [simp]: "pg_chain demo_env one_db i = []"
  by (simp add: pg_chain_def sel_events_def one_db_def demo_db_def)

lemma demo_env_faults [simp]: "pg_fault demo_env n s = None"
  by (simp add: demo_env_def)

section \<open>Runs on Postgres\<close>

theorem pg_run_invariant_witness:
  "pg_inv demo_env demo_pg_end \<and>
   app_inv (rt_hash demo_rt) (pg_awbs demo_env) (pg_dels demo_env) (pg_chain demo_env) demo_pg_end"
  by (rule pg_run_invariant [OF demo_pg_New demo_pg_run(1)])

theorem pg_run_chains_verify_witness: "custody_VerifyChain (app_Custody demo_pg) 2 demo_pg_end = None"
  by (rule pg_run_chains_verify [OF demo_pg_New demo_pg_run(1) demo_env_faults])

theorem pg_run_history_witness:
  "prefix (pg_chain demo_env demo_pg_booked 2) (pg_chain demo_env demo_pg_end 2)"
  using pg_run_history [OF demo_pg_New demo_pg_booked_run [THEN conjunct1] demo_pg_run(2), of 2] by simp

section \<open>Round trips\<close>

definition one_saved :: delivery where
  "one_saved = (row_delivery demo_env one_delivery)\<lparr>d_State := StateEnRoutePickup, d_IdempotencyKey := ''k''\<rparr>"

theorem pg_delivery_roundtrip_witness:
  "\<exists>s'. pgDel_Save demo_env one_saved one_db = (None, s') \<and>
     pgDel_GetByID demo_env (d_ID one_saved) s' = Inr (pg_stored_delivery demo_env one_db one_saved)"
proof -
  have "fst (pgDel_Save demo_env one_saved one_db) = None" by code_simp
  then obtain s' where s': "pgDel_Save demo_env one_saved one_db = (None, s')" by (metis prod.collapse)
  from pg_delivery_roundtrip [OF one_db_inv(2) this demo_env_faults] s' show ?thesis by blast
qed

definition one_event :: event where
  "one_event = (record_event (demo_record_env 10) (demo_record EventPackagePickedUp))\<lparr>e_EventID := 10, e_Hash := ''00''\<rparr>"

theorem pg_event_roundtrip_witness:
  "\<exists>s'. pgCus_Append demo_env one_event one_db = (None, s') \<and>
     pgCus_ListByDelivery demo_env 2 s' = Inr [keep_event demo_env one_event] \<and>
     pgCus_LastByDelivery demo_env 2 s' = Inr (Some (keep_event demo_env one_event))"
proof -
  have "fst (pgCus_Append demo_env one_event one_db) = None" by code_simp
  then obtain s' where s': "pgCus_Append demo_env one_event one_db = (None, s')" by (metis prod.collapse)
  have d: "e_DeliveryID one_event = 2" "e_SequenceNum one_event = 0"
    by (simp_all add: one_event_def record_event_def demo_record_def)
  have "pgCus_ListByDelivery demo_env 2 one_db = Inr []"
    using pgCus_List_answers [OF one_db_inv(2), of 2] by simp
  with pg_event_roundtrip [OF one_db_inv(2) s', of "[]"] s' d show ?thesis
    by (simp add: numbered_def fresh_event_def)
qed

definition unreasoned :: awb where
  "unreasoned = \<lparr>a_ID = 3, a_InternalAWB = ''DF-2026-B'', a_RetailerID = 1, a_CustomerID = None, a_ExternalAWBs = [],
     a_Package = \<lparr>p_WeightKg = Num 1, p_LengthCm = Num 0, p_WidthCm = Num 0, p_HeightCm = Num 0,
       p_DeclaredValueMinor = 0, p_DeclaredValueCcy = [], p_Description = [], p_Fragile = False\<rparr>,
     a_State = AwbCreated, a_StateReason = [], a_CreatedAt = demo_time 0, a_UpdatedAt = demo_time 0\<rparr>"

theorem pg_awb_unreadable_witness:
  "\<exists>s'. pgAWB_Save demo_env unreasoned one_db = (None, s') \<and> \<not> is_ok (pgAWB_GetByID demo_env 3 s')"
proof -
  have "fst (pgAWB_Save demo_env unreasoned one_db) = None" by code_simp
  then obtain s' where s': "pgAWB_Save demo_env unreasoned one_db = (None, s')" by (metis prod.collapse)
  have "a_StateReason unreasoned = []" "a_ID unreasoned = 3" by (simp_all add: unreasoned_def)
  with pg_awb_unreadable [OF s' _ demo_env_faults] s' show ?thesis by simp
qed

text \<open>A hash that covers the sign of the latitude, and an event on the equator, a little south.\<close>

definition sign_H :: hash_fns where
  "sign_H = \<lparr>sha256_Sum = (\<lambda>s. take 3 (rev s)),
     json_Marshal = (\<lambda>p. Inr (case h_Location p of Some g \<Rightarrow> (if cg_Lat g = NegZero then ''-0'' else ''+0'') | None \<Rightarrow> ''null''))\<rparr>"

definition equator :: event where
  "equator = (record_event (demo_record_env 10) (demo_record EventRiderAssigned))
     \<lparr>e_Location := Some \<lparr>cg_Lat = NegZero, cg_Lng = Num 26, cg_AccuracyM = Num 5, cg_Altitude = Num 0, cg_Heading = Num 0\<rparr>\<rparr>"

lemma equator_recorded:
  "case fst (Ledger_Record sign_H (pg_custody_repo demo_env) 10 equator one_db) of
     Inl err \<Rightarrow> False
   | Inr e' \<Rightarrow> \<not> digest_collision sign_H e' (keep_event demo_env e') \<and>
       json_Marshal sign_H (payload_of e') \<noteq> json_Marshal sign_H (payload_of (keep_event demo_env e'))"
  by code_simp

theorem pg_record_verifies_iff_witness:
  "\<exists>e' s'. Ledger_Record sign_H (pg_custody_repo demo_env) 10 equator one_db = (Inr e', s') \<and>
     Ledger_Verify sign_H (pg_custody_repo demo_env) 2 s' \<noteq> None"
proof -
  obtain q s' where q: "Ledger_Record sign_H (pg_custody_repo demo_env) 10 equator one_db = (q, s')" by fastforce
  then obtain e' where rec: "Ledger_Record sign_H (pg_custody_repo demo_env) 10 equator one_db = (Inr e', s')"
    and coll: "\<not> digest_collision sign_H e' (keep_event demo_env e')"
      "\<not> encoding_collision sign_H e' (keep_event demo_env e')"
    using equator_recorded by (cases q) (auto simp: encoding_collision_def)
  have eq: "e_DeliveryID equator = 2" "e_Metadata equator = []" "\<not> plain_event equator"
    by (simp_all add: equator_def record_event_def demo_record_def plain_event_def opt_all_def plain_geo_def)
  have "Ledger_Verify sign_H (pg_custody_repo demo_env) (e_DeliveryID equator) s' = None \<longleftrightarrow> plain_event equator"
    by (rule pg_record_verifies_iff [OF one_db_inv(2) _ _ eq(2) rec demo_env_faults coll])
      (simp_all add: fresh_event_def)
  with eq rec show ?thesis by auto
qed

section \<open>The log line\<close>

theorem redactDBURL_spec_witness:
  "redactDBURL (''postgres'' @ ''://'' @ ''u:p'' @ ''@'' @ ''ss@db'') = ''postgres://***@ss@db''"
  using redactDBURL_spec [of "''postgres''" "''u:p''" "''ss@db''"] by simp

section \<open>Concurrent calls\<close>

definition two_calls :: "ledger_call list" where
  "two_calls = [\<lparr>lc_id = 10, lc_event = record_event (demo_record_env 10) (demo_record EventRiderAssigned)\<rparr>,
     \<lparr>lc_id = 11, lc_event = record_event (demo_record_env 11) (demo_record EventRiderArrivedAtLocker)\<rparr>]"

definition raced :: "ledger_pc list \<times> pgdb" where
  "raced = run_schedule (\<lambda>i. ledger_step demo_H (pg_custody_repo demo_env) (two_calls ! i)) [0, 1, 1, 0] ([Begin, Begin], one_db)"

lemma raced_outcome:
  "map (\<lambda>pc. case pc of Ended (Inr e) \<Rightarrow> True | _ \<Rightarrow> False) (fst raced) = [False, True]"
  by code_simp

lemma raced_succeeded: "succeeded (fst raced) = {1}"
proof -
  obtain x y where pcs: "fst raced = [x, y]" and out: "\<nexists>e. x = Ended (Inr e)" "\<exists>e. y = Ended (Inr e)"
    using raced_outcome
    by (cases "fst raced"; cases "tl (fst raced)"; cases "tl (tl (fst raced))") (auto split: ledger_pc.splits sum.splits)
  then show ?thesis by (auto simp: succeeded_def less_2_cases_iff numeral_2_eq_2 [symmetric])
qed

theorem pg_records_interleave_witness:
  "ledger_intact demo_H (pg_chain demo_env) (snd raced) \<and>
   (\<exists>e. fst raced ! 1 = Ended (Inr e) \<and>
      Ledger_Record demo_H (chain_repo (keep_event demo_env)) (lc_id (two_calls ! 1)) (lc_event (two_calls ! 1))
        (pg_chain demo_env one_db) = (Inr e, pg_chain demo_env (snd raced)))"
proof -
  have "list_all (\<lambda>c. plain_event (lc_event c)) two_calls" by code_simp
  then have "list_all (\<lambda>c. fresh_event (pg_chain demo_env) one_db (lc_id c) \<and> plain_event (lc_event c)) two_calls"
    by (simp add: list_all_iff fresh_event_def)
  moreover have "(ledger_steps demo_H (pg_custody_repo demo_env) two_calls)\<^sup>*\<^sup>*
      (map (\<lambda>_. Begin) two_calls, one_db) (fst raced, snd raced)"
    using run_schedule_steps [of "\<lambda>i. ledger_step demo_H (pg_custody_repo demo_env) (two_calls ! i)" "([Begin, Begin], one_db)" "[0, 1, 1, 0]"]
    by (simp add: raced_def two_calls_def)
  moreover have "ledger_intact demo_H (pg_chain demo_env) one_db" by (simp add: ledger_intact_def)
  moreover have "distinct (map lc_id two_calls)" by (simp add: two_calls_def)
  ultimately have intact: "ledger_intact demo_H (pg_chain demo_env) (snd raced)"
    and lin: "linearized demo_H (keep_event demo_env) two_calls (fst raced) (pg_chain demo_env one_db) (pg_chain demo_env (snd raced))"
    using pg_records_interleave [OF one_db_inv(2), of demo_H two_calls "fst raced" "snd raced"] by blast+
  from lin obtain order rs where o: "distinct order" "set order = {1}" "map ((!) (fst raced)) order = map Ended rs"
    "record_all demo_H (chain_repo (keep_event demo_env)) (map ((!) two_calls) order) (pg_chain demo_env one_db) =
       (rs, pg_chain demo_env (snd raced))"
    unfolding linearized_def raced_succeeded by blast
  have "order = [1]" using o(1,2) by (cases order; cases "tl order") auto
  with o(3,4) obtain r where r: "fst raced ! 1 = Ended r"
      "Ledger_Record demo_H (chain_repo (keep_event demo_env)) (lc_id (two_calls ! 1)) (lc_event (two_calls ! 1))
        (pg_chain demo_env one_db) = (r, pg_chain demo_env (snd raced))"
    by (cases rs) (auto split: prod.splits)
  have "1 \<in> succeeded (fst raced)" by (simp add: raced_succeeded)
  with r intact show ?thesis by (auto simp: succeeded_def)
qed

theorem mem_records_fork_witness:
  "\<exists>pcs m'. (ledger_steps demo_H mem_custody_repo two_calls)\<^sup>*\<^sup>* ([Begin, Begin], mem_empty) (pcs, m') \<and>
     Ledger_Verify demo_H mem_custody_repo 2 m' = Some (ChainBrokenError 1 ''sequence gap'')"
proof -
  let ?e = "\<lambda>j t. record_event (demo_record_env j) (demo_record t)"
  obtain h1 h2 where h: "computeHash demo_H (chain_event demo_H 10 None (?e 10 EventRiderAssigned)) = Inr h1"
      "computeHash demo_H (chain_event demo_H 11 None (?e 11 EventRiderArrivedAtLocker)) = Inr h2"
    by (simp add: computeHash_def demo_H_def)
  have v: "Validate (?e 10 EventRiderAssigned) = None" "Validate (?e 11 EventRiderArrivedAtLocker) = None"
    by (rule demo_valid, simp)+
  have d: "e_DeliveryID (?e j t) = 2" for j t by (simp add: record_event_def demo_record_def)
  have "m_byDel mem_empty 2 = []" by (simp add: mem_empty_def)
  from mem_records_fork [where m = mem_empty and d = 2 and prev = None, OF _ v d d _ h] this
  show ?thesis by (auto simp: two_calls_def)
qed

definition assigned_mem :: mem where
  "assigned_mem = mem_empty\<lparr>m_delByID := [2 \<mapsto> row_delivery demo_env one_delivery]\<rparr>"

theorem custody_lost_update_witness:
  "\<exists>m' pcs x. (custody_steps (mem_custody_deps demo_H (\<lambda>_. [2]))
        [(demo_record_env 10, demo_record EventRiderArrivedAtLocker), (demo_record_env 11, demo_record EventDeliveryFailed)])\<^sup>*\<^sup>*
      ([Start, Start], assigned_mem) (pcs, m') \<and>
      m_delByID m' 2 = Some x \<and> d_State x = StateEnRoutePickup \<and> map e_Type (m_byDel m' 2) =
        [EventDeliveryFailed, EventRiderArrivedAtLocker]"
proof -
  let ?x = "row_delivery demo_env one_delivery"
  have x: "d_ID ?x = 2" "d_State ?x = StateAssigned" by code_simp+
  obtain x1 where x1: "applyDeliveryTransition (demo_record_env 10) ?x EventRiderArrivedAtLocker = Inr x1"
    using apply_error [of "demo_record_env 10" ?x EventRiderArrivedAtLocker] x(2)
    by (cases "applyDeliveryTransition (demo_record_env 10) ?x EventRiderArrivedAtLocker") auto
  obtain x2 where x2: "applyDeliveryTransition (demo_record_env 11) ?x EventDeliveryFailed = Inr x2"
    using apply_error [of "demo_record_env 11" ?x EventDeliveryFailed] x(2)
    by (cases "applyDeliveryTransition (demo_record_env 11) ?x EventDeliveryFailed") auto
  have st: "d_State x1 = StateEnRoutePickup" using apply_target [OF x1] by simp
  have t: "ri_Type (demo_record t) = t" "ri_DeliveryID (demo_record t) = 2" for t by (simp_all add: demo_record_def)
  have v: "Validate (record_event (demo_record_env 10) (demo_record EventRiderArrivedAtLocker)) = None"
    "Validate (record_event (demo_record_env 11) (demo_record EventDeliveryFailed)) = None"
    by (rule demo_valid, simp)+
  have "\<exists>m' e1 e2. (custody_steps (mem_custody_deps demo_H (\<lambda>_. [2]))
        [(demo_record_env 10, demo_record EventRiderArrivedAtLocker), (demo_record_env 11, demo_record EventDeliveryFailed)])\<^sup>*\<^sup>*
      ([Start, Start], assigned_mem) ([Done (Some e1, None), Done (Some e2, None)], m') \<and>
      e_Type e1 = ri_Type (demo_record EventRiderArrivedAtLocker) \<and> e_Type e2 = ri_Type (demo_record EventDeliveryFailed) \<and>
      m_byDel m' 2 = m_byDel assigned_mem 2 @ [e2, e1] \<and> m_delByID m' 2 = Some x1"
    by (rule custody_lost_update [where m = assigned_mem and x = ?x and ?x1.0 = x1 and ?x2.0 = x2])
      (use x x1 x2 v t in \<open>simp_all add: demo_H_def assigned_mem_def mem_empty_def demo_record_env_def fresh_event_def\<close>)
  with st show ?thesis by (fastforce simp: t assigned_mem_def mem_empty_def)
qed

end
