(* ===== verification/Binaries.thy ===== *)
theory Binaries
  imports App AppPg HttpApi Config
begin

text \<open>
  \<open>cmd/api\<close>, \<open>cmd/dispatcher\<close> and \<open>cmd/webhook-listener\<close>: what a process reads from its
  environment, the program it builds (\<open>app.New\<close>, with the choice of the storage), and then serves
  or runs. The loop of the dispatcher may run forever, so it is a partial function; \<open>None\<close> is a loop
  that does not return. At the end, what \<open>main\<close> does with the failure of its server and with a signal.
  The sockets themselves are not part of the model.
\<close>

section \<open>The program a process builds\<close>

datatype 'w program = InMemory "(mem, 'w) app" | OnPostgres "(pgdb, 'w) app"

definition bootstrap :: "'w runtime \<Rightarrow> pg_env \<Rightarrow> pool_env \<Rightarrow> config \<Rightarrow> goerror + 'w program" where
  "bootstrap rt env pe cfg =
     (if dbc_UseMemory (cf_DB cfg)
      then (case app_New rt (cf_Bolt cfg) of Inl err \<Rightarrow> Inl err | Inr a \<Rightarrow> Inr (InMemory a))
      else (case app_New_pg rt env pe (cf_Bolt cfg) (dbc_URL (cf_DB cfg)) (dbc_MaxConns (cf_DB cfg)) of
              Inl err \<Rightarrow> Inl err
            | Inr a \<Rightarrow> Inr (OnPostgres a)))"

text \<open>\<open>os.Exit\<close> with a code, or the server or worker that runs.\<close>

datatype 'x process = Exit int | Running 'x

section \<open>Log levels\<close>

text \<open>\<open>slog.Level\<close>: the levels with their numbers, by which they are compared.\<close>

datatype level = LevelDebug | LevelInfo | LevelWarn | LevelError

primrec level_number :: "level \<Rightarrow> int" where
  "level_number LevelDebug = -4"
| "level_number LevelInfo = 0"
| "level_number LevelWarn = 4"
| "level_number LevelError = 8"

instantiation level :: linorder
begin

definition less_eq_level :: "level \<Rightarrow> level \<Rightarrow> bool" where
  "less_eq_level a b \<longleftrightarrow> level_number a \<le> level_number b"

definition less_level :: "level \<Rightarrow> level \<Rightarrow> bool" where
  "less_level a b \<longleftrightarrow> level_number a < level_number b"

instance
proof
  fix a b :: level
  show "a \<le> b \<Longrightarrow> b \<le> a \<Longrightarrow> a = b" by (cases a; cases b) (simp_all add: less_eq_level_def)
qed (auto simp: less_eq_level_def less_level_def)

end

section \<open>The API and the webhook listener\<close>

definition parseLevel :: "string \<Rightarrow> level" where
  "parseLevel s =
     (if s = ''debug'' then LevelDebug else if s = ''warn'' then LevelWarn
      else if s = ''error'' then LevelError else LevelInfo)"

text \<open>A timeout of 0 is no timeout.\<close>

record 'w http_server =
  sv_Addr :: string
  sv_ReadTimeout :: int64
  sv_WriteTimeout :: int64
  sv_Level :: level
  sv_Program :: "'w program"

definition api_main :: "'w runtime \<Rightarrow> pg_env \<Rightarrow> pool_env \<Rightarrow> environ \<Rightarrow> 'w http_server process" where
  "api_main rt env pe getenv =
     (let cfg = Load getenv in
      case bootstrap rt env pe cfg of
        Inl _ \<Rightarrow> Exit 1
      | Inr p \<Rightarrow>
          Running \<lparr>sv_Addr = hc_APIAddr (cf_HTTP cfg), sv_ReadTimeout = hc_ReadTimeout (cf_HTTP cfg),
            sv_WriteTimeout = hc_WriteTimeout (cf_HTTP cfg), sv_Level = parseLevel (cf_LogLevel cfg),
            sv_Program = p\<rparr>)"

definition listener_main :: "'w runtime \<Rightarrow> pg_env \<Rightarrow> pool_env \<Rightarrow> environ \<Rightarrow> 'w http_server process" where
  "listener_main rt env pe getenv =
     (let cfg = Load getenv in
      case bootstrap rt env pe cfg of
        Inl _ \<Rightarrow> Exit 1
      | Inr p \<Rightarrow>
          Running \<lparr>sv_Addr = hc_WebhookListenerAddr (cf_HTTP cfg), sv_ReadTimeout = 0, sv_WriteTimeout = 0,
            sv_Level = LevelInfo, sv_Program = p\<rparr>)"

text \<open>The two routes of the listener.\<close>

definition listener_route :: "string \<Rightarrow> string list \<Rightarrow> endpoint option" where
  "listener_route m path =
     (if m = ''GET'' \<and> path = [''healthz''] then Some Liveness
      else if m = ''POST'' \<and> path = [''webhooks'', ''bolt''] then Some PostBolt else None)"

definition listener ::
  "('s, 'w) api \<Rightarrow> api_call \<Rightarrow> request \<Rightarrow> 's \<times> 'w \<Rightarrow> http_response_body \<times> 's \<times> 'w" where
  "listener api c r mw =
     (case listener_route (hr_Method r) (hr_Path r) of
        Some Liveness \<Rightarrow> (Health_Liveness, mw)
      | Some PostBolt \<Rightarrow> Webhooks_ingest api c r ''bolt_food'' mw
      | _ \<Rightarrow>
          (if listener_route ''GET'' (hr_Path r) = None \<and> listener_route ''POST'' (hr_Path r) = None
           then (RNoRoute, mw) else (RBadMethod, mw)))"

section \<open>The dispatcher\<close>

text \<open>Its own \<open>intEnv\<close>: \<open>Sscanf\<close> instead of \<open>Atoi\<close>, and no number below 1.\<close>

definition dispatcher_intEnv :: "environ \<Rightarrow> string \<Rightarrow> int \<Rightarrow> int" where
  "dispatcher_intEnv getenv key dflt =
     (let v = getenv key
      in if v = [] then dflt
         else case Sscanf_d v of None \<Rightarrow> dflt | Some n \<Rightarrow> if n \<le> 0 then dflt else n)"

definition dispatcher_durationEnv :: "environ \<Rightarrow> string \<Rightarrow> int64 \<Rightarrow> int64" where
  "dispatcher_durationEnv getenv key dflt =
     (let v = getenv key
      in if v = [] then dflt else case ParseDuration v of None \<Rightarrow> dflt | Some d \<Rightarrow> d)"

record 'w worker =
  wk_Interval :: int64
  wk_Batch :: int
  wk_Program :: "'w program"

definition dispatcher_main :: "'w runtime \<Rightarrow> pg_env \<Rightarrow> pool_env \<Rightarrow> environ \<Rightarrow> 'w worker process" where
  "dispatcher_main rt env pe getenv =
     (case bootstrap rt env pe (Load getenv) of
        Inl _ \<Rightarrow> Exit 1
      | Inr p \<Rightarrow>
          Running \<lparr>wk_Interval = dispatcher_durationEnv getenv ''DISPATCH_POLL_INTERVAL'' (30 * second_ns),
            wk_Batch = dispatcher_intEnv getenv ''DISPATCH_BATCH_SIZE'' 20, wk_Program = p\<rparr>)"

text \<open>
  What \<open>select\<close> finds ready, in order: a tick, with what the dispatches of its batch draw from
  outside, or the end of the context. A tick ends in one call of the logger.
\<close>

datatype select = TickerC "nat \<Rightarrow> dispatch_env" | CtxDone

datatype log_line = TickFailed goerror | Dispatched nat | TickIdle

fun log_level :: "log_line \<Rightarrow> level" where
  "log_level (TickFailed err) = LevelError"
| "log_level (Dispatched n) = LevelInfo"
| "log_level TickIdle = LevelDebug"

text \<open>
  The handler writes the records at or above its level. The dispatcher's is made without options,
  so its level is \<open>LevelInfo\<close> whatever \<open>LOG_LEVEL\<close> says.
\<close>

definition dispatcher_log :: "log_line list \<Rightarrow> log_line list" where
  "dispatcher_log entries = filter (\<lambda>l. LevelInfo \<le> log_level l) entries"

datatype 'x outcome = Panicked string | Returned 'x

definition tick ::
  "('s, 'w) dispatch_deps \<Rightarrow> int \<Rightarrow> (nat \<Rightarrow> dispatch_env) \<Rightarrow> log_line list \<times> 's \<times> 'w \<Rightarrow> log_line list \<times> 's \<times> 'w" where
  "tick deps batch envs st =
     (case st of (entries, sw) \<Rightarrow>
        (case DispatchPending deps envs batch sw of
           (Inl err, sw') \<Rightarrow> (entries @ [TickFailed err], sw')
         | (Inr n, sw') \<Rightarrow> (entries @ [if 0 < n then Dispatched n else TickIdle], sw')))"

partial_function (option) tick_loop ::
  "('s, 'w) dispatch_deps \<Rightarrow> int \<Rightarrow> (nat \<Rightarrow> select) \<Rightarrow> nat \<Rightarrow> log_line list \<times> 's \<times> 'w \<Rightarrow> (log_line list \<times> 's \<times> 'w) option" where
  [code]: "tick_loop deps batch ready k st =
     (case ready k of
        CtxDone \<Rightarrow> Some st
      | TickerC envs \<Rightarrow> tick_loop deps batch ready (Suc k) (tick deps batch envs st))"

definition runLoop ::
  "('s, 'w) dispatch_deps \<Rightarrow> int64 \<Rightarrow> int \<Rightarrow> (nat \<Rightarrow> select) \<Rightarrow> 's \<times> 'w \<Rightarrow> (log_line list \<times> 's \<times> 'w) outcome option" where
  "runLoop deps interval batch ready sw =
     (if interval \<le>s 0 then Some (Panicked ''non-positive interval for NewTicker'')
      else map_option Returned (tick_loop deps batch ready 0 ([], sw)))"

section \<open>The end of a process\<close>

text \<open>
  Once it has started its goroutine, \<open>main\<close> waits for a signal. What it sees, in order: the
  goroutine reaching the call of \<open>ListenAndServe\<close>, its return, which always has an error
  (\<open>http.ErrServerClosed\<close> after a shutdown), the panic of
  a goroutine, which ends the process with status 2, or \<open>SIGINT\<close> or \<open>SIGTERM\<close>. \<open>shutdown\<close> is what
  \<open>Shutdown\<close> returns within its ten seconds.
\<close>

datatype main_event = ServerStarts | ListenReturns goerror | GoroutinePanics string | QuitSignal

datatype main_line = ListeningLine | ServerFailedLine goerror | ShutdownFailedLine goerror | StoppedLine

datatype process_end = Waiting | ExitStatus nat

definition ErrServerClosed :: goerror where
  "ErrServerClosed = External ''http: Server closed''"

fun api_wait :: "goerror option \<Rightarrow> main_event list \<Rightarrow> main_line list \<times> process_end" where
  "api_wait shutdown [] = ([], Waiting)"
| "api_wait shutdown (ServerStarts # evs) =
     (case api_wait shutdown evs of (lines, e) \<Rightarrow> (ListeningLine # lines, e))"
| "api_wait shutdown (ListenReturns err # evs) =
     (if err \<noteq> ErrServerClosed then ([ServerFailedLine err], ExitStatus 1) else api_wait shutdown evs)"
| "api_wait shutdown (GoroutinePanics p # evs) = ([], ExitStatus 2)"
| "api_wait shutdown (QuitSignal # evs) =
     ((case shutdown of None \<Rightarrow> [] | Some err \<Rightarrow> [ShutdownFailedLine err]) @ [StoppedLine], ExitStatus 0)"

text \<open>The listener discards both errors: \<open>_ = srv.ListenAndServe()\<close>, \<open>_ = srv.Shutdown(ctx)\<close>.\<close>

fun listener_wait :: "main_event list \<Rightarrow> main_line list \<times> process_end" where
  "listener_wait [] = ([], Waiting)"
| "listener_wait (ServerStarts # evs) =
     (case listener_wait evs of (lines, e) \<Rightarrow> (ListeningLine # lines, e))"
| "listener_wait (ListenReturns err # evs) = listener_wait evs"
| "listener_wait (GoroutinePanics p # evs) = ([], ExitStatus 2)"
| "listener_wait (QuitSignal # evs) = ([], ExitStatus 0)"

text \<open>The dispatcher serves nothing; the loop in its goroutine may panic.\<close>

fun dispatcher_wait :: "main_event list \<Rightarrow> main_line list \<times> process_end" where
  "dispatcher_wait [] = ([], Waiting)"
| "dispatcher_wait (ServerStarts # evs) = dispatcher_wait evs"
| "dispatcher_wait (ListenReturns err # evs) = dispatcher_wait evs"
| "dispatcher_wait (GoroutinePanics p # evs) = ([], ExitStatus 2)"
| "dispatcher_wait (QuitSignal # evs) = ([StoppedLine], ExitStatus 0)"

section \<open>Facts\<close>

lemma app_New_ok: "is_ok (app_New rt cfg)"
  by (simp add: app_New_def app_with_def Wire_ok Let_def is_ok_def)

lemma app_New_pg_iff:
  "app_New_pg rt env pe cfg url n =
     (case NewPool pe url n of Inl err \<Rightarrow> Inl err | Inr _ \<Rightarrow> app_with rt (pg_repos env) cfg)"
  by (simp add: app_New_pg_def Wire_ok on_ok_def split: sum.split)

text \<open>The ticks before the context ends.\<close>

definition ticks_of :: "(nat \<Rightarrow> select) \<Rightarrow> nat \<Rightarrow> nat \<Rightarrow> (nat \<Rightarrow> dispatch_env) list" where
  "ticks_of ready k n = map (\<lambda>i. case ready (k + i) of TickerC envs \<Rightarrow> envs | CtxDone \<Rightarrow> (\<lambda>_. undefined)) [0..<n]"

lemma ticks_of_Suc: "ready k = TickerC envs \<Longrightarrow> ticks_of ready k (Suc n) = envs # ticks_of ready (Suc k) n"
  by (simp add: ticks_of_def upt_conv_Cons map_Suc_upt [symmetric] comp_def del: upt_Suc)

lemma tick_loop_returns:
  assumes "ready (k + n) = CtxDone" "\<forall>i<n. ready (k + i) \<noteq> CtxDone"
  shows "tick_loop deps batch ready k st = Some (fold (tick deps batch) (ticks_of ready k n) st)"
  using assms
proof (induction n arbitrary: k st)
  case 0
  then show ?case by (subst tick_loop.simps) (simp add: ticks_of_def)
next
  case (Suc n)
  then obtain envs where envs: "ready k = TickerC envs" by (cases "ready k") auto
  have "tick_loop deps batch ready k st = tick_loop deps batch ready (Suc k) (tick deps batch envs st)"
    by (subst tick_loop.simps) (simp add: envs)
  also have "\<dots> = Some (fold (tick deps batch) (ticks_of ready (Suc k) n) (tick deps batch envs st))"
    using Suc.prems by (intro Suc.IH) auto
  finally show ?case using ticks_of_Suc [of ready k envs n] envs by simp
qed

text \<open>A loop that returns found the context done, by fixpoint induction.\<close>

lemma tick_loop_Some:
  "tick_loop deps batch ready k st = Some r \<Longrightarrow> \<exists>n. ready (k + n) = CtxDone"
proof (induction rule: tick_loop.raw_induct [rotated, consumes 1, case_names step])
  case (step loop deps batch ready k st r)
  show ?case
  proof (cases "ready k")
    case CtxDone
    then show ?thesis by (intro exI [of _ 0]) simp
  next
    case (TickerC envs)
    with step.hyps have "loop deps batch ready (Suc k) (tick deps batch envs st) = Some r" by simp
    from step.IH [OF this] obtain n where "ready (Suc k + n) = CtxDone" by blast
    then show ?thesis by (intro exI [of _ "Suc n"]) simp
  qed
qed

lemma ticks_idle:
  assumes "\<And>envs. DispatchPending deps envs batch sw = (Inr 0, sw)"
  shows "fold (tick deps batch) ts (es, sw) = (es @ replicate (length ts) TickIdle, sw)"
  using assms by (induction ts arbitrary: es) (simp_all add: tick_def)

lemma listener_changed:
  assumes "listener api c r mw = (resp, mw')" "mw' \<noteq> mw"
  shows "hr_Method r = ''POST'' \<and> hr_Path r = [''webhooks'', ''bolt''] \<and>
    Webhooks_ingest api c r ''bolt_food'' mw = (resp, mw')"
  using assms by (auto simp: listener_def listener_route_def split: if_splits)

section \<open>Properties\<close>

theorem bootstrap_spec:
  "case bootstrap rt env pe cfg of
     Inl err \<Rightarrow> \<not> dbc_UseMemory (cf_DB cfg) \<and> NewPool pe (dbc_URL (cf_DB cfg)) (dbc_MaxConns (cf_DB cfg)) = Inl err
   | Inr (InMemory a) \<Rightarrow> dbc_UseMemory (cf_DB cfg) \<and> app_New rt (cf_Bolt cfg) = Inr a
   | Inr (OnPostgres a) \<Rightarrow> \<not> dbc_UseMemory (cf_DB cfg) \<and> app_with rt (pg_repos env) (cf_Bolt cfg) = Inr a \<and>
       is_ok (NewPool pe (dbc_URL (cf_DB cfg)) (dbc_MaxConns (cf_DB cfg)))"
proof (cases "dbc_UseMemory (cf_DB cfg)")
  case True
  then show ?thesis
    using app_New_ok [of rt "cf_Bolt cfg"] by (auto simp: bootstrap_def is_ok_def split: sum.splits)
next
  case False
  have "is_ok (app_with rt (pg_repos env) (cf_Bolt cfg))"
    by (simp add: app_with_def Wire_ok Let_def is_ok_def)
  with False show ?thesis by (auto simp: bootstrap_def app_New_pg_iff is_ok_def split: sum.splits)
qed

text \<open>The size of the pool for a number in \<open>DB_MAX_CONNS\<close>: its low 32 bits, if they are positive.\<close>

text \<open>
  C40: DB_MAX_CONNS sets the size of the pool to the low 32 bits of its number, read as a signed
  integer, if that is positive; otherwise the size stays what the database URL says.
\<close>

theorem pool_size:
  assumes "getenv ''DB_MAX_CONNS'' = fmt_d n" "int64_range n"
    and "pl_ParseConfig pe (dbc_URL (cf_DB (Load getenv))) = Inr base"
    and "NewPool pe (dbc_URL (cf_DB (Load getenv))) (dbc_MaxConns (cf_DB (Load getenv))) = Inr pool"
  shows "sint (pc_MaxConns pool) =
    (let k = (n + 2 ^ 31) mod 2 ^ 32 - 2 ^ 31 in if 0 < k then k else sint (pc_MaxConns base))"
proof -
  let ?c = "dbc_MaxConns (cf_DB (Load getenv))"
  have "pc_MaxConns pool = (if 0 <s ?c then ?c else pc_MaxConns base)"
    using assms(3,4) by (auto simp: NewPool_def Let_def split: if_splits option.splits)
  moreover have "sint ?c = (n + 2 ^ 31) mod 2 ^ 32 - 2 ^ 31"
    by (rule max_conns_truncated [of getenv n, OF assms(1,2)])
  ultimately show ?thesis by (simp add: word_sless_alt Let_def)
qed

theorem batch_positive:
  assumes "dispatcher_main rt env pe getenv = Running wk"
  shows "0 < wk_Batch wk \<and> wk_Batch wk < 2 ^ 63"
proof -
  have "wk_Batch wk = dispatcher_intEnv getenv ''DISPATCH_BATCH_SIZE'' 20"
    using assms by (auto simp: dispatcher_main_def split: sum.splits)
  then show ?thesis
    by (auto simp: dispatcher_intEnv_def Let_def int64_range_def dest!: Sscanf_d_range split: option.split)
qed

text \<open>The loop returns exactly when its context ends, after the ticks before that.\<close>

text \<open>
  C28: The loop of the dispatcher panics when its interval is not positive; otherwise it returns
  exactly when its context ends, having made one pass over the pending deliveries for each tick
  before that, in order.
\<close>

theorem runLoop_spec:
  "runLoop deps interval batch ready sw =
     (if interval \<le>s 0 then Some (Panicked ''non-positive interval for NewTicker'')
      else if \<exists>k. ready k = CtxDone
      then Some (Returned (fold (tick deps batch) (ticks_of ready 0 (LEAST k. ready k = CtxDone)) ([], sw)))
      else None)"
proof (cases "\<exists>k. ready k = CtxDone")
  case True
  define n where "n = (LEAST k. ready k = CtxDone)"
  have "ready (0 + n) = CtxDone" using LeastI_ex [OF True] by (simp add: n_def)
  moreover have "\<forall>i < n. ready (0 + i) \<noteq> CtxDone"
    unfolding n_def by (intro allI impI, drule not_less_Least) simp
  ultimately have "tick_loop deps batch ready 0 ([], sw) =
      Some (fold (tick deps batch) (ticks_of ready 0 n) ([], sw))"
    by (rule tick_loop_returns)
  with True show ?thesis by (simp add: runLoop_def n_def)
next
  case False
  have "tick_loop deps batch ready 0 ([], sw) = None"
  proof (rule ccontr)
    assume "tick_loop deps batch ready 0 ([], sw) \<noteq> None"
    then obtain r where "tick_loop deps batch ready 0 ([], sw) = Some r" by blast
    from tick_loop_Some [OF this] False show False by simp
  qed
  with False show ?thesis by (simp add: runLoop_def)
qed

text \<open>
  A poll interval that is not positive is accepted, and the ticker panics, which ends the process
  (\<open>dispatcher_wait\<close>).
\<close>

theorem poll_interval_unchecked:
  assumes "dispatcher_main rt env pe getenv = Running wk"
    and "getenv ''DISPATCH_POLL_INTERVAL'' = ''-'' @ duration_text cs" "cs \<noteq> []" "units_ok cs" "duration_ns cs \<le> 2 ^ 63"
  shows "runLoop deps (wk_Interval wk) (wk_Batch wk) ready sw = Some (Panicked ''non-positive interval for NewTicker'')"
proof -
  have "dispatcher_durationEnv getenv key dflt = durationEnv getenv key dflt" for key dflt
    by (simp add: dispatcher_durationEnv_def durationEnv_def)
  then have "wk_Interval wk = durationEnv getenv ''DISPATCH_POLL_INTERVAL'' (30 * second_ns)"
    using assms(1) by (auto simp: dispatcher_main_def split: sum.splits)
  also have "\<dots> = word_of_int (- duration_ns cs)"
    using durationEnv_text [of getenv "''DISPATCH_POLL_INTERVAL''" True cs] assms(2-5) by (simp add: with_sign_def)
  finally have "sint (wk_Interval wk) = - duration_ns cs"
    using sint_of_int64 [of "- duration_ns cs"] duration_ns_nonneg [OF assms(4)] assms(5) by (simp add: int64_range_def)
  then show ?thesis using duration_ns_nonneg [OF assms(4)] by (simp add: runLoop_def word_sle_eq)
qed

text \<open>
  An address that cannot be listened on ends the API with status 1. The webhook listener goes on
  without serving: it logs nothing and waits for a signal as if nothing had happened.
\<close>

theorem bind_failure:
  assumes "err \<noteq> ErrServerClosed"
  shows "api_wait shutdown (ServerStarts # ListenReturns err # evs) =
      ([ListeningLine, ServerFailedLine err], ExitStatus 1)"
    and "listener_wait (ListenReturns err # evs) = listener_wait evs"
    and "set (fst (listener_wait evs)) \<subseteq> {ListeningLine}"
    and "snd (listener_wait evs) = Waiting \<longleftrightarrow> QuitSignal \<notin> set evs \<and> (\<forall>p. GoroutinePanics p \<notin> set evs)"
  using assms by (induction evs rule: listener_wait.induct) (auto split: prod.splits)

theorem quit_stops:
  assumes "\<forall>e \<in> set evs. e = ListenReturns ErrServerClosed"
  shows "api_wait shutdown (evs @ QuitSignal # rest) =
      ((case shutdown of None \<Rightarrow> [] | Some err \<Rightarrow> [ShutdownFailedLine err]) @ [StoppedLine], ExitStatus 0)"
    and "listener_wait (evs @ QuitSignal # rest) = ([], ExitStatus 0)"
    and "dispatcher_wait (evs @ QuitSignal # rest) = ([StoppedLine], ExitStatus 0)"
  using assms by (induction evs) auto

text \<open>Without a database, a dispatcher that returns has done nothing but tick, and its loop has
  written nothing: the line of a tick without dispatches is below the level of the log.\<close>

text \<open>
  C27: A dispatcher on the in-memory storage, from any reachable state and however long it runs,
  only ticks: each tick reports no dispatch and no failure, nothing changes, and the loop writes
  nothing to the log, whose level is fixed.
\<close>

theorem dispatcher_idle:
  assumes "app_New rt cfg = Inr a" "app_run a sw"
    and "runLoop (app_Dispatch a) interval batch ready sw = Some (Returned r)"
  shows "\<exists>n. r = (replicate n TickIdle, sw) \<and> ready n = CtxDone \<and> dispatcher_log (fst r) = []"
proof -
  let ?n = "LEAST k. ready k = CtxDone"
  have ex: "\<exists>k. ready k = CtxDone"
    and r: "r = fold (tick (app_Dispatch a) batch) (ticks_of ready 0 ?n) ([], sw)"
    using assms(3) unfolding runLoop_spec by (auto split: if_splits)
  have "r = (replicate ?n TickIdle, sw)"
    unfolding r using ticks_idle [OF run_pending_refused [OF assms(1,2)]] by (simp add: ticks_of_def)
  moreover have "ready ?n = CtxDone" using ex by (auto intro: LeastI_ex)
  moreover have "dispatcher_log (replicate k TickIdle) = []" for k
    by (simp add: dispatcher_log_def less_eq_level_def)
  ultimately show ?thesis by auto
qed

text \<open>
  C17: The webhook listener changes something only on a POST to its one webhook route whose body
  is signed with the webhook secret.
\<close>

theorem listener_signed_only:
  assumes "app_with rt rp cfg = Inr (api_App api)"
    and "listener api c r mw = (resp, mw')" "mw' \<noteq> mw"
  shows "hr_Method r = ''POST'' \<and> hr_Path r = [''webhooks'', ''bolt''] \<and>
    bolt_signed rt cfg (hr_Body r) (hr_Headers r)"
  using listener_changed [OF assms(2,3)] webhook_changed [OF assms(1) _ assms(3)] by blast

end
