(* ===== verification/Middleware.thy ===== *)
theory Middleware
  imports HttpApi
begin

text \<open>
  \<open>internal/infra/http/middleware/middleware.go\<close> and \<open>response/json.go\<close>: what stands between
  \<open>net/http\<close> and the handlers. A handler works on an exchange, the response under construction with
  the log lines about it, and may end in a panic. The first \<open>WriteHeader\<close>, or the first \<open>Write\<close>,
  sends the status with the headers set so far; later ones change nothing of them. Statuses are 200
  or more (no informational responses). The two middlewares of \<open>chi\<close> that the API
  also uses, for the remote address and the timeout of a request, are arguments.
\<close>

section \<open>Exchanges and handlers\<close>

datatype http_log = RequestLine string "string list" int | PanicLine string

record exchange =
  ex_Header :: headers
  ex_Sent :: "(int \<times> headers) option"
  ex_Calls :: "int list"
  ex_Body :: string
  ex_Log :: "http_log list"

definition exchange_new :: exchange where
  "exchange_new = \<lparr>ex_Header = [], ex_Sent = None, ex_Calls = [], ex_Body = [], ex_Log = []\<rparr>"

text \<open>A handler ends with the value it panicked with, if it did.\<close>

type_synonym 's http_handler = "request \<Rightarrow> exchange \<times> 's \<Rightarrow> string option \<times> exchange \<times> 's"

definition SetHeader :: "string \<Rightarrow> string \<Rightarrow> exchange \<Rightarrow> exchange" where
  "SetHeader k v x = x\<lparr>ex_Header := header_set (ex_Header x) k v\<rparr>"

text \<open>\<open>ex_Calls\<close> are the explicit calls, which a wrapper of the \<open>ResponseWriter\<close> sees.\<close>

definition WriteHeader :: "int \<Rightarrow> exchange \<Rightarrow> exchange" where
  "WriteHeader code x =
     x\<lparr>ex_Calls := ex_Calls x @ [code],
       ex_Sent := (case ex_Sent x of None \<Rightarrow> Some (code, ex_Header x) | Some y \<Rightarrow> Some y)\<rparr>"

definition Write :: "string \<Rightarrow> exchange \<Rightarrow> exchange" where
  "Write b x =
     x\<lparr>ex_Sent := (case ex_Sent x of None \<Rightarrow> Some (200, ex_Header x) | Some y \<Rightarrow> Some y),
       ex_Body := ex_Body x @ b\<rparr>"

definition http_Error :: "string \<Rightarrow> int \<Rightarrow> exchange \<Rightarrow> exchange" where
  "http_Error msg code x =
     (let x = x\<lparr>ex_Header := AList.delete ''Content-Length'' (ex_Header x)\<rparr>;
          x = SetHeader ''Content-Type'' ''text/plain; charset=utf-8'' x;
          x = SetHeader ''X-Content-Type-Options'' ''nosniff'' x
      in Write (msg @ [CHR 0x0A]) (WriteHeader code x))"

section \<open>Middleware\<close>

text \<open>\<open>newID\<close> is what \<open>uuid.New\<close> gives.\<close>

definition RequestID :: "string \<Rightarrow> 's http_handler \<Rightarrow> 's http_handler" where
  "RequestID newID next r xs =
     (let rid = Header_Get (hr_Headers r) ''X-Request-ID'';
          rid = (if rid = [] then newID else rid)
      in next r (SetHeader ''X-Request-ID'' rid (fst xs), snd xs))"

text \<open>The \<open>statusWriter\<close> starts with 200 and keeps the last status it is called with.\<close>

definition statusWriter :: "exchange \<Rightarrow> exchange \<Rightarrow> int" where
  "statusWriter x x' = last (200 # drop (length (ex_Calls x)) (ex_Calls x'))"

definition Logger :: "'s http_handler \<Rightarrow> 's http_handler" where
  "Logger next r xs =
     (case next r xs of
        (Some p, xs') \<Rightarrow> (Some p, xs')
      | (None, x', s') \<Rightarrow>
          (None, x'\<lparr>ex_Log := ex_Log x' @ [RequestLine (hr_Method r) (hr_Path r) (statusWriter (fst xs) x')]\<rparr>, s'))"

definition Recover :: "'s http_handler \<Rightarrow> 's http_handler" where
  "Recover next r xs =
     (case next r xs of
        (Some p, x', s') \<Rightarrow>
          (None, http_Error ''internal server error'' 500 (x'\<lparr>ex_Log := ex_Log x' @ [PanicLine p]\<rparr>), s')
      | (None, xs') \<Rightarrow> (None, xs'))"

definition chain :: "string \<Rightarrow> 's http_handler \<Rightarrow> 's http_handler" where
  "chain newID next = Recover (RequestID newID (Logger next))"

text \<open>
  \<open>chain\<close> is what the webhook listener puts around its routes. In the API two middlewares of
  \<open>chi\<close> stand between the logger and the routes, \<open>RealIP\<close> and \<open>Timeout\<close>.
\<close>

type_synonym 's middleware = "'s http_handler \<Rightarrow> 's http_handler"

definition api_chain :: "'s middleware \<Rightarrow> 's middleware \<Rightarrow> string \<Rightarrow> 's http_handler \<Rightarrow> 's http_handler" where
  "api_chain realIP timeout newID next = chain newID (realIP (timeout next))"

text \<open>
  What \<open>chi\<close> documents of them. \<open>RealIP\<close> sets the remote address of the request, which no handler
  here reads. \<open>Timeout\<close> cancels the context when the time is over; it does not stop the handler, and
  once that has returned (or panicked) it answers 504 if the deadline has passed. \<open>late\<close> tells
  whether it has for this request.
\<close>

definition RealIP_spec :: "'s middleware \<Rightarrow> bool" where
  "RealIP_spec realIP \<longleftrightarrow> (\<forall>next. realIP next = next)"

definition Timeout_spec :: "bool \<Rightarrow> 's middleware \<Rightarrow> bool" where
  "Timeout_spec late timeout \<longleftrightarrow> (\<forall>next r xs. timeout next r xs =
     (case next r xs of (p, x, s) \<Rightarrow> (p, if late then WriteHeader 504 x else x, s)))"

section \<open>The routes as a handler\<close>

text \<open>The status of each answer of the handlers; the router answers 404 and 405 without JSON.\<close>

fun status_of :: "http_response_body \<Rightarrow> int" where
  "status_of (RErr code _ _) = code"
| "status_of (RNotReady _) = 503"
| "status_of RNoRoute = 404"
| "status_of RBadMethod = 405"
| "status_of (RBooking _) = 201"
| "status_of (RBookingView _ _ _) = 200"
| "status_of RDispatched = 202"
| "status_of (RCustody _ _ _ _) = 201"
| "status_of RNoContent = 204"
| "status_of (RStatus code _) = code"

definition response_JSON :: "int \<Rightarrow> string \<Rightarrow> exchange \<Rightarrow> exchange" where
  "response_JSON status doc x =
     Write (doc @ [CHR 0x0A]) (WriteHeader status (SetHeader ''Content-Type'' ''application/json'' x))"

definition respond :: "(http_response_body \<Rightarrow> string) \<Rightarrow> http_response_body \<Rightarrow> exchange \<Rightarrow> exchange" where
  "respond enc b x =
     (if b = RNoContent then WriteHeader 204 x
      else if b = RNoRoute then http_Error ''404 page not found'' 404 x
      else if b = RBadMethod then Write [] (WriteHeader 405 x)
      else response_JSON (status_of b) (enc b) x)"

definition serve ::
  "(request \<Rightarrow> 's \<Rightarrow> http_response_body \<times> 's) \<Rightarrow> (http_response_body \<Rightarrow> string) \<Rightarrow> 's http_handler" where
  "serve routes enc r xs = (case routes r (snd xs) of (b, s') \<Rightarrow> (None, respond enc b (fst xs), s'))"

section \<open>Facts\<close>

lemma exchange_simps [simp]:
  "ex_Sent (SetHeader k v x) = ex_Sent x" "ex_Calls (SetHeader k v x) = ex_Calls x" "ex_Log (SetHeader k v x) = ex_Log x"
  "ex_Body (SetHeader k v x) = ex_Body x" "ex_Header (SetHeader k v x) = header_set (ex_Header x) k v"
  "ex_Calls (WriteHeader n x) = ex_Calls x @ [n]" "ex_Log (WriteHeader n x) = ex_Log x" "ex_Body (WriteHeader n x) = ex_Body x"
  "ex_Sent (WriteHeader n x) = (case ex_Sent x of None \<Rightarrow> Some (n, ex_Header x) | Some y \<Rightarrow> Some y)"
  "ex_Sent (Write b x) = (case ex_Sent x of None \<Rightarrow> Some (200, ex_Header x) | Some y \<Rightarrow> Some y)"
  "ex_Calls (Write b x) = ex_Calls x" "ex_Log (Write b x) = ex_Log x" "ex_Body (Write b x) = ex_Body x @ b"
  by (simp_all add: SetHeader_def WriteHeader_def Write_def)

lemma Header_Get_set [simp]:
  "Header_Get (header_set h k v) k' = (if k = k' then v else Header_Get h k')"
  by (simp add: Header_Get_def header_set_def AList.update_conv')

lemma Header_Get_delete: "k \<noteq> k' \<Longrightarrow> Header_Get (AList.delete k h) k' = Header_Get h k'"
  by (simp add: Header_Get_def AList.delete_conv')

lemma respond_sent:
  assumes "ex_Sent x = None"
  shows "\<exists>h. ex_Sent (respond enc b x) = Some (status_of b, h) \<and>
    Header_Get h ''X-Request-ID'' = Header_Get (ex_Header x) ''X-Request-ID''"
    and "ex_Calls (respond enc b x) = ex_Calls x @ [status_of b]" "ex_Log (respond enc b x) = ex_Log x"
  using assms by (auto simp: respond_def response_JSON_def http_Error_def Let_def Header_Get_delete)

section \<open>Properties\<close>

text \<open>
  Every request is answered once, with the status of the handler and the request identifier of the
  caller or a new one. The status is also the one logged, except by the API after the deadline: the
  \<open>WriteHeader\<close> of the timeout comes too late for the client and is what the logger remembers.
\<close>

text \<open>
  C37: Every request that the routes answer is sent the status of its answer, with the caller's
  request identifier or a new one, and has one log line. In the webhook listener, and in the API
  before the deadline of the request, the line has that status; in the API after the deadline it
  has 504, from the WriteHeader of the timeout that comes too late for the client. RealIP and
  Timeout of chi are assumed to do what they document.
\<close>

theorem request_answered:
  assumes "RealIP_spec realIP" "Timeout_spec late timeout"
    and "rid = (if Header_Get (hr_Headers r) ''X-Request-ID'' = [] then newID else Header_Get (hr_Headers r) ''X-Request-ID'')"
    and "routes r s = (b, s')"
  shows "(\<exists>x h. chain newID (serve routes enc) r (exchange_new, s) = (None, x, s') \<and>
      ex_Sent x = Some (status_of b, h) \<and> Header_Get h ''X-Request-ID'' = rid \<and>
      ex_Log x = [RequestLine (hr_Method r) (hr_Path r) (status_of b)]) \<and>
    (\<exists>x h. api_chain realIP timeout newID (serve routes enc) r (exchange_new, s) = (None, x, s') \<and>
      ex_Sent x = Some (status_of b, h) \<and> Header_Get h ''X-Request-ID'' = rid \<and>
      ex_Log x = [RequestLine (hr_Method r) (hr_Path r) (if late then 504 else status_of b)])"
proof -
  let ?x = "SetHeader ''X-Request-ID'' rid exchange_new"
  have none: "ex_Sent ?x = None" "ex_Calls ?x = []" "ex_Log ?x = []" by (simp_all add: exchange_new_def)
  note sent = respond_sent [OF none(1), of enc b]
  note defs = chain_def Recover_def RequestID_def Logger_def serve_def statusWriter_def Let_def
  have timeout: "timeout g r xs = (case g r xs of (p, x, s) \<Rightarrow> (p, if late then WriteHeader 504 x else x, s))" for g xs
    using assms(2) unfolding Timeout_spec_def by blast
  show ?thesis
    using sent none assms(1,3,4) by (auto simp: defs api_chain_def RealIP_spec_def timeout)
qed

text \<open>A panic is answered with 500 if nothing was sent; what the handler stored stays, and no request line is logged.\<close>


end
