(* ===== verification/WitnessesBin.thy ===== *)
theory WitnessesBin
  imports DemoPg Binaries Middleware
begin

text \<open>
  The properties of the binaries and of the middleware at concrete inputs: environments with one
  variable set, three ticks of the dispatcher, and a signed webhook that cancels a delivery.
\<close>

section \<open>Configuration\<close>

definition one_var :: "string \<Rightarrow> string \<Rightarrow> environ" where
  "one_var key v = (\<lambda>k. if k = key then v else [])"

lemma dec_digits_30: "dec_digits 30 = ''30''" by code_simp

lemma dec_digits_1: "dec_digits 1 = ''1''" by code_simp

lemma dec_digits_5: "dec_digits 5 = ''5''" by code_simp

theorem timeouts_exact_witness:
  "sint (hc_ReadTimeout (cf_HTTP (Load (one_var ''HTTP_READ_TIMEOUT'' ''1h30m'')))) = 5400000000000"
  using timeouts_exact [of "one_var ''HTTP_READ_TIMEOUT'' ''1h30m''" False "[(1, ''h''), (30, ''m'')]"]
  by (simp add: one_var_def dec_digits_30 dec_digits_1 units_ok_def unitMap_def with_sign_def del: One_nat_def)

theorem pool_size_witness:
  "\<exists>pool. NewPool demo_pool (dbc_URL (cf_DB (Load (one_var ''DB_MAX_CONNS'' (fmt_d 4294967301)))))
      (dbc_MaxConns (cf_DB (Load (one_var ''DB_MAX_CONNS'' (fmt_d 4294967301))))) = Inr pool \<and>
    sint (pc_MaxConns pool) = 5"
proof -
  let ?env = "one_var ''DB_MAX_CONNS'' (fmt_d 4294967301)"
  obtain pool where pool: "NewPool demo_pool (dbc_URL (cf_DB (Load ?env))) (dbc_MaxConns (cf_DB (Load ?env))) = Inr pool"
    by (simp add: NewPool_def demo_pool_def Let_def)
  have "?env ''DB_MAX_CONNS'' = fmt_d 4294967301" by (simp add: one_var_def)
  from pool_size [OF this _ _ pool] pool show ?thesis
    by (simp add: int64_range_def demo_pool_def Let_def)
qed

theorem batch_positive_witness:
  "\<exists>wk. dispatcher_main demo_rt demo_env demo_pool (one_var ''DISPATCH_BATCH_SIZE'' ''-3'') = Running wk \<and>
     0 < wk_Batch wk \<and> wk_Batch wk < 2 ^ 63"
proof -
  have "is_ok (bootstrap demo_rt demo_env demo_pool (Load (one_var ''DISPATCH_BATCH_SIZE'' ''-3'')))"
    by (simp add: bootstrap_def Load_def boolEnv_def one_var_def demo_New is_ok_def app_New_def app_with_def Wire_ok Let_def)
  then obtain wk where "dispatcher_main demo_rt demo_env demo_pool (one_var ''DISPATCH_BATCH_SIZE'' ''-3'') = Running wk"
    by (auto simp: dispatcher_main_def is_ok_def split: sum.splits)
  with batch_positive [OF this] show ?thesis by blast
qed

section \<open>The dispatcher\<close>

theorem poll_interval_unchecked_witness:
  "\<exists>wk. dispatcher_main demo_rt demo_env demo_pool (one_var ''DISPATCH_POLL_INTERVAL'' ''-5s'') = Running wk \<and>
     runLoop (app_Dispatch demo_app) (wk_Interval wk) (wk_Batch wk) (\<lambda>_. CtxDone) (mem_empty, ()) =
       Some (Panicked ''non-positive interval for NewTicker'')"
proof -
  let ?env = "one_var ''DISPATCH_POLL_INTERVAL'' ''-5s''"
  have "is_ok (bootstrap demo_rt demo_env demo_pool (Load ?env))"
    by (simp add: bootstrap_def Load_def boolEnv_def one_var_def is_ok_def app_New_def app_with_def Wire_ok Let_def)
  then obtain wk where wk: "dispatcher_main demo_rt demo_env demo_pool ?env = Running wk"
    by (auto simp: dispatcher_main_def is_ok_def split: sum.splits)
  have "?env ''DISPATCH_POLL_INTERVAL'' = ''-'' @ duration_text [(5, ''s'')]"
    by (simp add: one_var_def dec_digits_5)
  from poll_interval_unchecked [OF wk this] wk show ?thesis
    by (simp add: units_ok_def unitMap_def)
qed

definition three_ticks :: "nat \<Rightarrow> select" where
  "three_ticks k = (if k < 3 then TickerC (\<lambda>_. \<lparr>dv_now_decide = demo_time 1, dv_now_state = demo_time 1\<rparr>) else CtxDone)"

theorem dispatcher_idle_witness:
  "\<exists>n. runLoop (app_Dispatch demo_app) 1000000000 20 three_ticks demo_booked =
       Some (Returned (replicate n TickIdle, demo_booked)) \<and> three_ticks n = CtxDone \<and>
     dispatcher_log (replicate n TickIdle) = []"
proof -
  have "tick_loop (app_Dispatch demo_app) 20 three_ticks 0 ([], demo_booked) =
      Some (fold (tick (app_Dispatch demo_app) 20) (ticks_of three_ticks 0 3) ([], demo_booked))"
    by (rule tick_loop_returns) (simp_all add: three_ticks_def)
  then obtain r where r: "runLoop (app_Dispatch demo_app) 1000000000 20 three_ticks demo_booked = Some (Returned r)"
    by (simp add: runLoop_def word_sle_eq)
  from dispatcher_idle [OF demo_New demo_booked_run [THEN conjunct1] r] r show ?thesis by fastforce
qed

section \<open>The webhook listener\<close>

definition hook_rt :: "unit runtime" where
  "hook_rt = demo_rt\<lparr>rt_bolt := demo_bolt\<lparr>env_UnmarshalWebhook := (\<lambda>s. Inr \<lparr>bw_Event = ''order.cancelled'',
     bw_OrderID = s, bw_Timestamp = demo_time 4, bw_Rider = None, bw_Location = None, bw_PhotoURL = [],
     bw_Reason = []\<rparr>)\<rparr>\<rparr>"

definition hook_app :: "(mem, unit) app" where
  "hook_app = projr (app_with hook_rt (mem_repos hook_rt) demo_cfg)"

lemma hook_with: "app_with hook_rt (mem_repos hook_rt) demo_cfg = Inr hook_app"
  by (simp add: hook_app_def app_with_def Wire_ok Let_def)

definition hook_api :: "(mem, unit) api" where
  "hook_api = \<lparr>api_App = hook_app, api_Retailers = mem_retailer_repo (\<lambda>s. s), api_Pool = None,
     api_env = \<lparr>he_sha256 = (\<lambda>s. s), he_DecodeBooking = (\<lambda>s. Inl (External ''EOF'')),
       he_DecodeCustody = (\<lambda>s. Inl (External ''EOF'')), he_UuidParse = (\<lambda>s. Inr 2), he_ParseRFC3339 = (\<lambda>s. Inr (demo_time 2))\<rparr>\<rparr>"

definition hook_delivery :: delivery where
  "hook_delivery = \<lparr>d_ID = 2, d_AWBID = 1, d_LegNumber = 1, d_CarrierID = ''bolt_food'',
     d_CarrierVersion = ''v1'', d_CarrierExternalID = ''X1'', d_Pickup = booking_pickup demo_input, d_Drop = booking_drop demo_input,
     d_ScheduledWindowStart = None, d_ScheduledWindowEnd = None, d_State = StateAssigned, d_StateReason = [],
     d_Rider = None, d_PriceQuotedMinor = 0, d_PriceChargedMinor = 0, d_PriceCurrency = ''RON'',
     d_EstimatedPickupAt = None, d_EstimatedDropAt = None, d_ActualPickupAt = None, d_ActualDropAt = None,
     d_IdempotencyKey = [], d_Metadata = None, d_CreatedAt = demo_time 0, d_UpdatedAt = demo_time 0\<rparr>"

definition hook_mem :: mem where
  "hook_mem = mem_empty\<lparr>m_delByID := [2 \<mapsto> hook_delivery]\<rparr>"

definition hook_request :: request where
  "hook_request = \<lparr>hr_Method = ''POST'', hr_Path = [''webhooks'', ''bolt''],
     hr_Headers = [(''X-Bolt-Signature'', ''6875'')], hr_Body = ''X1''\<rparr>"

definition hook_call :: api_call where
  "hook_call = \<lparr>ac_book = demo_booking_env, ac_record = demo_record_env 10,
     ac_dispatch = \<lparr>dv_now_decide = demo_time 1, dv_now_state = demo_time 1\<rparr>,
     ac_webhook = (\<lambda>n. \<lparr>we_record = demo_record_env 10, we_now = demo_time 1\<rparr>)\<rparr>"

lemma hook_parses:
  "cp_ParseWebhook (bolt_New (rt_bolt hook_rt) demo_cfg) ''X1'' [(''X-Bolt-Signature'', ''6875'')] =
     Inr [ShipmentCancelledEvent \<lparr>b_Type = ''shipment.cancelled'', b_Time = demo_time 4, b_ExtID = ''X1'',
       b_CarrierID = ''bolt_food''\<rparr> []]"
proof -
  have "hex_EncodeToString ''hu'' = ''6875''" by code_simp
  then have "verifySignature (rt_bolt hook_rt) ''X1'' [(''X-Bolt-Signature'', ''6875'')] (bf_WebhookSecret demo_cfg) = None"
    by (simp add: verifySignature_def headerLookup_def strings_TrimPrefix_def hook_rt_def demo_rt_def demo_bolt_def demo_cfg_def Let_def)
  then show ?thesis
    by (simp add: bolt_New_def bolt_ParseWebhook_def hook_rt_def ToDomainEvents_def)
qed

lemma hook_cancels:
  "listener hook_api hook_call hook_request (hook_mem, ()) =
     (RNoContent, snd (memDel_Save (cancelled_or_same (demo_time 1) hook_delivery []) hook_mem), ())"
proof -
  let ?ev = "ShipmentCancelledEvent \<lparr>b_Type = ''shipment.cancelled'', b_Time = demo_time 4, b_ExtID = ''X1'',
    b_CarrierID = ''bolt_food''\<rparr> []"
  let ?deps = "app_Webhook hook_app"
  have wh: "wh_Deliveries ?deps = mem_delivery_repo (rt_del_order demo_rt)"
    using app_with_wired [OF hook_with] by (simp add: app_wired_def mem_repos_def hook_rt_def)
  have port: "reg_Get (wh_Carriers ?deps) ''bolt_food'' = Inr (Some (bolt_New (rt_bolt hook_rt) demo_cfg))"
    unfolding app_with_parts(2) [OF hook_with, unfolded Wire_ok sum.inject, symmetric]
    by (simp add: reg_Get_def rg_adapter_def rg_on_def)
  have "memDel_GetByCarrierExternalID (rt_del_order demo_rt) ''bolt_food'' ''X1'' hook_mem = Inr hook_delivery"
    by (simp add: memDel_GetByCarrierExternalID_def hook_mem_def demo_rt_def hook_delivery_def)
  then have "handleDomainEvent ?deps env ''bolt_food'' ?ev hook_mem = 
      memDel_Save (cancelled_or_same (we_now env) hook_delivery []) hook_mem" for env
    by (simp add: handleDomainEvent_def wh mem_delivery_repo_def ev_ExternalID_def)
  then have "webhook_Process ?deps (ac_webhook hook_call) ''bolt_food'' (hr_Body hook_request) (hr_Headers hook_request) hook_mem =
      (None, snd (memDel_Save (cancelled_or_same (demo_time 1) hook_delivery []) hook_mem))"
    by (simp add: webhook_Process_def port hook_request_def hook_parses hook_call_def)
  then show ?thesis
    by (simp add: listener_def listener_route_def Webhooks_ingest_def hook_api_def hook_request_def)
qed

theorem listener_signed_only_witness:
  "\<exists>m'. listener hook_api hook_call hook_request (hook_mem, ()) = (RNoContent, m', ()) \<and> m' \<noteq> hook_mem \<and>
     hr_Path hook_request = [''webhooks'', ''bolt''] \<and>
     bolt_signed hook_rt demo_cfg (hr_Body hook_request) (hr_Headers hook_request)"
proof -
  let ?d = "cancelled_or_same (demo_time 1) hook_delivery []"
  let ?m = "snd (memDel_Save ?d hook_mem)"
  have "d_State ?d = StateCancelled \<and> d_ID ?d = 2" by code_simp
  then have "m_delByID ?m 2 = Some ?d" "d_State ?d \<noteq> d_State hook_delivery"
    by (simp_all add: hook_delivery_def)
  moreover have "m_delByID hook_mem 2 = Some hook_delivery" by (simp add: hook_mem_def)
  ultimately have "?m \<noteq> hook_mem" by (metis option.inject)
  with listener_signed_only [of hook_rt "mem_repos hook_rt" demo_cfg hook_api, OF _ hook_cancels] hook_with hook_cancels
  show ?thesis by (auto simp: hook_api_def)
qed

section \<open>Middleware\<close>

text \<open>A webhook that was handled after the deadline: the client gets 204, the log says 504.\<close>

theorem request_answered_witness:
  "\<exists>x h. api_chain (\<lambda>h. h) (\<lambda>h r xs. case h r xs of (p, x, s) \<Rightarrow> (p, WriteHeader 504 x, s)) ''req-1''
       (serve (\<lambda>r s. (RNoContent, s + 1)) (\<lambda>_. [])) hook_request (exchange_new, 0 :: int) = (None, x, 1) \<and>
     ex_Sent x = Some (204, h) \<and> ex_Log x = [RequestLine ''POST'' [''webhooks'', ''bolt''] 504]"
  using request_answered [of "\<lambda>h. h" True "\<lambda>h r xs. case h r xs of (p, x, s) \<Rightarrow> (p, WriteHeader 504 x, s)"
      "''req-1''" hook_request "''req-1''" "\<lambda>r s. (RNoContent, s + 1)" "0 :: int" RNoContent 1 "\<lambda>_. []"]
  by (auto simp: RealIP_spec_def Timeout_spec_def hook_request_def Header_Get_def)


end
