(* ===== verification/DispatchRace.thy ===== *)
theory DispatchRace
  imports Concurrency AppPg
begin

text \<open>
  Concurrent dispatches. A retailer's request, the dispatcher's tick and a second dispatcher may all
  work on the same pending delivery; nothing locks it between the read and the save, and the carrier
  is called in between. The shared state is the storage, the world of the carriers and, for the
  statements, the shipments asked of carriers so far, each with the delivery it was for.
\<close>

section \<open>The system\<close>

type_synonym ('s, 'w) race_state = "('s \<times> 'w) \<times> (uuid \<times> shipment_request) list"

fun shipment_sent :: "uuid \<Rightarrow> 'w dispatch_pc \<Rightarrow> (uuid \<times> shipment_request) list" where
  "shipment_sent i (DLogged d req dec) = [(i, req)]"
| "shipment_sent i _ = []"

definition race_step ::
  "('s, 'w) dispatch_deps \<Rightarrow> dispatch_env \<times> uuid \<Rightarrow> 'w dispatch_pc \<Rightarrow> ('s, 'w) race_state
     \<Rightarrow> 'w dispatch_pc \<times> ('s, 'w) race_state" where
  "race_step deps c pc y =
     (case dispatch_step deps (fst c) (snd c) pc (fst y) of
        (pc', sw') \<Rightarrow> (pc', sw', snd y @ shipment_sent (snd c) pc))"

abbreviation race_steps ::
  "('s, 'w) dispatch_deps \<Rightarrow> (dispatch_env \<times> uuid) list \<Rightarrow>
     'w dispatch_pc list \<times> ('s, 'w) race_state \<Rightarrow> 'w dispatch_pc list \<times> ('s, 'w) race_state \<Rightarrow> bool" where
  "race_steps deps cs \<equiv> interleave (\<lambda>k. race_step deps (cs ! k))"

section \<open>Every interleaving, on any storage\<close>

context app_store
begin

definition race_ok ::
  "hash_fns \<Rightarrow> (dispatch_env \<times> uuid) list \<Rightarrow> 's \<Rightarrow> 'w dispatch_pc list \<times> ('s, 'w) race_state \<Rightarrow> bool" where
  "race_ok H cs s0 y \<longleftrightarrow> (case y of (pcs, (s, w), out) \<Rightarrow>
     kept inv H awbs dels chain dispatch_edge s0 s \<and> chain s = chain s0 \<and> awbs s = awbs s0 \<and>
     length pcs = length cs \<and> (\<forall>k < length cs. dispatch_ok s (snd (cs ! k)) (pcs ! k)) \<and>
     (\<forall>(i, req) \<in> set out. \<exists>d. dels s i = Some d \<and> sr_IdempotencyKey req = d_IdempotencyKey d))"

lemma dispatch_ok_sent:
  assumes "dispatch_ok s i pc" "(j, req) \<in> set (shipment_sent i pc)"
  shows "\<exists>d. dels s j = Some d \<and> sr_IdempotencyKey req = d_IdempotencyKey d"
  using assms by (cases pc) (auto simp: loaded_at_def moves_def)

lemma sent_key_mono:
  assumes "dels_move dels E s s'" "\<exists>d. dels s i = Some d \<and> k = d_IdempotencyKey d"
  shows "\<exists>d. dels s' i = Some d \<and> k = d_IdempotencyKey d"
  using assms by (fastforce simp: dels_move_def option_rel_Some1 moves_def dest: spec [of _ i])

lemma race_ok_step:
  assumes ok: "race_ok H cs s0 (pcs, y)" and k: "k < length pcs"
    and st: "race_step \<lparr>dp_Deliveries = del_rp, dp_AWBs = awb_rp, dp_Routing = eng,
      dp_RoutingLog = rlog, dp_Bus = bus\<rparr> (cs ! k) (pcs ! k) y = (pc, y')"
  shows "race_ok H cs s0 (pcs[k := pc], y')"
proof -
  obtain s w out where y: "y = ((s, w), out)" by (metis prod.exhaust)
  obtain s' w' where y': "y' = ((s', w'), out @ shipment_sent (snd (cs ! k)) (pcs ! k))"
    and step: "dispatch_step \<lparr>dp_Deliveries = del_rp, dp_AWBs = awb_rp, dp_Routing = eng,
      dp_RoutingLog = rlog, dp_Bus = bus\<rparr> (fst (cs ! k)) (snd (cs ! k)) (pcs ! k) (s, w) = (pc, s', w')"
    using st by (auto simp: race_step_def y split: prod.splits)
  have kept: "kept inv H awbs dels chain dispatch_edge s0 s" and len: "length pcs = length cs"
    and each: "\<And>j. j < length cs \<Longrightarrow> dispatch_ok s (snd (cs ! j)) (pcs ! j)"
    and frame: "chain s = chain s0" "awbs s = awbs s0"
    and keys: "\<And>i req. (i, req) \<in> set out \<Longrightarrow> \<exists>d. dels s i = Some d \<and> sr_IdempotencyKey req = d_IdempotencyKey d"
    using ok by (auto simp: race_ok_def y)
  have okk: "dispatch_ok s (snd (cs ! k)) (pcs ! k)" using each k len by simp
  have "inv s" "app_inv H awbs dels chain s" using kept by (simp_all add: kept_def)
  note s' = dispatch_step_ok [OF this okk step]
  then have moved: "dels_move dels dispatch_edge s s'" by (simp add: kept_def)
  have "dispatch_ok s' (snd (cs ! j)) (pcs[k := pc] ! j)" if "j < length cs" for j
    using s' dispatch_ok_mono [OF each [OF that] moved] k by (auto simp: nth_list_update)
  moreover have "\<exists>d. dels s' i = Some d \<and> sr_IdempotencyKey req = d_IdempotencyKey d"
    if "(i, req) \<in> set (out @ shipment_sent (snd (cs ! k)) (pcs ! k))" for i req
    using that keys dispatch_ok_sent [OF okk] sent_key_mono [OF moved] by (auto; blast)
  ultimately show ?thesis
    using s' frame len keep_trans [OF kept] by (auto simp: race_ok_def y')
qed

lemma race_ok_reach:
  assumes "inv s" "app_inv H awbs dels chain s"
    and "(race_steps \<lparr>dp_Deliveries = del_rp, dp_AWBs = awb_rp, dp_Routing = eng,
      dp_RoutingLog = rlog, dp_Bus = bus\<rparr> cs)\<^sup>*\<^sup>* (map (\<lambda>_. DStart) cs, (s, w), []) z"
  shows "race_ok H cs s z"
proof -
  have "race_ok H cs s (map (\<lambda>_. DStart) cs, (s, w), [])"
    using keep_refl [OF assms(1,2)] by (simp add: race_ok_def)
  with assms(3) show ?thesis
    by (rule interleave_invariant) (rule race_ok_step)
qed

end

section \<open>Properties\<close>

text \<open>
  C7: Any number of DispatchDelivery calls on Postgres, interleaved step by step: deliveries
  move only from pending to assigned, no chain changes, every shipment asked of a carrier bears
  the idempotency key of its delivery, and after a call that reports success the delivery is
  assigned.
\<close>

theorem pg_dispatches_interleave:
  assumes "pg_inv env s" "app_inv H (pg_awbs env) (pg_dels env) (pg_chain env) s"
    and "(race_steps \<lparr>dp_Deliveries = pg_delivery_repo env, dp_AWBs = pg_awb_repo env, dp_Routing = eng,
        dp_RoutingLog = pg_routing_repo env, dp_Bus = mem_bus [pg_audit_handler]\<rparr> cs)\<^sup>*\<^sup>*
      (map (\<lambda>_. DStart) cs, (s, w), []) (pcs, (s', w'), out)"
  shows "kept (pg_inv env) H (pg_awbs env) (pg_dels env) (pg_chain env) dispatch_edge s s' \<and>
    pg_chain env s' = pg_chain env s \<and>
    (\<forall>(i, req) \<in> set out. \<exists>d. pg_dels env s' i = Some d \<and> sr_IdempotencyKey req = d_IdempotencyKey d) \<and>
    (\<forall>k < length cs. pcs ! k = DDone None \<longrightarrow>
       (\<exists>d. pg_dels env s' (snd (cs ! k)) = Some d \<and> d_State d = StateAssigned))"
proof -
  have ok: "postgres.race_ok env H cs s (pcs, (s', w'), out)"
    by (rule postgres.race_ok_reach [OF assms])
  have "\<exists>d. pg_dels env s' (snd (cs ! k)) = Some d \<and> d_State d = StateAssigned"
    if "k < length cs" "pcs ! k = DDone None" for k
  proof -
    have "postgres.dispatch_ok env s' (snd (cs ! k)) (DDone None)"
      using ok that by (auto simp: postgres.race_ok_def)
    then show ?thesis by simp
  qed
  with ok show ?thesis by (simp add: postgres.race_ok_def)
qed

text \<open>Nothing but the key keeps a carrier from shipping the same parcel twice.\<close>

text \<open>
  C13: In memory, two calls of DispatchDelivery that both read the delivery while it is pending
  can both create a shipment, with the same request, and both report success; the delivery keeps
  the carrier and identifier of the call that saves last.
\<close>

theorem mem_dispatched_twice:
  assumes del: "m_delByID m i = Some d" "d_ID d = i" "d_State d = StatePending" "m_awbByID m (d_AWBID d) = Some a"
    and "req = buildShipmentRequest a d"
    and decide: "Decide eng (dv_now_decide t1) req RoleLastMile w = (Inr dec1, w1)"
      "Decide eng (dv_now_decide t2) req RoleLastMile w1 = (Inr dec2, w2)"
    and create: "cp_CreateShipment (dc_Chosen dec2) req w2 = (Inr r2, w3)"
      "cp_CreateShipment (dc_Chosen dec1) req w3 = (Inr r1, w4)"
  shows "\<exists>m'. (race_steps \<lparr>dp_Deliveries = mem_delivery_repo ord, dp_AWBs = mem_awb_repo, dp_Routing = eng,
        dp_RoutingLog = mem_routing_repo, dp_Bus = mem_bus [AuditHandler_Handle]\<rparr> [(t1, i), (t2, i)])\<^sup>*\<^sup>*
      ([DStart, DStart], (m, w), []) ([DDone None, DDone None], (m', w4), [(i, req), (i, req)]) \<and>
    m_delByID m' i = Some (assigned (dv_now_state t1) d (cp_Capabilities (dc_Chosen dec1)) r1)"
proof -
  let ?deps = "\<lparr>dp_Deliveries = mem_delivery_repo ord, dp_AWBs = mem_awb_repo, dp_Routing = eng,
    dp_RoutingLog = mem_routing_repo, dp_Bus = mem_bus [AuditHandler_Handle]\<rparr>"
  let ?cs = "[(t1, i), (t2, i)]"
  let ?d = "\<lambda>t dec r. assigned (dv_now_state t) d (cp_Capabilities (dc_Chosen dec)) r"
  let ?run = "run_schedule (\<lambda>k. race_step ?deps (?cs ! k))"
  let ?log = "\<lambda>dec m. m\<lparr>m_logs := (m_logs m)(i := m_logs m i @
    [\<lparr>rd_Strategy = dc_Strategy dec, rd_ChosenID = c_ID (cp_Capabilities (dc_Chosen dec)), rd_Score = dc_Score dec,
      rd_Reasoning = dc_Reasoning dec, rd_Candidates = []\<rparr>])\<rparr>"
  let ?ev = "\<lambda>dec r. RiderAssignedEvent
    \<lparr>b_Type = ''rider.assigned'', b_Time = dc_DecidedAt dec, b_ExtID = sp_ExternalID r,
     b_CarrierID = c_ID (cp_Capabilities (dc_Chosen dec))\<rparr>
    \<lparr>pr_ID = [], pr_Name = [], pr_Phone = [], pr_Vehicle = []\<rparr>"
  have saves: "\<exists>y'. memDel_Save x y = (None, y')" for x y by (simp add: memDel_Save_def Let_def)
  obtain n2 where n2: "memDel_Save (?d t2 dec2 r2) (?log dec2 m) = (None, n2)" using saves by blast
  define m2 where "m2 = publish_each [AuditHandler_Handle] [?ev dec2 r2] n2"
  obtain n1 where n1: "memDel_Save (?d t1 dec1 r1) (?log dec1 m2) = (None, n1)" using saves by blast
  define m1 where "m1 = publish_each [AuditHandler_Handle] [?ev dec1 r1] n1"
  note ops = mem_delivery_repo_def memDel_GetByID_def mem_awb_repo_def memAWB_GetByID_def mem_routing_repo_def
    memRouting_Save_def mem_bus_def bus_Publish_def dispatched_pending [OF del(3)] race_step_def
  have run1: "?run [0, 0, 0, 1, 1, 1] ([DStart, DStart], (m, w), []) = ([DDecided d req dec1, DDecided d req dec2], (m, w2), [])"
    using del decide by (simp add: ops assms(5))
  have run2: "?run [1, 1, 1, 1] ([DDecided d req dec1, DDecided d req dec2], (m, w2), []) =
      ([DDecided d req dec1, DDone None], (m2, w3), [(i, req)])"
    using create(1) n2 by (simp add: ops m2_def del: publish_each.simps)
  have run3: "?run [0, 0, 0, 0] ([DDecided d req dec1, DDone None], (m2, w3), [(i, req)]) =
      ([DDone None, DDone None], (m1, w4), [(i, req), (i, req)])"
    using create(2) n1 by (simp add: ops m1_def del: publish_each.simps)
  have "(race_steps ?deps ?cs)\<^sup>*\<^sup>* ([DStart, DStart], (m, w), [])
      ([DDone None, DDone None], (m1, w4), [(i, req), (i, req)])"
    using run_schedule_reach [OF run1] run_schedule_reach [OF run2] run_schedule_reach [OF run3]
    by (blast intro: rtranclp_trans)
  moreover have "m_delByID m1 i = Some (?d t1 dec1 r1)"
    using memDel_Save_res(2) [OF n1] del(2) by (simp add: m1_def publish_frame del: publish_each.simps)
  ultimately show ?thesis by blast
qed

end
