(* ===== verification/WitnessesRace.thy ===== *)
theory WitnessesRace
  imports Witnesses WitnessesPg DispatchRace
begin

text \<open>
  Two dispatches of one booked delivery at the same time, on each storage, with a carrier that picks
  up from lockers and accepts everything.
\<close>

definition race_port :: "unit carrier_port" where
  "race_port = (demo_port ''a'' 900)
     \<lparr>cp_Capabilities := (demo_caps ''a'')\<lparr>c_PickupModes := [PickupLocker], c_SupportsLocker := True\<rparr>,
      cp_CreateShipment := \<lambda>r w. (Inr \<lparr>sp_ExternalID = ''X9'', sp_State = ShipmentAssigned,
         sp_EstimatedCost = \<lparr>mo_Currency = ''RON'', mo_Minor = 900\<rparr>, sp_EstimatedPickupAt = None,
         sp_EstimatedDropAt = None, sp_TrackingURL = []\<rparr>, w)\<rparr>"

definition race_engine :: "unit engine" where
  "race_engine = \<lparr>en_ListByRole = (\<lambda>r. [race_port]), en_strategy = CheapestStrategy\<rparr>"

definition race_env :: dispatch_env where
  "race_env = \<lparr>dv_now_decide = demo_time 1, dv_now_state = demo_time 1\<rparr>"

definition pg_race_deps :: "(pgdb, unit) dispatch_deps" where
  "pg_race_deps = \<lparr>dp_Deliveries = pg_delivery_repo demo_env, dp_AWBs = pg_awb_repo demo_env,
     dp_Routing = race_engine, dp_RoutingLog = pg_routing_repo demo_env, dp_Bus = mem_bus [pg_audit_handler]\<rparr>"

definition two_dispatches :: "(dispatch_env \<times> uuid) list" where
  "two_dispatches = [(race_env, 2), (race_env, 2)]"

definition pg_raced :: "unit dispatch_pc list \<times> (pgdb, unit) race_state" where
  "pg_raced = run_schedule (\<lambda>k. race_step pg_race_deps (two_dispatches ! k)) [0, 0, 0, 1, 1, 1, 1, 1, 1, 1, 0, 0, 0, 0]
     ([DStart, DStart], (demo_pg_booked, ()), [])"

theorem pg_dispatches_interleave_witness:
  "kept (pg_inv demo_env) demo_H (pg_awbs demo_env) (pg_dels demo_env) (pg_chain demo_env) dispatch_edge
     demo_pg_booked (fst (fst (snd pg_raced)))"
proof -
  have inv: "pg_inv demo_env demo_pg_booked"
    "app_inv demo_H (pg_awbs demo_env) (pg_dels demo_env) (pg_chain demo_env) demo_pg_booked"
    using pg_run_inv [OF demo_pg_New conjunct1 [OF demo_pg_booked_run]] by (simp_all add: demo_rt_def)
  obtain pcs s' out where z: "pg_raced = (pcs, (s', ()), out)" by (metis prod_cases3 surj_pair unit.exhaust)
  have starts: "map (\<lambda>_. DStart) two_dispatches = [DStart, DStart]" by (simp add: two_dispatches_def)
  have "(race_steps pg_race_deps two_dispatches)\<^sup>*\<^sup>*
      (map (\<lambda>_. DStart) two_dispatches, (demo_pg_booked, ()), []) (pcs, (s', ()), out)"
    unfolding starts by (rule run_schedule_reach [OF z [unfolded pg_raced_def]])
  from pg_dispatches_interleave [OF inv this [unfolded pg_race_deps_def]] show ?thesis by (simp add: z)
qed

lemma race_Decide:
  assumes "l_Type (d_Pickup d) = LocationLocker" "p_WeightKg (a_Package a) = Num 2"
  shows "\<exists>dec. Decide race_engine t (buildShipmentRequest a d) RoleLastMile w = (Inr dec, w) \<and> dc_Chosen dec = race_port"
proof -
  have "eligible_one (buildShipmentRequest a d) RoleLastMile race_port"
    using assms by (simp add: eligible_one_iff race_port_def demo_caps_def exceedsDims_def sortDesc_def swap01_def
        swap02_def swap12_def buildShipmentRequest_def)
  then have "eligible race_engine (buildShipmentRequest a d) RoleLastMile = [race_port]"
    by (simp add: eligible_def race_engine_def)
  then show ?thesis
    by (simp add: Decide_def race_engine_def CheapestStrategy_def CheapestSelect_def race_port_def Let_def)
qed

theorem mem_dispatched_twice_witness:
  "\<exists>m' req. (race_steps \<lparr>dp_Deliveries = mem_delivery_repo (rt_del_order demo_rt), dp_AWBs = mem_awb_repo,
       dp_Routing = race_engine, dp_RoutingLog = mem_routing_repo, dp_Bus = mem_bus [AuditHandler_Handle]\<rparr>
       two_dispatches)\<^sup>*\<^sup>*
     ([DStart, DStart], (demo_shop, ()), []) ([DDone None, DDone None], (m', ()), [(2, req), (2, req)])"
proof -
  let ?d = "demo_delivery StatePending"
  have d: "m_delByID demo_shop 2 = Some ?d" "d_ID ?d = 2" "d_State ?d = StatePending"
    "m_awbByID demo_shop (d_AWBID ?d) = Some demo_awb"
    by (simp_all add: demo_shop_def demo_delivery_def)
  have fits: "l_Type (d_Pickup ?d) = LocationLocker" "p_WeightKg (a_Package demo_awb) = Num 2"
    by (simp_all add: demo_delivery_def booking_pickup_def demo_awb_def booking_package_def demo_input_def)
  obtain dec where dec: "Decide race_engine (dv_now_decide race_env) (buildShipmentRequest demo_awb ?d) RoleLastMile () = (Inr dec, ())"
      "dc_Chosen dec = race_port"
    using race_Decide [OF fits] by blast
  obtain r where "cp_CreateShipment (dc_Chosen dec) (buildShipmentRequest demo_awb ?d) () = (Inr r, ())"
    by (simp add: dec(2) race_port_def)
  from mem_dispatched_twice [OF d refl dec(1) dec(1) this this] show ?thesis
    unfolding two_dispatches_def by blast
qed

end
