(* ===== verification/ContractKit.thy ===== *)
theory ContractKit
  imports Bolt
begin

text \<open>
  \<open>tests/contract/carrier_contract.go\<close>, the suite every carrier adapter has to pass, and its run on
  the Bolt adapter (\<open>adapter_test.go\<close>). A scenario uses the adapter and may change the outside world
  \<open>'w\<close>; it fails with the text of its first \<open>t.Fatal\<close>. The suite runs every scenario, in order, and
  its result is the list of those that failed. The time limits of the contexts are not modelled.
\<close>

section \<open>Scenarios\<close>

type_synonym 'w scenario = "'w carrier_port \<Rightarrow> 'w \<Rightarrow> string option \<times> 'w"

definition validShipment :: shipment_request where
  "validShipment =
     \<lparr>sr_InternalAWB = ''DF-2026-TEST0001'', sr_IdempotencyKey = ''test-idempotency-key-1'',
      sr_Pickup = \<lparr>pl_Type = PickupAddress,
        pl_Point = \<lparr>g_Lat = f_const (444546 / 10000), g_Lng = f_const (260987 / 10000), g_AccuracyM = Num 0\<rparr>,
        pl_Address = address_zero\<lparr>ad_Street := ''Calea Floreasca 169'', ad_City := ''Bucuresti'',
                                   ad_Country := ''RO''\<rparr>,
        pl_LockerID = [], pl_HubID = []\<rparr>,
      sr_Drop = \<lparr>pl_Type = PickupAddress,
        pl_Point = \<lparr>g_Lat = f_const (444632 / 10000), g_Lng = f_const (261062 / 10000), g_AccuracyM = Num 0\<rparr>,
        pl_Address = address_zero\<lparr>ad_Street := ''Aviatorilor 10'', ad_City := ''Bucuresti'',
                                   ad_Country := ''RO''\<rparr>,
        pl_LockerID = [], pl_HubID = []\<rparr>,
      sr_Package = \<lparr>pp_WeightKg = f_const (12 / 10), pp_LengthCm = f_int 30, pp_WidthCm = f_int 20,
        pp_HeightCm = f_int 15, pp_DeclaredValueMinor = 0, pp_DeclaredValueCcy = [],
        pp_Description = ''Cosmetice'', pp_Fragile = False\<rparr>,
      sr_Recipient = \<lparr>rc_Name = ''Maria Pop'', rc_Phone = ''+40712345678'', rc_Email = []\<rparr>,
      sr_ScheduledStart = None, sr_ScheduledEnd = None, sr_Notes = [], sr_RequirePhotoPOD = True\<rparr>"

definition sc_required_fields :: "'w scenario" where
  "sc_required_fields adapter w =
     (let caps = cp_Capabilities adapter
      in (if c_ID caps = [] then Some ''capabilities.ID must be set''
          else if c_Name caps = [] then Some ''capabilities.Name must be set''
          else if length (c_Roles caps) = 0 then Some ''capabilities.Roles must declare at least one role''
          else if f_le (c_MaxWeightKg caps) (Num 0) then Some ''capabilities.MaxWeightKg must be > 0''
          else if length (c_DeliveryModes caps) = 0
          then Some ''capabilities.DeliveryModes must declare at least one mode''
          else if length (c_PickupModes caps) = 0
          then Some ''capabilities.PickupModes must declare at least one mode''
          else if length (c_POD caps) = 0 then Some ''capabilities.POD must declare at least one proof type''
          else None, w))"

fun has_proof :: "proof_type \<Rightarrow> proof_type list \<Rightarrow> bool" where
  "has_proof q [] = False"
| "has_proof q (p # ps) = (if p = q then True else has_proof q ps)"

definition sc_photo_proof :: "'w scenario" where
  "sc_photo_proof adapter w =
     (if \<not> has_proof ProofPhoto (c_POD (cp_Capabilities adapter))
      then Some ''all carriers MUST support photo POD; chain of custody requires it'' else None, w)"

definition sc_gps_proof :: "'w scenario" where
  "sc_gps_proof adapter w =
     (if \<not> has_proof ProofGPS (c_POD (cp_Capabilities adapter))
      then Some ''all carriers MUST report GPS at handover events'' else None, w)"

text \<open>A call that must fail: \<open>if err == nil { t.Fatal(msg) }\<close>.\<close>

fun must_fail :: "string \<Rightarrow> (goerror + 'a) \<Rightarrow> string option" where
  "must_fail msg (Inl err) = None"
| "must_fail msg (Inr v) = Some msg"

definition oversized_shipment :: "capabilities \<Rightarrow> shipment_request" where
  "oversized_shipment caps =
     validShipment\<lparr>sr_Package := (sr_Package validShipment)
       \<lparr>pp_WeightKg := f_add (c_MaxWeightKg caps) (f_int 10)\<rparr>\<rparr>"

definition sc_oversized :: "'w scenario" where
  "sc_oversized adapter w =
     (case cp_CreateShipment adapter (oversized_shipment (cp_Capabilities adapter)) w of
        (r, w') \<Rightarrow> (must_fail ''expected error for oversized package, got nil'' r, w'))"

definition phoneless_shipment :: shipment_request where
  "phoneless_shipment =
     validShipment\<lparr>sr_Recipient := (sr_Recipient validShipment)\<lparr>rc_Phone := []\<rparr>\<rparr>"

definition sc_missing_phone :: "'w scenario" where
  "sc_missing_phone adapter w =
     (case cp_CreateShipment adapter phoneless_shipment w of
        (r, w') \<Rightarrow> (must_fail ''expected error for missing phone'' r, w'))"

definition sc_invalid_signature :: "'w scenario" where
  "sc_invalid_signature adapter w =
     (must_fail ''expected ErrInvalidSignature, got nil''
        (cp_ParseWebhook adapter ''{\"event\":\"x\"}'' [(''X-Signature'', ''definitely-wrong'')]), w)"

definition sc_invalid_json :: "'w scenario" where
  "sc_invalid_json adapter w =
     (must_fail ''expected error for malformed JSON'' (cp_ParseWebhook adapter ''{not-json'' []), w)"

definition contract_scenarios :: "(string \<times> 'w scenario) list" where
  "contract_scenarios =
     [(''Capabilities/returns_required_fields'', sc_required_fields),
      (''Capabilities/has_photo_proof'', sc_photo_proof),
      (''Capabilities/has_gps_proof'', sc_gps_proof),
      (''CreateShipment/rejects_oversized_package'', sc_oversized),
      (''CreateShipment/rejects_missing_recipient_phone'', sc_missing_phone),
      (''ParseWebhook/rejects_invalid_signature'', sc_invalid_signature),
      (''ParseWebhook/rejects_invalid_json'', sc_invalid_json)]"

fun run_scenarios :: "(string \<times> 'w scenario) list \<Rightarrow> 'w carrier_port \<Rightarrow> 'w \<Rightarrow> (string \<times> string) list \<times> 'w" where
  "run_scenarios [] adapter w = ([], w)"
| "run_scenarios ((name, sc) # scs) adapter w =
     (let (r, w1) = sc adapter w;
          (failed, w2) = run_scenarios scs adapter w1
      in (case r of None \<Rightarrow> failed | Some msg \<Rightarrow> (name, msg) # failed, w2))"

definition RunCarrierContract :: "'w carrier_port \<Rightarrow> 'w \<Rightarrow> (string \<times> string) list \<times> 'w" where
  "RunCarrierContract adapter w = run_scenarios contract_scenarios adapter w"

lemma has_proof_iff [simp]: "has_proof q ps \<longleftrightarrow> q \<in> set ps"
  by (induction q ps rule: has_proof.induct) auto

lemma must_fail_None: "must_fail msg r = None \<longleftrightarrow> \<not> (\<exists>v. r = Inr v)"
  by (cases r) auto

section \<open>The contract as laws\<close>

text \<open>
  What the suite samples, as laws of an adapter: it declares its capabilities, refuses a request
  without a phone number before it calls the carrier, and a webhook only yields events if the
  adapter accepts its signature (\<open>signed\<close>), which it never does without headers of its own.
\<close>

locale carrier_contract =
  fixes adapter :: "'w carrier_port"
    and signed :: "string \<Rightarrow> headers \<Rightarrow> bool"
  assumes declares: "c_ID (cp_Capabilities adapter) \<noteq> []" "c_Name (cp_Capabilities adapter) \<noteq> []"
      "c_Roles (cp_Capabilities adapter) \<noteq> []" "c_DeliveryModes (cp_Capabilities adapter) \<noteq> []"
      "c_PickupModes (cp_Capabilities adapter) \<noteq> []"
    and proofs: "{ProofPhoto, ProofGPS} \<subseteq> set (c_POD (cp_Capabilities adapter))"
    and carries: "f_lt (Num 0) (c_MaxWeightKg (cp_Capabilities adapter))"
    and phone: "rc_Phone (sr_Recipient r) = [] \<Longrightarrow> \<exists>err. cp_CreateShipment adapter r w = (Inl err, w)"
    and authentic: "cp_ParseWebhook adapter raw h = Inr evs \<Longrightarrow> signed raw h"
    and foreign: "set (map fst h) \<subseteq> {''X-Signature''} \<Longrightarrow> \<not> signed raw h"
begin

lemma required_fields: "sc_required_fields adapter w = (None, w)"
proof -
  have "\<not> f_le (c_MaxWeightKg (cp_Capabilities adapter)) (Num 0)"
    using carries by (auto simp: f_le_def f_lt_def f_eq_def)
  moreover have "c_POD (cp_Capabilities adapter) \<noteq> []" using proofs by auto
  ultimately show ?thesis using declares by (simp add: sc_required_fields_def)
qed

lemma proof_types: "sc_photo_proof adapter w = (None, w)" "sc_gps_proof adapter w = (None, w)"
  using proofs by (auto simp: sc_photo_proof_def sc_gps_proof_def)

lemma missing_phone: "sc_missing_phone adapter w = (None, w)"
  using phone [of phoneless_shipment w]
  by (auto simp: sc_missing_phone_def phoneless_shipment_def)

lemma refused_webhook: "\<not> signed raw h \<Longrightarrow> must_fail msg (cp_ParseWebhook adapter raw h) = None"
  using authentic by (auto simp: must_fail_None)

lemma invalid_webhooks: "sc_invalid_signature adapter w = (None, w)" "sc_invalid_json adapter w = (None, w)"
  by (auto simp: sc_invalid_signature_def sc_invalid_json_def intro!: refused_webhook foreign)

text \<open>So of the whole suite only one scenario is in doubt.\<close>

lemma suite:
  "RunCarrierContract adapter w =
     (case sc_oversized adapter w of
        (None, w') \<Rightarrow> ([], w')
      | (Some msg, w') \<Rightarrow> ([(''CreateShipment/rejects_oversized_package'', msg)], w'))"
  by (simp add: RunCarrierContract_def contract_scenarios_def required_fields proof_types missing_phone
      invalid_webhooks split: prod.split option.split)

end

section \<open>The Bolt adapter\<close>

interpretation bolt: carrier_contract "bolt_New env cfg"
    "\<lambda>raw h. verifySignature env raw h (bf_WebhookSecret cfg) = None" for env cfg
proof unfold_locales
  show "f_lt (Num 0) (c_MaxWeightKg (cp_Capabilities (bolt_New env cfg)))"
    by (simp add: bolt_New_def buildCapabilities_def) code_simp
next
  fix r :: shipment_request and w assume "rc_Phone (sr_Recipient r) = []"
  then show "\<exists>err. cp_CreateShipment (bolt_New env cfg) r w = (Inl err, w)"
    by (simp add: bolt_New_def bolt_CreateShipment_def ToBoltCreateOrder_def)
next
  fix raw h evs assume "cp_ParseWebhook (bolt_New env cfg) raw h = Inr evs"
  then show "verifySignature env raw h (bf_WebhookSecret cfg) = None"
    by (auto simp: bolt_New_def bolt_ParseWebhook_def split: option.splits)
next
  fix raw :: string and h :: headers assume h: "set (map fst h) \<subseteq> {''X-Signature''}"
  have "strings_ToLower ''X-Signature'' \<noteq> strings_ToLower ''X-Bolt-Signature''" by code_simp
  then have "headerLookup h ''X-Bolt-Signature'' = []"
    using h headerLookup_found [of h "''X-Bolt-Signature''"] by (force simp: image_subset_iff)
  then show "verifySignature env raw h (bf_WebhookSecret cfg) \<noteq> None" by (simp add: verifySignature_None)
qed (simp_all add: bolt_New_def buildCapabilities_def)

text \<open>The order the adapter sends for the oversized parcel: 25 kg, ten above its own limit.\<close>

definition oversized_order :: "string \<Rightarrow> bolt_create_order_request" where
  "oversized_order area =
     \<lparr>bc_ExternalRef = ''test-idempotency-key-1'',
      bc_Pickup = \<lparr>bl_Lat = f_const (444546 / 10000), bl_Lng = f_const (260987 / 10000),
        bl_Address = ''Calea Floreasca 169, Bucuresti'', bl_Floor = [], bl_Apartment = [], bl_Notes = []\<rparr>,
      bc_Drop = \<lparr>bl_Lat = f_const (444632 / 10000), bl_Lng = f_const (261062 / 10000),
        bl_Address = ''Aviatorilor 10, Bucuresti'', bl_Floor = [], bl_Apartment = [], bl_Notes = []\<rparr>,
      bc_Package = \<lparr>bp_WeightGrams = 25000,
        bp_Dimensions = \<lparr>bd_LengthCm = 30, bd_WidthCm = 20, bd_HeightCm = 15\<rparr>,
        bp_Description = ''Cosmetice'', bp_Value = 0, bp_Currency = []\<rparr>,
      bc_Recipient = \<lparr>br_Name = ''Maria Pop'', br_Phone = ''+40712345678''\<rparr>,
      bc_ServiceArea = area, bc_RequiresPhotoPOD = True, bc_ScheduledFor = None\<rparr>"

lemma f_int_kit: "f_int 15 = Num 15" "f_int 10 = Num 10" "f_int 20 = Num 20" "f_int 30 = Num 30"
    "f_int 1000 = Num 1000" "f_add (Num 15) (Num 10) = Num 25" "f_mul (Num 25) (Num 1000) = Num 25000"
  by code_simp+

lemma located: "\<not> f_eq (g_Lat (pl_Point (sr_Pickup validShipment))) (Num 0)"
    "\<not> f_eq (g_Lat (pl_Point (sr_Drop validShipment))) (Num 0)"
  by code_simp+

lemma f_to_int64_kit: "f_to_int64 oob (Num 25000) = 25000" "f_to_int64 oob (Num 30) = 30"
    "f_to_int64 oob (Num 20) = 20" "f_to_int64 oob (Num 15) = 15"
  by (simp_all add: f_to_int64_def f_trunc_def int64_range_def)

lemma ToBolt_oversized:
  "ToBoltCreateOrder oob area (oversized_shipment (buildCapabilities cfg)) = Inr (oversized_order area)"
proof -
  have "toBoltLocation (sr_Pickup validShipment) = Inr (bc_Pickup (oversized_order area))"
    "toBoltLocation (sr_Drop validShipment) = Inr (bc_Drop (oversized_order area))"
    using located by (simp_all add: toBoltLocation_def validShipment_def oversized_order_def address_zero_def)
  moreover have "toBoltPackage oob (sr_Package (oversized_shipment (buildCapabilities cfg))) =
      Inr (bc_Package (oversized_order area))"
    by (simp add: toBoltPackage_def oversized_shipment_def validShipment_def buildCapabilities_def f_int_kit
        f_to_int64_kit oversized_order_def)
  ultimately show ?thesis
    by (simp add: ToBoltCreateOrder_def oversized_shipment_def) (simp add: validShipment_def oversized_order_def)
qed

section \<open>Properties\<close>

text \<open>
  C33: On the Bolt adapter every scenario of the shared carrier contract passes, whatever the
  configuration and the network do, except the one for an oversized parcel: it fails exactly
  when Bolt's API accepts the 25 kg order, which the adapter sends although its limit is 15 kg.
\<close>

theorem bolt_contract:
  "RunCarrierContract (bolt_New env cfg) w =
     (case CreateOrder env cfg (oversized_order (bf_ServiceArea cfg)) ''test-idempotency-key-1'' w of
        (Inl err, w') \<Rightarrow> ([], w')
      | (Inr ord, w') \<Rightarrow> ([(''CreateShipment/rejects_oversized_package'',
                           ''expected error for oversized package, got nil'')], w'))"
proof -
  have "sr_IdempotencyKey (oversized_shipment caps) = ''test-idempotency-key-1''" for caps
    by (simp add: oversized_shipment_def validShipment_def)
  then show ?thesis
    by (simp add: bolt.suite sc_oversized_def) (simp add: bolt_New_def bolt_CreateShipment_def
        ToBolt_oversized split: prod.split sum.split)
qed

end
