(* ===== verification/IdlePorts.thy ===== *)
theory IdlePorts
  imports Ports
begin

text \<open>
  The driven ports the program declares and does not use yet, \<open>ports/payment.go\<close>,
  \<open>ports/notification.go\<close> and \<open>ports/locker_access.go\<close>: their data and their interfaces. Nothing
  implements or calls them, so there is no operation to verify; as for the other ports, an operation
  takes and returns the state \<open>'w\<close> of the outside world, an error is \<open>Inl\<close> or \<open>Some\<close>, and
  \<open>map[string]string\<close> is a map.
\<close>

section \<open>Payments\<close>

datatype payment_state =
    PaymentPending
  | PaymentAuthorized
  | PaymentCaptured
  | PaymentFailed
  | PaymentRefunded
  | PaymentOther string

record create_payment_intent_request =
  py_IdempotencyKey :: string
  py_Amount :: money
  py_CustomerRef :: string
  py_DeliveryID :: string
  py_Description :: string
  py_Metadata :: "string \<rightharpoonup> string"

record payment_intent =
  pi_ProviderPaymentID :: string
  pi_ClientSecret :: string
  pi_State :: payment_state

record payment_event =
  pe_ProviderPaymentID :: string
  pe_DeliveryID :: string
  pe_State :: payment_state
  pe_Amount :: money
  pe_Provider :: string

definition ErrPaymentInvalidRequest :: goerror where
  "ErrPaymentInvalidRequest = errors_New ''payment: invalid request''"

definition ErrPaymentDeclined :: goerror where
  "ErrPaymentDeclined = errors_New ''payment: declined''"

definition ErrPaymentNotFound :: goerror where
  "ErrPaymentNotFound = errors_New ''payment: not found''"

record 'w payment_port =
  pm_Name :: string
  pm_CreateIntent :: "create_payment_intent_request \<Rightarrow> 'w \<Rightarrow> (goerror + payment_intent) \<times> 'w"
  pm_Capture :: "string \<Rightarrow> 'w \<Rightarrow> goerror option \<times> 'w"
  pm_Refund :: "string \<Rightarrow> money \<Rightarrow> string \<Rightarrow> 'w \<Rightarrow> goerror option \<times> 'w"
  pm_VerifyWebhook :: "string \<Rightarrow> (string \<rightharpoonup> string) \<Rightarrow> goerror + payment_event"

section \<open>Notifications\<close>

datatype notification_channel =
    ChannelSMS
  | ChannelWhatsApp
  | ChannelEmail
  | ChannelPush
  | ChannelOther string

record send_notification_request =
  no_IdempotencyKey :: string
  no_To :: string
  no_Template :: string
  no_Variables :: "string \<rightharpoonup> string"
  no_Locale :: string
  no_CTAURL :: string
  no_Metadata :: "string \<rightharpoonup> string"

record send_notification_result =
  ns_ProviderMessageID :: string
  ns_State :: string

definition ErrNotificationProviderUnavailable :: goerror where
  "ErrNotificationProviderUnavailable = errors_New ''notification: provider unavailable''"

definition ErrNotificationInvalidRecipient :: goerror where
  "ErrNotificationInvalidRecipient = errors_New ''notification: invalid recipient''"

record 'w notification_port =
  nt_Channel :: notification_channel
  nt_Send :: "send_notification_request \<Rightarrow> 'w \<Rightarrow> (goerror + send_notification_result) \<times> 'w"

section \<open>Access to lockers\<close>

record locker_access_request =
  la_LockerID :: string
  la_ExternalAWB :: string
  la_RiderID :: string
  la_DeliveryID :: string
  la_IdempotencyKey :: string

record locker_access_grant =
  lg_GrantID :: string
  lg_Credential :: string
  lg_ExpiresAt :: int64
  lg_OneTime :: bool
  lg_OpenInstructions :: string

definition ErrLockerNotFound :: goerror where
  "ErrLockerNotFound = errors_New ''locker: not found''"

definition ErrLockerAccessDenied :: goerror where
  "ErrLockerAccessDenied = errors_New ''locker: access denied''"

definition ErrLockerEmpty :: goerror where
  "ErrLockerEmpty = errors_New ''locker: package not present''"

definition ErrLockerAlreadyOpened :: goerror where
  "ErrLockerAlreadyOpened = errors_New ''locker: already opened''"

record 'w locker_access_port =
  lp_Name :: string
  lp_GrantAccess :: "locker_access_request \<Rightarrow> 'w \<Rightarrow> (goerror + locker_access_grant) \<times> 'w"
  lp_RevokeAccess :: "string \<Rightarrow> 'w \<Rightarrow> goerror option \<times> 'w"

section \<open>Errors of the carrier port\<close>

text \<open>Declared for carriers to map their failures to; the program neither returns nor tests them.\<close>

definition ErrCapacityExceeded :: goerror where
  "ErrCapacityExceeded = errors_New ''carrier: capacity exceeded''"

definition ErrOutOfZone :: goerror where
  "ErrOutOfZone = errors_New ''carrier: out of zone''"

definition ErrOversizedPackage :: goerror where
  "ErrOversizedPackage = errors_New ''carrier: oversized package''"

definition ErrIdempotencyMismatch :: goerror where
  "ErrIdempotencyMismatch = errors_New ''carrier: idempotency key mismatch''"

definition ErrRateLimited :: goerror where
  "ErrRateLimited = errors_New ''carrier: rate limited''"

definition ErrAuthFailed :: goerror where
  "ErrAuthFailed = errors_New ''carrier: authentication failed''"

definition ErrShipmentNotFound :: goerror where
  "ErrShipmentNotFound = errors_New ''carrier: shipment not found''"

definition ErrAlreadyCancelled :: goerror where
  "ErrAlreadyCancelled = errors_New ''carrier: shipment already cancelled''"

text \<open>The sentinels of the ports, told apart by \<open>errors.Is\<close>.\<close>

lemmas port_sentinels = ErrNotFound_def ErrInvalidRequest_def ErrInvalidSignature_def
  ErrCarrierUnavailable_def ErrPaymentInvalidRequest_def ErrPaymentDeclined_def ErrPaymentNotFound_def
  ErrNotificationProviderUnavailable_def ErrNotificationInvalidRecipient_def ErrLockerNotFound_def
  ErrLockerAccessDenied_def ErrLockerEmpty_def ErrLockerAlreadyOpened_def ErrCapacityExceeded_def
  ErrOutOfZone_def ErrOversizedPackage_def ErrIdempotencyMismatch_def ErrRateLimited_def ErrAuthFailed_def
  ErrShipmentNotFound_def ErrAlreadyCancelled_def

lemma sentinels_distinct:
  "distinct [ErrNotFound, ErrInvalidRequest, ErrInvalidSignature, ErrCarrierUnavailable,
     ErrPaymentInvalidRequest, ErrPaymentDeclined, ErrPaymentNotFound, ErrNotificationProviderUnavailable,
     ErrNotificationInvalidRecipient, ErrLockerNotFound, ErrLockerAccessDenied, ErrLockerEmpty,
     ErrLockerAlreadyOpened, ErrCapacityExceeded, ErrOutOfZone, ErrOversizedPackage, ErrIdempotencyMismatch,
     ErrRateLimited, ErrAuthFailed, ErrShipmentNotFound, ErrAlreadyCancelled]"
  by (simp add: port_sentinels errors_New_def)

end
