(* ===== verification/Spec2Isabelle.thy ===== *)
theory Spec2Isabelle
  imports Witnesses WitnessesPg WitnessesBin WitnessesRace ContractKit IdlePorts
begin

text \<open>
  DashFetchr, the concierge delivery service under \<open>src/\<close> (Go): retailers book the delivery of a
  parcel that waits in a locker, a carrier's rider picks it up and brings it home, and every
  hand-over is an event in a hash-chained custody ledger. This development models the program's own
  logic and proves what it keeps.

  \<^bold>\<open>Parts and theories\<close>, from the bottom up. Each theory opens with a note of its own.

  \<^item> \<open>Prelude\<close>, \<open>GoFloat\<close>, \<open>GoRuntime\<close>: what the code uses of Go. \<open>int64\<close> is a 64-bit word, \<open>float64\<close>
    is binary64 as exact rationals with rounding to nearest even, errors are values with
    \<open>errors.Is\<close>, times are nanoseconds with a zone offset, a map that is ranged over comes with an
    order of its keys (\<open>range_order\<close>), since Go's order is not determined. \<open>GoFmt\<close>: the text of
    identifiers, durations and errors, and the verbs of \<open>fmt\<close> (\<open>Sprintf\<close>). \<open>Interleave\<close>:
    goroutines on a shared state, as processes with a program counter (\<open>interleave\<close>), schedules, and
    the rule for an invariant that every process keeps.
  \<^item> \<open>Delivery\<close> (\<open>core/delivery\<close>), \<open>Awb\<close> (\<open>core/awb\<close>), \<open>Custody\<close> (\<open>core/custody\<close>), \<open>Pricing\<close>
    (\<open>core/pricing\<close>), \<open>Routing\<close> (\<open>core/routing\<close>): the domain. A method that mutates its receiver
    returns the new value; an error is \<open>Inl\<close>.
  \<^item> \<open>Ports\<close> (\<open>ports\<close>): the data of the carrier interface, and the interfaces as records of functions
    that pass a storage state. \<open>IdlePorts\<close>: the ports for payments, notifications and access to lockers,
    which nothing implements or calls, and the errors no carrier returns.
  \<^item> \<open>CarrierRegistry\<close> and \<open>Bolt\<close> (\<open>carrier\<close>, \<open>adapters/carriers/bolt\<close>): the registry and the only carrier.
    \<open>ContractKit\<close> (\<open>tests/contract\<close>): the suite every carrier adapter has to pass, scenario by scenario,
    the locale \<open>carrier_contract\<close> of what it samples, and its run on the Bolt adapter.
  \<^item> \<open>Stores\<close>: the laws of the repositories (the locales \<open>awb_store\<close>, \<open>delivery_store\<close>,
    \<open>custody_store\<close> and their sum \<open>app_store\<close>) and the invariant \<open>app_inv\<close> of the data.
  \<^item> \<open>Booking\<close>, \<open>CustodyApp\<close>, \<open>Dispatch\<close>, \<open>WebhookApp\<close> (\<open>app/booking\<close>, \<open>app/custodyapp\<close>,
    \<open>app/dispatch\<close>, \<open>app/webhook\<close>): the services over any repositories, with their lemmas in the
    context of \<open>app_store\<close>.
  \<^item> \<open>MemoryStore\<close> (\<open>infra/memory\<close>, \<open>infra/events\<close>): the repositories of the program without a
    database, and the interpretations of the store locales on them.
  \<^item> \<open>AppRun\<close> (\<open>app/app.go\<close>): the wiring over any repositories (\<open>app_with\<close>), the calls of its services
    (\<open>app_exec\<close>) and its runs (\<open>run_of\<close>), with the lemmas of the locale \<open>app_store\<close> about them.
  \<^item> \<open>App\<close>: the program with the in-memory storage. \<open>app_step\<close> is one operation with new identifiers,
    \<open>app_run\<close> the states reachable from the empty storage.
  \<^item> \<open>Json\<close>: the documents of the jsonb columns, the JSON form of each stored struct, UTF-8.
    \<open>Schema\<close> (\<open>migrations/0001_initial.up.sql\<close>): the tables, their constraints, and the effect of each
    SQL statement. \<open>Postgres\<close> (\<open>infra/postgres\<close>): the repositories, from marshalling over the
    parameters of a statement to scanning. \<open>PgStore\<close>, \<open>PgContracts\<close>: what comes back of a stored
    value, and the interpretations of the store locales.
  \<^item> \<open>AppPg\<close>: the pool, the program on Postgres (\<open>pg_step\<close>, \<open>pg_run\<close>), the log line.
  \<^item> \<open>Concurrency\<close>: \<open>Record\<close> of the ledger and of the custody service as processes with a program
    counter, and every interleaving of their steps. \<open>DispatchRace\<close>: the same for \<open>DispatchDelivery\<close>,
    whose seven steps (\<open>dispatch_step\<close>, between them the calls of the storage and of the carrier) are
    in \<open>Dispatch\<close> with the proof that together they are the whole call.
  \<^item> \<open>HttpApi\<close> (\<open>infra/http\<close>, \<open>auth\<close>): routes, credentials and handlers.
  \<^item> \<open>Middleware\<close> (\<open>infra/http/middleware/middleware.go\<close>, \<open>infra/http/response\<close>): request identifiers, the
    request log and the panic handler, around any handler.
  \<^item> \<open>GoText\<close>, \<open>Config\<close> (\<open>config/config.go\<close>): reading numbers, flags and durations out of text, and the
    configuration of a process. \<open>Binaries\<close> (\<open>cmd\<close>): what each process builds (\<open>bootstrap\<close>, the choice
    of the storage), the routes of the webhook listener, and the loop of the dispatcher (\<open>runLoop\<close>),
    a partial function on the sequence of its ticks, and the end of each process (\<open>api_wait\<close>,
    \<open>listener_wait\<close>, \<open>dispatcher_wait\<close>) on the sequence of what \<open>main\<close> sees.
  \<^item> \<open>Demo\<close>, \<open>DemoPg\<close>, \<open>Witnesses\<close>, \<open>WitnessesPg\<close>, \<open>WitnessesBin\<close>, \<open>WitnessesRace\<close>: a concrete run from booking to delivery on each
    storage, and the properties applied to it.

  \<^bold>\<open>What is shown.\<close> \<open>Custody\<close>: verification accepts exactly the intact chains and is tamper evident
  up to collisions (but accepts a truncated chain). \<open>Delivery\<close>, \<open>Awb\<close>: the transition tables, the
  order of milestones, numbers. \<open>Routing\<close>, \<open>Pricing\<close>: the strategies are optimal, the dimension test is
  the geometric one, sums do not wrap around. \<open>Bolt\<close>: webhooks are authentic, the request that is sent.
  \<open>ContractKit\<close>: Bolt passes the shared contract up to the scenario for oversized parcels.
  \<open>App\<close>: by rule induction over runs, chains verify and only grow, deliveries follow the graph, and
  a delivered parcel has its evidence. A run is a sequence of whole calls of the services, one after
  the other and with new identifiers. \<open>AppPg\<close>: the same on Postgres, where any statement may fail, for
  events that come back from their columns as they were hashed (\<open>plain_event\<close>); what comes back of a
  saved delivery and event, and what does not. \<open>Concurrency\<close>: calls that overlap. With the unique key of the
  table the calls of \<open>Record\<close> that succeed are linearizable, the in-memory storage forks the chain, and
  there the custody service loses updates. \<open>DispatchRace\<close>: concurrent dispatches keep every invariant and send
  only the key of the delivery, but two of them can ship one parcel twice. \<open>HttpApi\<close>: nothing changes
  without credentials, and a retailer sees only its own bookings, though it can tell which exist. \<open>Middleware\<close>: every request is
  answered, also when the handler panics, but after its deadline it is logged with another status. \<open>Config\<close>, \<open>Binaries\<close>: durations are read exactly, the loop of the dispatcher returns exactly
  when its context ends, in memory neither it nor a webhook ever changes anything, and a listener that
  cannot bind its address waits on in silence. The loops
  over text terminate because each round consumes a part of it.

  \<^bold>\<open>Parameters.\<close> SHA-256, HMAC and \<open>encoding/json\<close>; \<open>net/http\<close> and what the carrier answers (a world
  state of type \<open>'w\<close>); \<open>math.Sin\<close>, \<open>Cos\<close>, \<open>Atan2\<close>, \<open>Sqrt\<close>; random bytes, new identifiers and clock
  readings, one per use; the order of map iterations; \<open>uuid.Parse\<close> and \<open>time.Parse\<close>;
  \<open>os.Getenv\<close>; of the database (\<open>pg_env\<close>) its clock, its time zone, the text of raw jsonb, the order of rows no query orders, and the statements that
  fail; the pool (\<open>pool_env\<close>). A table has a finite number of rows (\<open>pg_max_rows\<close>), which keeps
  sequence numbers from wrapping around. Nothing is
  assumed of them except where a theorem says so. An operation of a run draws identifiers that are
  not in use (\<open>op_fresh\<close>).

  \<^bold>\<open>Not modelled.\<close> The sockets and the signal handler of Go (what \<open>main\<close> sees of them is a sequence
  of events), the text of log lines, what a cancelled context does to a statement or a request in flight
  (the two middlewares of \<open>chi\<close> are arguments of \<open>api_chain\<close>, with their documented behaviour as
  hypotheses), the indexes and the customers of the schema, and the method \<open>String\<close> of
  a decision, which nothing calls. Interleavings are modelled for the two \<open>Record\<close> operations and for
  \<open>DispatchDelivery\<close>, where the storage decides the outcome; elsewhere an operation is atomic. A
  statement that fails has no effect: a connection lost after a commit is not modelled.
\<close>

end
